(* ===== verification/Prelude.thy ===== *)
theory Prelude
  imports Complex_Main "HOL-Library.Sublist" "HOL-Library.Word"
begin

text \<open>
  Shared vocabulary of the development: the collections of simplification rules, the result type
  of fallible Go functions, the width of a Go \<open>int\<close>, and the generic lemmas on lists, sums and
  maps that several components use.
\<close>

section \<open>Collections and shared types\<close>

named_theorems f64_eval \<open>equations that evaluate binary64 operations on finite arguments\<close>
named_theorems gw_frame \<open>which parts of a state an operation leaves alone\<close>

text \<open>
  A Go function that returns \<open>(T, error)\<close> returns a value of \<open>'a result\<close>: \<open>Inl msg\<close> is a
  non-nil error with its text, \<open>Inr v\<close> a value with a nil error.
\<close>

type_synonym 'a result = "string + 'a"

text \<open>
  Instants are nanoseconds since Go's zero time (January 1, year 1, 00:00 UTC), so the zero
  \<open>time.Time\<close> is \<open>0\<close>. A \<open>time.Duration\<close> is a signed number of nanoseconds.
\<close>

type_synonym time = int
type_synonym duration = int

section \<open>Go integers\<close>

text \<open>Go's \<open>int\<close> and \<open>int64\<close> have 64 bits; \<open>wrap64\<close> is two's complement wrap-around.\<close>

definition wrap64 :: "int \<Rightarrow> int" where
  "wrap64 x = (x + 2 ^ 63) mod 2 ^ 64 - 2 ^ 63"

definition in_int64 :: "int \<Rightarrow> bool" where
  "in_int64 x \<longleftrightarrow> - (2 ^ 63) \<le> x \<and> x < 2 ^ 63"

text \<open>Integer division and remainder truncate towards zero.\<close>

definition go_div :: "int \<Rightarrow> int \<Rightarrow> int" where
  "go_div a b = sgn a * sgn b * (\<bar>a\<bar> div \<bar>b\<bar>)"

definition go_mod :: "int \<Rightarrow> int \<Rightarrow> int" where
  "go_mod a b = a - b * go_div a b"

lemma wrap64_id [simp]: "in_int64 x \<Longrightarrow> wrap64 x = x"
  by (simp add: wrap64_def in_int64_def)

lemma in_int64_wrap64 [simp]: "in_int64 (wrap64 x)"
  by (simp add: wrap64_def in_int64_def)

lemma go_div_nonneg: "0 \<le> a \<Longrightarrow> 0 < b \<Longrightarrow> go_div a b = a div b"
  by (cases "a = 0") (auto simp: go_div_def)

lemma go_mod_nonneg: "0 \<le> a \<Longrightarrow> 0 < b \<Longrightarrow> go_mod a b = a mod b"
  by (simp add: go_mod_def go_div_nonneg minus_mult_div_eq_mod)

section \<open>Lists, sums and maps\<close>

lemma filter_map_filter: "filter P (map f (filter Q xs)) = map f (filter (\<lambda>x. Q x \<and> P (f x)) xs)"
  by (induction xs) auto

lemma find_SomeD: "find P xs = Some x \<Longrightarrow> x \<in> set xs \<and> P x"
  by (auto simp: find_Some_iff)

lemma find_append: "find P (xs @ ys) = (case find P xs of None \<Rightarrow> find P ys | Some x \<Rightarrow> Some x)"
  by (induction xs) auto

lemma foldl_map_upd_outside:
  "k \<notin> key ` set xs \<Longrightarrow> foldl (\<lambda>m x. m(key x \<mapsto> val x)) m xs k = m k"
  by (induction xs arbitrary: m) auto

lemma foldl_map_upd_last:
  "foldl (\<lambda>m x. m(key x \<mapsto> val x)) m xs k =
     (case find (\<lambda>x. key x = k) (rev xs) of None \<Rightarrow> m k | Some x \<Rightarrow> Some (val x))"
proof (induction xs rule: rev_induct)
  case Nil
  then show ?case by simp
next
  case (snoc x xs)
  then show ?case by simp
qed

lemma foldl_map_upd_distinct:
  assumes "distinct (map key xs)" and "x \<in> set xs"
  shows "foldl (\<lambda>m x. m(key x \<mapsto> val x)) m xs (key x) = Some (val x)"
  using assms
proof (induction xs arbitrary: m)
  case Nil
  then show ?case by simp
next
  case (Cons y ys)
  show ?case
  proof (cases "x = y")
    case True
    with Cons.prems have "key x \<notin> key ` set ys" by auto
    with True show ?thesis
      by (simp add: foldl_map_upd_outside del: fun_upd_apply) simp
  next
    case False
    with Cons.prems have "distinct (map key ys)" and "x \<in> set ys" by auto
    then show ?thesis using Cons.IH by simp
  qed
qed

lemma first_split_unique:
  assumes "as @ c # bs = as' @ c # bs'" and "c \<notin> set as" and "c \<notin> set as'"
  shows "as = as' \<and> bs = bs'"
  using assms
proof (induction as arbitrary: as')
  case Nil
  then show ?case by (cases as') auto
next
  case (Cons a as)
  then show ?case by (cases as') auto
qed

lemma last_split_unique:
  assumes "as @ c # bs = as' @ c # bs'" and "c \<notin> set bs" and "c \<notin> set bs'"
  shows "as = as' \<and> bs = bs'"
proof -
  have "rev (as @ c # bs) = rev (as' @ c # bs')" using assms(1) by simp
  then have "rev bs @ c # rev as = rev bs' @ c # rev as'" by simp
  with assms(2,3) have "rev bs = rev bs' \<and> rev as = rev as'"
    by (intro first_split_unique [of _ c]) auto
  then show ?thesis by simp
qed

end
