(* ===== verification/GoStd.thy ===== *)
theory GoStd
  imports Prelude
begin

text \<open>
  The functions of Go's standard library that the program calls on strings, headers and integers.
  A Go string is a sequence of bytes, here a \<open>string\<close> (a list of 8-bit \<open>char\<close>s). Functions that
  work on code points decode UTF-8 as package \<open>unicode/utf8\<close> does, an invalid byte counting as one
  rune of width 1.

  The lemmas: every rune is at least one byte, trimming is idempotent and never lengthens a string,
  and joining and splitting behave on the shapes the components use.
\<close>

section \<open>Bytes and runes\<close>

definition byte :: "char \<Rightarrow> nat" where
  "byte c = of_char c"

definition between :: "nat \<Rightarrow> nat \<Rightarrow> char \<Rightarrow> bool" where
  "between lo hi c \<longleftrightarrow> lo \<le> byte c \<and> byte c \<le> hi"

text \<open>The width of the first rune: \<open>utf8.DecodeRuneInString\<close>, \<open>0\<close> only on the empty string.\<close>

fun rune_width :: "string \<Rightarrow> nat" where
  "rune_width [] = 0"
| "rune_width (c # cs) =
    (if between 0xC2 0xDF c then
       (case cs of c1 # _ \<Rightarrow> if between 0x80 0xBF c1 then 2 else 1 | _ \<Rightarrow> 1)
     else if between 0xE0 0xEF c then
       (case cs of c1 # c2 # _ \<Rightarrow>
          if between (if byte c = 0xE0 then 0xA0 else 0x80) (if byte c = 0xED then 0x9F else 0xBF) c1
             \<and> between 0x80 0xBF c2 then 3 else 1
        | _ \<Rightarrow> 1)
     else if between 0xF0 0xF4 c then
       (case cs of c1 # c2 # c3 # _ \<Rightarrow>
          if between (if byte c = 0xF0 then 0x90 else 0x80) (if byte c = 0xF4 then 0x8F else 0xBF) c1
             \<and> between 0x80 0xBF c2 \<and> between 0x80 0xBF c3 then 4 else 1
        | _ \<Rightarrow> 1)
     else 1)"

lemma rune_width_pos: "s \<noteq> [] \<Longrightarrow> 1 \<le> rune_width s"
  by (cases s) (auto split: list.splits)

lemma rune_width_le: "rune_width s \<le> length s"
  by (cases s) (auto split: list.splits)

text \<open>The bytes of a rune after the first are continuation bytes, never ASCII.\<close>

lemma rune_width_cont: "0 < k \<Longrightarrow> k < rune_width s \<Longrightarrow> 128 \<le> byte (s ! k)"
  by (cases s) (auto simp: between_def nth_Cons less_Suc_eq numeral_eq_Suc split: list.splits if_splits nat.splits)

lemma rune_width_ascii: "s \<noteq> [] \<Longrightarrow> byte (hd s) < 128 \<Longrightarrow> rune_width s = 1"
  by (cases s) (auto simp: between_def)

declare rune_width.simps [simp del]

text \<open>\<open>len([]rune(s))\<close>.\<close>

function rune_count :: "string \<Rightarrow> nat" where
  "rune_count s = (if s = [] then 0 else Suc (rune_count (drop (rune_width s) s)))"
  by pat_completeness auto
termination
  using rune_width_pos by (relation "measure length") (auto simp: Suc_le_eq)

declare rune_count.simps [simp del]

section \<open>Package strings\<close>

text \<open>
  The UTF-8 encodings of the code points for which \<open>unicode.IsSpace\<close> holds: the ASCII ones,
  U+0085, U+00A0, U+1680, U+2000 to U+200A, U+2028, U+2029, U+202F, U+205F and U+3000.
\<close>

definition spaces :: "string list" where
  "spaces =
     [[CHR 0x20], [CHR 0x09], [CHR 0x0A], [CHR 0x0B], [CHR 0x0C], [CHR 0x0D],
      [CHR 0xC2, CHR 0x85], [CHR 0xC2, CHR 0xA0], [CHR 0xE1, CHR 0x9A, CHR 0x80],
      [CHR 0xE2, CHR 0x80, CHR 0x80], [CHR 0xE2, CHR 0x80, CHR 0x81], [CHR 0xE2, CHR 0x80, CHR 0x82],
      [CHR 0xE2, CHR 0x80, CHR 0x83], [CHR 0xE2, CHR 0x80, CHR 0x84], [CHR 0xE2, CHR 0x80, CHR 0x85],
      [CHR 0xE2, CHR 0x80, CHR 0x86], [CHR 0xE2, CHR 0x80, CHR 0x87], [CHR 0xE2, CHR 0x80, CHR 0x88],
      [CHR 0xE2, CHR 0x80, CHR 0x89], [CHR 0xE2, CHR 0x80, CHR 0x8A], [CHR 0xE2, CHR 0x80, CHR 0xA8],
      [CHR 0xE2, CHR 0x80, CHR 0xA9], [CHR 0xE2, CHR 0x80, CHR 0xAF], [CHR 0xE2, CHR 0x81, CHR 0x9F],
      [CHR 0xE3, CHR 0x80, CHR 0x80]]"

text \<open>Drop encodings of the list \<open>ps\<close> from the front as long as one is there.\<close>

function trim_with :: "string list \<Rightarrow> string \<Rightarrow> string" where
  "trim_with ps s =
     (case find (\<lambda>p. p \<noteq> [] \<and> prefix p s) ps of
        None \<Rightarrow> s
      | Some p \<Rightarrow> trim_with ps (drop (length p) s))"
  by pat_completeness auto
termination
  by (relation "measure (\<lambda>(ps, s). length s)")
    (auto dest!: find_SomeD simp: prefix_def)

declare trim_with.simps [simp del]

definition TrimSpace :: "string \<Rightarrow> string" where
  "TrimSpace s = rev (trim_with (map rev spaces) (rev (trim_with spaces s)))"

text \<open>\<open>strings.CutPrefix\<close>: the rest after a prefix, \<open>None\<close> when it is not there.\<close>

fun CutPrefix :: "string \<Rightarrow> string \<Rightarrow> string option" where
  "CutPrefix s [] = Some s"
| "CutPrefix [] (p # ps) = None"
| "CutPrefix (c # cs) (p # ps) = (if c = p then CutPrefix cs ps else None)"

definition HasPrefix :: "string \<Rightarrow> string \<Rightarrow> bool" where
  "HasPrefix s p \<longleftrightarrow> CutPrefix s p \<noteq> None"

text \<open>\<open>strings.Split\<close> on a one-byte separator; the result is never empty.\<close>

fun Split :: "char \<Rightarrow> string \<Rightarrow> string list" where
  "Split d [] = [[]]"
| "Split d (c # cs) =
     (if c = d then [] # Split d cs
      else case Split d cs of [] \<Rightarrow> [[c]] | p # ps \<Rightarrow> (c # p) # ps)"

fun Join :: "string list \<Rightarrow> string \<Rightarrow> string" where
  "Join [] sep = []"
| "Join [s] sep = s"
| "Join (s # t # ss) sep = s @ sep @ Join (t # ss) sep"

text \<open>\<open>strings.TrimRight(s, "/")\<close> and its kin for one cut character.\<close>

definition TrimRight :: "char \<Rightarrow> string \<Rightarrow> string" where
  "TrimRight d s = rev (dropWhile (\<lambda>c. c = d) (rev s))"

definition lower :: "char \<Rightarrow> char" where
  "lower c = (if between 0x41 0x5A c then char_of (byte c + 32) else c)"

definition upper :: "char \<Rightarrow> char" where
  "upper c = (if between 0x61 0x7A c then char_of (byte c - 32) else c)"

text \<open>
  \<open>strings.ToLower\<close>, used only to compare with ASCII words: the letters whose lower case is ASCII are
  A to Z, U+212A (Kelvin sign, \<open>k\<close>) and U+0130 (\<open>i\<close>); other bytes are kept, which cannot make a
  string equal to an ASCII word. \<open>strings.ToUpper\<close> is only applied to ASCII rule names.
\<close>

fun ToLower :: "string \<Rightarrow> string" where
  "ToLower [] = []"
| "ToLower (c # cs) =
     (if byte c = 0xE2 \<and> prefix [CHR 0x84, CHR 0xAA] cs then CHR ''k'' # ToLower (drop 2 cs)
      else if byte c = 0xC4 \<and> prefix [CHR 0xB0] cs then CHR ''i'' # ToLower (drop 1 cs)
      else lower c # ToLower cs)"

definition ToUpper :: "string \<Rightarrow> string" where
  "ToUpper s = map upper s"

section \<open>Package strconv\<close>

definition digit_char :: "nat \<Rightarrow> char" where
  "digit_char d = char_of (48 + d)"

fun nat_to_dec :: "nat \<Rightarrow> string" where
  "nat_to_dec n = (if n < 10 then [digit_char n] else nat_to_dec (n div 10) @ [digit_char (n mod 10)])"

declare nat_to_dec.simps [simp del]

definition Itoa :: "int \<Rightarrow> string" where
  "Itoa i = (if i < 0 then CHR ''-'' # nat_to_dec (nat (- i)) else nat_to_dec (nat i))"

definition is_digit :: "char \<Rightarrow> bool" where
  "is_digit c = between 0x30 0x39 c"

definition digits_value :: "string \<Rightarrow> nat" where
  "digits_value s = foldl (\<lambda>n c. 10 * n + (byte c - 48)) 0 s"

text \<open>\<open>strconv.Atoi\<close>: an optional sign, at least one digit, and the value fits \<open>int\<close>.\<close>

definition Atoi :: "string \<Rightarrow> int option" where
  "Atoi s =
     (let neg = prefix ''-'' s;
          ds = (if neg \<or> prefix ''+'' s then tl s else s);
          n = int (digits_value ds);
          v = (if neg then - n else n)
      in if ds \<noteq> [] \<and> list_all is_digit ds \<and> in_int64 v then Some v else None)"

text \<open>
  The verb \<open>%q\<close>: a double-quoted string with the escapes of a Go literal. Bytes from \<open>0x80\<close> on are
  kept, as they are in the encodings of printable code points.
\<close>

definition hex_char :: "nat \<Rightarrow> char" where
  "hex_char d = (if d < 10 then char_of (48 + d) else char_of (87 + d))"

definition quote_char :: "char \<Rightarrow> string" where
  "quote_char c =
     (let b = byte c; esc = CHR 0x5C in
      if b = 0x22 \<or> b = 0x5C then [esc, c]
      else if b = 7 then [esc, CHR ''a''] else if b = 8 then [esc, CHR ''b'']
      else if b = 12 then [esc, CHR ''f''] else if b = 10 then [esc, CHR ''n'']
      else if b = 13 then [esc, CHR ''r''] else if b = 9 then [esc, CHR ''t'']
      else if b = 11 then [esc, CHR ''v'']
      else if b < 32 \<or> b = 127 then [esc, CHR ''x'', hex_char (b div 16), hex_char (b mod 16)]
      else [c])"

definition Quote :: "string \<Rightarrow> string" where
  "Quote s = [CHR 0x22] @ concat (map quote_char s) @ [CHR 0x22]"

section \<open>Headers of package net/http\<close>

text \<open>
  A header maps canonical keys to value lists. The keys of the program are ASCII tokens, for which
  the canonical form has an upper-case letter at the start and after each hyphen, lower case elsewhere.
\<close>

type_synonym header = "(string \<times> string list) list"

fun canonical_from :: "bool \<Rightarrow> string \<Rightarrow> string" where
  "canonical_from _ [] = []"
| "canonical_from up (c # cs) = (if up then upper c else lower c) # canonical_from (c = CHR ''-'') cs"

definition CanonicalHeaderKey :: "string \<Rightarrow> string" where
  "CanonicalHeaderKey k = canonical_from True k"

definition Header_values :: "header \<Rightarrow> string \<Rightarrow> string list" where
  "Header_values h k = (case map_of h (CanonicalHeaderKey k) of None \<Rightarrow> [] | Some vs \<Rightarrow> vs)"

definition Header_Get :: "header \<Rightarrow> string \<Rightarrow> string" where
  "Header_Get h k = (case Header_values h k of [] \<Rightarrow> [] | v # _ \<Rightarrow> v)"

fun hdr_put :: "header \<Rightarrow> string \<Rightarrow> string list \<Rightarrow> header" where
  "hdr_put [] k vs = [(k, vs)]"
| "hdr_put ((k', vs') # h) k vs = (if k' = k then (k, vs) # h else (k', vs') # hdr_put h k vs)"

definition Header_Set :: "header \<Rightarrow> string \<Rightarrow> string \<Rightarrow> header" where
  "Header_Set h k v = hdr_put h (CanonicalHeaderKey k) [v]"

definition Header_Add :: "header \<Rightarrow> string \<Rightarrow> string \<Rightarrow> header" where
  "Header_Add h k v = hdr_put h (CanonicalHeaderKey k) (Header_values h k @ [v])"

section \<open>Facts\<close>

lemma byte_less [simp]: "byte c < 256"
  by (simp add: byte_def)

lemma byte_eq_iff: "byte c = byte d \<longleftrightarrow> c = d"
  unfolding byte_def by (rule of_char_eq_iff)

lemma rune_count_Nil [simp]: "rune_count [] = 0"
  by (simp add: rune_count.simps)

lemma rune_count_pos: "s \<noteq> [] \<Longrightarrow> 0 < rune_count s"
  by (simp add: rune_count.simps)

lemma rune_count_le: "rune_count s \<le> length s"
proof (induction s rule: rune_count.induct)
  case (1 s)
  show ?case
  proof (cases "s = []")
    case True
    then show ?thesis by simp
  next
    case False
    with "1.IH" have "rune_count (drop (rune_width s) s) \<le> length s - rune_width s" by simp
    moreover have "1 \<le> rune_width s" "0 < length s" using False rune_width_pos by auto
    ultimately have "Suc (rune_count (drop (rune_width s) s)) \<le> length s" by linarith
    then show ?thesis using False by (subst rune_count.simps) simp
  qed
qed

lemma trim_with_suffix: "suffix (trim_with ps s) s"
proof (induction ps s rule: trim_with.induct)
  case (1 ps s)
  then show ?case
    by (subst trim_with.simps) (auto split: option.splits intro: suffix_order.trans suffix_drop)
qed

lemma trim_with_stop: "p \<in> set ps \<Longrightarrow> p \<noteq> [] \<Longrightarrow> \<not> prefix p (trim_with ps s)"
proof (induction ps s rule: trim_with.induct)
  case (1 ps s)
  show ?case
  proof (cases "find (\<lambda>p. p \<noteq> [] \<and> prefix p s) ps")
    case None
    then have "trim_with ps s = s" by (subst trim_with.simps) simp
    with None "1.prems" show ?thesis by (auto simp: find_None_iff)
  next
    case (Some q)
    with "1.IH" "1.prems" show ?thesis by (subst trim_with.simps) auto
  qed
qed

lemma trim_with_id: "(\<And>p. p \<in> set ps \<Longrightarrow> p \<noteq> [] \<Longrightarrow> \<not> prefix p s) \<Longrightarrow> trim_with ps s = s"
  by (subst trim_with.simps) (auto simp: find_None_iff split: option.splits dest!: find_SomeD)

lemma trim_with_idem [simp]: "trim_with ps (trim_with ps s) = trim_with ps s"
  by (rule trim_with_id) (rule trim_with_stop)

lemma TrimSpace_Nil [simp]: "TrimSpace [] = []"
  by (simp add: TrimSpace_def trim_with_id)

lemma TrimSpace_idem [simp]: "TrimSpace (TrimSpace s) = TrimSpace s"
proof -
  define t where "t = trim_with spaces s"
  define u where "u = TrimSpace s"
  have u: "u = rev (trim_with (map rev spaces) (rev t))" by (simp add: u_def t_def TrimSpace_def)
  have "prefix u t"
    using trim_with_suffix [of "map rev spaces" "rev t"] by (simp add: u suffix_to_prefix)
  then have "trim_with spaces u = u"
    using trim_with_stop [of _ spaces s] unfolding t_def
    by (intro trim_with_id) (metis prefix_order.trans)
  then show ?thesis by (simp add: TrimSpace_def [of u] u_def [symmetric]) (simp add: u)
qed

lemma CutPrefix_Some: "CutPrefix s p = Some t \<longleftrightarrow> s = p @ t"
  by (induction s p rule: CutPrefix.induct) auto

lemma HasPrefix_iff: "HasPrefix s p \<longleftrightarrow> prefix p s"
  by (auto simp: HasPrefix_def prefix_def CutPrefix_Some)

lemma Join_eq_Nil: "Join ss sep = [] \<Longrightarrow> list_all (\<lambda>s. s = []) ss"
  by (induction ss sep rule: Join.induct) auto

lemma Split_nonempty [simp]: "Split d s \<noteq> []"
  by (induction s) (auto split: list.splits)

lemma Split_no_sep: "p \<in> set (Split d s) \<Longrightarrow> d \<notin> set p"
  by (induction s arbitrary: p) (auto split: list.splits if_splits)

lemma Split_Join: "Join (Split d s) [d] = s"
proof (induction s)
  case Nil
  then show ?case by simp
next
  case (Cons c cs)
  obtain p ps where "Split d cs = p # ps" by (cases "Split d cs") auto
  with Cons show ?case by (cases ps) auto
qed

section \<open>Decimal numbers\<close>

lemma char_of_byte: "byte c = n \<Longrightarrow> char_of n = c"
  by (auto simp: byte_def)

lemma digit_char_digit: "d < 10 \<Longrightarrow> is_digit (digit_char d) \<and> (digit_char d = CHR ''0'' \<longleftrightarrow> d = 0)"
proof -
  assume d: "d < 10"
  then have "byte (digit_char d) = 48 + d" by (simp add: byte_def digit_char_def)
  moreover have "digit_char d = CHR ''0'' \<longleftrightarrow> byte (digit_char d) = byte (CHR ''0'')" by (simp only: byte_eq_iff)
  moreover have "byte (CHR ''0'') = 48" by (simp add: byte_def)
  ultimately show ?thesis using d by (simp add: is_digit_def between_def)
qed

lemma nat_to_dec_digits: "list_all is_digit (nat_to_dec n) \<and> nat_to_dec n \<noteq> [] \<and> (hd (nat_to_dec n) = CHR ''0'' \<longrightarrow> n = 0)"
proof (induction n rule: nat_to_dec.induct)
  case (1 n)
  show ?case
  proof (cases "n < 10")
    case True
    then show ?thesis using digit_char_digit by (subst nat_to_dec.simps, subst nat_to_dec.simps, subst nat_to_dec.simps) auto
  next
    case False
    have e: "nat_to_dec n = nat_to_dec (n div 10) @ [digit_char (n mod 10)]" using False by (subst nat_to_dec.simps) simp
    show ?thesis using 1 False digit_char_digit [of "n mod 10"] by (auto simp: e)
  qed
qed

lemma nat_to_dec_0: "nat_to_dec 0 = ''0''"
  by (simp add: nat_to_dec.simps digit_char_def char_of_byte byte_def)

lemma digits_value_snoc: "digits_value (ds @ [c]) = 10 * digits_value ds + (byte c - 48)"
  by (simp add: digits_value_def)

lemma digits_value_nat_to_dec: "digits_value (nat_to_dec n) = n"
proof (induction n rule: nat_to_dec.induct)
  case (1 n)
  have b: "d < 10 \<Longrightarrow> byte (digit_char d) = 48 + d" for d by (simp add: byte_def digit_char_def)
  show ?case
  proof (cases "n < 10")
    case True
    then show ?thesis using b by (subst nat_to_dec.simps) (simp add: digits_value_def)
  next
    case False
    then show ?thesis using 1 b [of "n mod 10"] by (subst nat_to_dec.simps) (simp add: digits_value_snoc)
  qed
qed

lemma Atoi_Itoa: "in_int64 i \<Longrightarrow> Atoi (Itoa i) = Some i"
proof -
  assume i: "in_int64 i"
  have pre: "\<not> prefix ''-'' (nat_to_dec n)" "\<not> prefix ''+'' (nat_to_dec n)" for n
    using nat_to_dec_digits [of n] by (cases "nat_to_dec n"; auto simp: is_digit_def between_def byte_def)+
  show ?thesis using i pre nat_to_dec_digits
    by (auto simp: Atoi_def Itoa_def digits_value_nat_to_dec Let_def)
qed

lemma digits_value_zeros: "digits_value (replicate k (CHR ''0'') @ ds) = digits_value ds"
proof -
  have "byte (CHR ''0'') = 48" by (simp add: byte_def)
  then have "foldl (\<lambda>n c. 10 * n + (byte c - 48)) 0 (replicate k (CHR ''0'')) = 0" by (induction k) auto
  then show ?thesis by (simp add: digits_value_def)
qed

lemma digits_value_zeros0 [simp]: "digits_value (replicate k (CHR ''0'')) = 0"
  using digits_value_zeros [of k "[]"] by (simp add: digits_value_def)

lemma nat_to_dec_length: "0 < w \<Longrightarrow> n < 10 ^ w \<Longrightarrow> length (nat_to_dec n) \<le> w"
proof (induction n arbitrary: w rule: nat_to_dec.induct)
  case (1 n)
  show ?case
  proof (cases "n < 10")
    case True
    then show ?thesis using "1.prems" by (subst nat_to_dec.simps) simp
  next
    case False
    then obtain v where v: "w = Suc v" "0 < v" using "1.prems" by (cases w; cases "w - 1") auto
    then have "n div 10 < 10 ^ v" using "1.prems" by (simp add: less_mult_imp_div_less)
    then show ?thesis using "1.IH" [OF False v(2)] False v by (subst nat_to_dec.simps) simp
  qed
qed

end
