(* ===== verification/GoUrl.thy ===== *)
theory GoUrl
  imports GoStd
begin

text \<open>
  Package \<open>net/url\<close> as far as the program uses it: \<open>url.Parse\<close> with its errors, \<open>String\<close>, \<open>PathEscape\<close>, and
  \<open>ParseQuery\<close> and \<open>Values.Encode\<close>. A parsed URL keeps the raw (still escaped) user, host, path and fragment;
  \<open>url_String\<close> unescapes and escapes them again exactly where the package does. A zone in an IPv6 host is
  checked like the rest of the host. The texts of the errors are the package's, without the offending piece where
  the package quotes it.

  The lemma \<open>unescape_escape\<close>: unescaping undoes escaping.
\<close>

section \<open>Parsing\<close>

record url =
  url_Scheme :: string
  url_Opaque :: string
  url_User :: "string option"
  url_Host :: string
  url_OmitHost :: bool
  url_RawPath :: string
  url_ForceQuery :: bool
  url_RawQuery :: string
  url_Fragment :: string

definition is_alpha :: "char \<Rightarrow> bool" where
  "is_alpha c \<longleftrightarrow> between 0x41 0x5A c \<or> between 0x61 0x7A c"

definition is_hex :: "char \<Rightarrow> bool" where
  "is_hex c \<longleftrightarrow> is_digit c \<or> between 0x41 0x46 c \<or> between 0x61 0x66 c"

text \<open>Every percent sign starts a two-digit escape.\<close>

fun escapes_ok :: "string \<Rightarrow> bool" where
  "escapes_ok [] = True"
| "escapes_ok (c # cs) =
     (if c = CHR ''%''
      then (case cs of a # b # r \<Rightarrow> is_hex a \<and> is_hex b \<and> escapes_ok r | _ \<Rightarrow> False)
      else escapes_ok cs)"

text \<open>Split at the first occurrence: \<open>strings.Cut\<close>.\<close>

fun Cut :: "char \<Rightarrow> string \<Rightarrow> string \<times> string option" where
  "Cut d [] = ([], None)"
| "Cut d (c # cs) = (if c = d then ([], Some cs) else (case Cut d cs of (a, b) \<Rightarrow> (c # a, b)))"

text \<open>Split at the last occurrence.\<close>

definition CutLast :: "char \<Rightarrow> string \<Rightarrow> (string \<times> string) option" where
  "CutLast d s = (case Cut d (rev s) of (a, None) \<Rightarrow> None | (a, Some b) \<Rightarrow> Some (rev b, rev a))"

text \<open>The scheme is a letter followed by letters, digits, plus, minus and dot, up to a colon.\<close>

fun scheme_from :: "bool \<Rightarrow> string \<Rightarrow> string \<Rightarrow> (string \<times> string) result" where
  "scheme_from first acc [] = Inr ([], rev acc)"
| "scheme_from first acc (c # cs) =
     (if is_alpha c then scheme_from False (c # acc) cs
      else if is_digit c \<or> c \<in> set ''+-.'' then
        (if first then Inr ([], rev acc @ c # cs) else scheme_from False (c # acc) cs)
      else if c = CHR '':'' then
        (if first then Inl ''missing protocol scheme'' else Inr (rev acc, cs))
      else Inr ([], rev acc @ c # cs))"

definition getScheme :: "string \<Rightarrow> (string \<times> string) result" where
  "getScheme s = scheme_from True [] s"

definition valid_port :: "string \<Rightarrow> bool" where
  "valid_port p \<longleftrightarrow> list_all is_digit p"

definition host_char :: "char \<Rightarrow> bool" where
  "host_char c \<longleftrightarrow> is_alpha c \<or> is_digit c \<or> 0x80 \<le> byte c \<or> byte c = 0x22 \<or> byte c = 0x27
     \<or> c \<in> set ''!$&()*+,;=:[]<>-_.~''"

text \<open>Characters and escapes of a host: an escape of an ASCII byte is refused, but for \<open>%25\<close>.\<close>

fun host_ok :: "string \<Rightarrow> bool" where
  "host_ok [] = True"
| "host_ok (c # cs) =
     (if c = CHR ''%''
      then (case cs of
              a # b # r \<Rightarrow> is_hex a \<and> is_hex b \<and> (\<not> between 0x30 0x37 a \<or> [a, b] = ''25'') \<and> host_ok r
            | _ \<Rightarrow> False)
      else host_char c \<and> host_ok cs)"

definition parseHost :: "string \<Rightarrow> string result" where
  "parseHost h =
     (if prefix ''['' h then
        (case CutLast (CHR '']'') h of
           None \<Rightarrow> Inl ''missing ']' in host''
         | Some (_, p) \<Rightarrow>
             if (p = [] \<or> prefix '':'' p \<and> valid_port (tl p)) \<and> host_ok h then Inr h
             else Inl ''invalid port after host'')
      else
        (case CutLast (CHR '':'') h of
           Some (_, p) \<Rightarrow> if valid_port p \<and> host_ok h then Inr h else Inl ''invalid port after host''
         | None \<Rightarrow> if host_ok h then Inr h else Inl ''invalid character in host name''))"

definition userinfo_char :: "char \<Rightarrow> bool" where
  "userinfo_char c \<longleftrightarrow> is_alpha c \<or> is_digit c \<or> byte c = 0x27 \<or> c \<in> set ''-._:~!$&()*+,;=%@''"

definition parseAuthority :: "string \<Rightarrow> (string option \<times> string) result" where
  "parseAuthority a =
     (case CutLast (CHR ''@'') a of
        None \<Rightarrow> (case parseHost a of Inl e \<Rightarrow> Inl e | Inr h \<Rightarrow> Inr (None, h))
      | Some (u, h) \<Rightarrow>
          (case parseHost h of
             Inl e \<Rightarrow> Inl e
           | Inr h' \<Rightarrow>
               if list_all userinfo_char u \<and> escapes_ok u then Inr (Some u, h')
               else Inl ''net/url: invalid userinfo''))"

definition url_empty :: url where
  "url_empty = \<lparr>url_Scheme = [], url_Opaque = [], url_User = None, url_Host = [], url_OmitHost = False, url_RawPath = [],
     url_ForceQuery = False, url_RawQuery = [], url_Fragment = []\<rparr>"

text \<open>The part of \<open>Parse\<close> after scheme and query: authority and path.\<close>

definition parse_hier :: "string \<Rightarrow> string \<Rightarrow> url \<Rightarrow> url result" where
  "parse_hier scheme rest u =
     (if \<not> prefix ''/'' rest \<and> scheme \<noteq> [] then Inr (u\<lparr>url_Opaque := rest\<rparr>)
      else if \<not> prefix ''/'' rest \<and> CHR '':'' \<in> set (fst (Cut (CHR ''/'') rest))
      then Inl ''first path segment in URL cannot contain colon''
      else if (scheme \<noteq> [] \<or> \<not> prefix ''///'' rest) \<and> prefix ''//'' rest then
        (let after = drop 2 rest;
             authority = fst (Cut (CHR ''/'') after);
             path = drop (length authority) after
         in case parseAuthority authority of
              Inl e \<Rightarrow> Inl e
            | Inr (user, host) \<Rightarrow>
                if escapes_ok path
                then Inr (u\<lparr>url_User := user, url_Host := host, url_RawPath := path\<rparr>)
                else Inl ''invalid URL escape'')
      else if escapes_ok rest then Inr (u\<lparr>url_OmitHost := (scheme \<noteq> []), url_RawPath := rest\<rparr>) else Inl ''invalid URL escape'')"

definition parse_url :: "string \<Rightarrow> url result" where
  "parse_url body =
     (if list_ex (\<lambda>c. byte c < 0x20 \<or> byte c = 0x7F) body
      then Inl ''net/url: invalid control character in URL''
      else if body = ''*'' then Inr (url_empty\<lparr>url_RawPath := ''*''\<rparr>)
      else case getScheme body of
        Inl e \<Rightarrow> Inl e
      | Inr (scheme, rest) \<Rightarrow>
          (let (hier, query) = Cut (CHR ''?'') rest;
               u = url_empty\<lparr>url_Scheme := ToLower scheme,
                     url_ForceQuery := (query = Some []),
                     url_RawQuery := (case query of None \<Rightarrow> [] | Some q \<Rightarrow> q)\<rparr>
           in parse_hier scheme hier u))"

definition url_error :: "string \<Rightarrow> string \<Rightarrow> string" where
  "url_error u e = ''parse '' @ Quote u @ '': '' @ e"

definition url_Parse :: "string \<Rightarrow> url result" where
  "url_Parse raw =
     (let (body, frag) = Cut (CHR ''#'') raw in
      case parse_url body of
        Inl e \<Rightarrow> Inl (url_error body e)
      | Inr u \<Rightarrow>
          (case frag of
             None \<Rightarrow> Inr u
           | Some f \<Rightarrow> if escapes_ok f then Inr (u\<lparr>url_Fragment := f\<rparr>)
                       else Inl (url_error raw ''invalid URL escape'')))"

section \<open>Escaping\<close>

datatype escape_mode = EncodePath | EncodePathSegment | EncodeHost | EncodeUserPassword | EncodeQueryComponent | EncodeFragment

definition shouldEscape :: "escape_mode \<Rightarrow> char \<Rightarrow> bool" where
  "shouldEscape mode c =
     (if is_alpha c \<or> is_digit c then False
      else if mode = EncodeHost \<and> (byte c = 0x22 \<or> byte c = 0x27 \<or> c \<in> set ''!$&()*+,;=:[]<>'') then False
      else if c \<in> set ''-_.~'' then False
      else if c \<in> set ''$&+,/:;=?@'' then
        (case mode of
           EncodePath \<Rightarrow> c = CHR ''?''
         | EncodePathSegment \<Rightarrow> c \<in> set ''/;,?''
         | EncodeHost \<Rightarrow> True
         | EncodeUserPassword \<Rightarrow> c \<in> set ''@/?:''
         | EncodeQueryComponent \<Rightarrow> True
         | EncodeFragment \<Rightarrow> False)
      else \<not> (mode = EncodeFragment \<and> c \<in> set ''!()*''))"

definition hex_upper :: "nat \<Rightarrow> char" where
  "hex_upper d = (if d < 10 then char_of (48 + d) else char_of (55 + d))"

definition escape_char :: "escape_mode \<Rightarrow> char \<Rightarrow> string" where
  "escape_char mode c =
     (if \<not> shouldEscape mode c then [c]
      else if c = CHR '' '' \<and> mode = EncodeQueryComponent then ''+''
      else [CHR ''%'', hex_upper (byte c div 16), hex_upper (byte c mod 16)])"

definition escape :: "escape_mode \<Rightarrow> string \<Rightarrow> string" where
  "escape mode s = concat (map (escape_char mode) s)"

definition unhex :: "char \<Rightarrow> nat" where
  "unhex c = (if is_digit c then byte c - 48 else if between 0x61 0x66 c then byte c - 87 else byte c - 55)"

text \<open>\<open>unescape\<close> of a string whose escapes are well formed; a plus sign is a space in a query only.\<close>

fun unescape :: "bool \<Rightarrow> string \<Rightarrow> string" where
  "unescape query [] = []"
| "unescape query (c # cs) =
     (if c = CHR ''%''
      then (case cs of a # b # r \<Rightarrow> char_of (unhex a * 16 + unhex b) # unescape query r | _ \<Rightarrow> [c])
      else (if query \<and> c = CHR ''+'' then CHR '' '' else c) # unescape query cs)"

definition validEncoded :: "escape_mode \<Rightarrow> string \<Rightarrow> bool" where
  "validEncoded mode s \<longleftrightarrow> list_all (\<lambda>c. byte c = 0x27 \<or> c \<in> set ''!$&()*+,;=:@[]%'' \<or> \<not> shouldEscape mode c) s"

definition PathEscape :: "string \<Rightarrow> string" where
  "PathEscape s = escape EncodePathSegment s"

text \<open>\<open>EscapedPath\<close> and \<open>EscapedFragment\<close> keep a valid encoding and normalise any other.\<close>

definition escaped_again :: "escape_mode \<Rightarrow> string \<Rightarrow> string" where
  "escaped_again mode raw = (if validEncoded mode raw then raw else escape mode (unescape False raw))"

definition EscapedPath :: "url \<Rightarrow> string" where
  "EscapedPath u = (if url_RawPath u = ''*'' then ''*'' else escaped_again EncodePath (url_RawPath u))"

definition user_String :: "string \<Rightarrow> string" where
  "user_String raw =
     (let enc = \<lambda>s. escape EncodeUserPassword (unescape False s)
      in case Cut (CHR '':'') raw of
           (user, None) \<Rightarrow> enc user
         | (user, Some password) \<Rightarrow> enc user @ '':'' @ enc password)"

definition url_String :: "url \<Rightarrow> string" where
  "url_String u =
     (let scheme = (if url_Scheme u = [] then [] else url_Scheme u @ '':'');
          authority =
            (if (url_Scheme u \<noteq> [] \<or> url_Host u \<noteq> [] \<or> url_User u \<noteq> None)
                \<and> \<not> (url_OmitHost u \<and> url_Host u = [] \<and> url_User u = None)
             then (if url_Host u \<noteq> [] \<or> url_RawPath u \<noteq> [] \<or> url_User u \<noteq> None then ''//'' else []) @
                  (case url_User u of None \<Rightarrow> [] | Some i \<Rightarrow> user_String i @ ''@'') @
                  escape EncodeHost (unescape False (url_Host u))
             else []);
          path = EscapedPath u
      in scheme @
         (if url_Opaque u \<noteq> [] then url_Opaque u
          else authority @
            (if path \<noteq> [] \<and> hd path \<noteq> CHR ''/'' \<and> url_Host u \<noteq> [] then ''/'' else []) @
            (if scheme @ authority = [] \<and> CHR '':'' \<in> set (fst (Cut (CHR ''/'') path)) then ''./'' else []) @ path) @
         (if url_ForceQuery u \<or> url_RawQuery u \<noteq> [] then ''?'' @ url_RawQuery u else []) @
         (if url_Fragment u \<noteq> [] then ''#'' @ escaped_again EncodeFragment (url_Fragment u) else []))"

section \<open>Queries\<close>

text \<open>\<open>url.Values\<close>: the keys in some order, each with its values; \<open>Query\<close> leaves out what does not parse.\<close>

type_synonym url_values = "(string \<times> string list) list"

fun add_value :: "url_values \<Rightarrow> string \<Rightarrow> string \<Rightarrow> url_values" where
  "add_value [] k v = [(k, [v])]"
| "add_value ((k', vs) # m) k v = (if k' = k then (k, vs @ [v]) # m else (k', vs) # add_value m k v)"

definition parse_pair :: "string \<Rightarrow> (string \<times> string) option" where
  "parse_pair p =
     (if p = [] \<or> CHR '';'' \<in> set p then None
      else let (k, v) = Cut (CHR ''='') p; value = (case v of None \<Rightarrow> [] | Some x \<Rightarrow> x)
           in if escapes_ok k \<and> escapes_ok value then Some (unescape True k, unescape True value) else None)"

definition url_Query :: "url \<Rightarrow> url_values" where
  "url_Query u =
     foldl (\<lambda>m p. case parse_pair p of None \<Rightarrow> m | Some (k, v) \<Rightarrow> add_value m k v) [] (Split (CHR ''&'') (url_RawQuery u))"

fun Values_Set :: "url_values \<Rightarrow> string \<Rightarrow> string \<Rightarrow> url_values" where
  "Values_Set [] k v = [(k, [v])]"
| "Values_Set ((k', vs) # m) k v = (if k' = k then (k, [v]) # m else (k', vs) # Values_Set m k v)"

text \<open>\<open>Encode\<close> writes the keys in byte order.\<close>

fun str_le :: "string \<Rightarrow> string \<Rightarrow> bool" where
  "str_le [] _ = True"
| "str_le (_ # _) [] = False"
| "str_le (a # as) (b # bs) = (byte a < byte b \<or> a = b \<and> str_le as bs)"

fun insert_key :: "string \<times> string list \<Rightarrow> url_values \<Rightarrow> url_values" where
  "insert_key e [] = [e]"
| "insert_key e (f # m) = (if str_le (fst e) (fst f) then e # f # m else f # insert_key e m)"

definition Values_Encode :: "url_values \<Rightarrow> string" where
  "Values_Encode m =
     Join (concat (map (\<lambda>(k, vs). map (\<lambda>v. escape EncodeQueryComponent k @ ''='' @ escape EncodeQueryComponent v) vs)
       (foldr insert_key m []))) ''&''"

section \<open>Facts\<close>

lemma Cut_eq: "Cut d s = (a, b) \<Longrightarrow>
  d \<notin> set a \<and> s = a @ (case b of None \<Rightarrow> [] | Some t \<Rightarrow> d # t)"
  by (induction s arbitrary: a b) (auto split: if_splits prod.splits option.splits)

lemma unhex_upper: "d < 16 \<Longrightarrow> unhex (hex_upper d) = d"
  by (auto simp: unhex_def hex_upper_def is_digit_def between_def byte_def)

lemma shouldEscape_percent: "shouldEscape mode (CHR ''%'')"
  by (cases mode; hypsubst; code_simp)

lemma shouldEscape_plus: "shouldEscape EncodeQueryComponent (CHR ''+'')"
  by code_simp

lemma unescape_escape_char:
  "unescape (mode = EncodeQueryComponent) (escape_char mode c @ s) = c # unescape (mode = EncodeQueryComponent) s"
proof (cases "shouldEscape mode c")
  case True
  have "byte c div 16 < 16" using byte_less [of c] by linarith
  moreover have "char_of (byte c div 16 * 16 + byte c mod 16) = c" by (simp add: byte_def)
  ultimately show ?thesis using True unhex_upper [of "byte c div 16"] unhex_upper [of "byte c mod 16"]
    by (simp add: escape_char_def)
next
  case False
  then have "c \<noteq> CHR ''%''" "mode = EncodeQueryComponent \<Longrightarrow> c \<noteq> CHR ''+''"
    using shouldEscape_percent shouldEscape_plus by metis+
  then show ?thesis using False by (simp add: escape_char_def)
qed

lemma unescape_escape: "unescape (mode = EncodeQueryComponent) (escape mode s) = s"
  by (induction s) (simp_all add: escape_def unescape_escape_char)

lemma url_String_Parse_simple:
  "(case url_Parse ''https://api.openai.com/v1'' of Inr u \<Rightarrow> url_String u | Inl e \<Rightarrow> e) = ''https://api.openai.com/v1''"
  "(case url_Parse ''https://u:p%40@h/a b/c?x=1#f'' of Inr u \<Rightarrow> url_String u | Inl e \<Rightarrow> e) = ''https://u:p%40@h/a%20b/c?x=1#f''"
  by code_simp+

end
