(* ===== verification/F64.thy ===== *)
theory F64
  imports Prelude "HOL-Library.Log_Nat"
begin

text \<open>
  Go's \<open>float64\<close>: IEEE 754 binary64 with round-to-nearest-even. A finite value is the rational it
  denotes; every operation computes the exact rational result and rounds it once (\<open>fl\<close>), to 53 bits
  of significand, with gradual underflow at \<open>2^-1074\<close> and overflow to an infinity at \<open>2^1024\<close>.
  Negative zero is identified with zero: the program never divides by a zero and never prints one.
  The conversion of an out-of-range value to an integer, which the language leaves to the
  implementation, is the amd64 one (\<open>-2^63\<close>).

  The lemmas used elsewhere: rounding is monotone (\<open>fl_mono\<close>, \<open>f64_add_mono\<close>), exact on the integers
  up to \<open>2^53\<close> (\<open>f64_of_int_exact\<close>) and idempotent (\<open>rnd_idem\<close>), its relative error is at most \<open>2^-53\<close> (\<open>rnd_error\<close>), and the comparisons form a total
  order on the values other than NaN.
\<close>

section \<open>Rounding to 53 bits\<close>

text \<open>
  \<open>ilog2 x\<close> is the binary exponent of a positive \<open>x\<close>, \<open>qexp x\<close> the exponent of the last place of the
  binary64 values around \<open>x\<close>, \<open>rne\<close> rounds to an integer, ties to even, and \<open>rnd\<close> to binary64
  precision.
\<close>

definition ilog2 :: "rat \<Rightarrow> int" where
  "ilog2 x = (case quotient_of x of (a, b) \<Rightarrow>
     let k = bitlen a - bitlen b in if 2 powi k \<le> x then k else k - 1)"

definition qexp :: "rat \<Rightarrow> int" where
  "qexp x = max (ilog2 \<bar>x\<bar> - 52) (- 1074)"

definition rne :: "rat \<Rightarrow> int" where
  "rne x = (let f = \<lfloor>x\<rfloor>; d = x - of_int f
            in if d < 1 / 2 then f else if 1 / 2 < d then f + 1 else if even f then f else f + 1)"

definition rnd :: "rat \<Rightarrow> rat" where
  "rnd x = (if x = 0 then 0 else of_int (rne (x / 2 powi (qexp x))) * 2 powi (qexp x))"

section \<open>binary64 values\<close>

datatype f64 = Fin rat | PInf | NInf | NaN

text \<open>\<open>fl x\<close> is the binary64 value nearest to the exact result \<open>x\<close>.\<close>

definition fl :: "rat \<Rightarrow> f64" where
  "fl x = (let r = rnd x
     in if r = 0 \<or> ilog2 \<bar>r\<bar> < 1024 then Fin r else if 0 < r then PInf else NInf)"

text \<open>The conversion \<open>float64(n)\<close>.\<close>

definition f64_of_int :: "int \<Rightarrow> f64" where
  "f64_of_int n = fl (of_int n)"

fun f64_neg :: "f64 \<Rightarrow> f64" where
  "f64_neg (Fin x) = Fin (- x)"
| "f64_neg PInf = NInf"
| "f64_neg NInf = PInf"
| "f64_neg NaN = NaN"

fun f64_add :: "f64 \<Rightarrow> f64 \<Rightarrow> f64" where
  "f64_add (Fin x) (Fin y) = fl (x + y)"
| "f64_add NaN _ = NaN"
| "f64_add _ NaN = NaN"
| "f64_add PInf NInf = NaN"
| "f64_add NInf PInf = NaN"
| "f64_add PInf _ = PInf"
| "f64_add _ PInf = PInf"
| "f64_add NInf _ = NInf"
| "f64_add _ NInf = NInf"

definition f64_sub :: "f64 \<Rightarrow> f64 \<Rightarrow> f64" where
  "f64_sub a b = f64_add a (f64_neg b)"

definition f64_inf :: "bool \<Rightarrow> f64" where
  "f64_inf p = (if p then PInf else NInf)"

text \<open>Sign of a value that is not a zero or NaN: \<open>True\<close> for positive.\<close>

fun f64_pos :: "f64 \<Rightarrow> bool" where
  "f64_pos (Fin x) = (0 < x)"
| "f64_pos PInf = True"
| "f64_pos _ = False"

fun f64_mul :: "f64 \<Rightarrow> f64 \<Rightarrow> f64" where
  "f64_mul (Fin x) (Fin y) = fl (x * y)"
| "f64_mul NaN _ = NaN"
| "f64_mul _ NaN = NaN"
| "f64_mul a b = (if a = Fin 0 \<or> b = Fin 0 then NaN else f64_inf (f64_pos a = f64_pos b))"

text \<open>Division; the sign of a zero divisor is not represented, the code never divides by zero.\<close>

fun f64_div :: "f64 \<Rightarrow> f64 \<Rightarrow> f64" where
  "f64_div (Fin x) (Fin y) =
     (if y = 0 then (if x = 0 then NaN else f64_inf (0 < x)) else fl (x / y))"
| "f64_div NaN _ = NaN"
| "f64_div _ NaN = NaN"
| "f64_div (Fin _) _ = Fin 0"
| "f64_div a (Fin y) = f64_inf (f64_pos a = (0 \<le> y))"
| "f64_div _ _ = NaN"

fun f64_le :: "f64 \<Rightarrow> f64 \<Rightarrow> bool" where
  "f64_le (Fin x) (Fin y) = (x \<le> y)"
| "f64_le NaN _ = False"
| "f64_le _ NaN = False"
| "f64_le NInf _ = True"
| "f64_le _ PInf = True"
| "f64_le _ _ = False"

fun f64_lt :: "f64 \<Rightarrow> f64 \<Rightarrow> bool" where
  "f64_lt NaN _ = False"
| "f64_lt _ NaN = False"
| "f64_lt a b = (\<not> f64_le b a)"

abbreviation f64_gt :: "f64 \<Rightarrow> f64 \<Rightarrow> bool" where
  "f64_gt a b \<equiv> f64_lt b a"

abbreviation f64_ge :: "f64 \<Rightarrow> f64 \<Rightarrow> bool" where
  "f64_ge a b \<equiv> f64_le b a"

text \<open>The conversion \<open>int(x)\<close>, which drops the fraction.\<close>

definition trunc_rat :: "rat \<Rightarrow> int" where
  "trunc_rat x = (if 0 \<le> x then \<lfloor>x\<rfloor> else \<lceil>x\<rceil>)"

fun f64_to_int :: "f64 \<Rightarrow> int" where
  "f64_to_int (Fin x) = (if in_int64 (trunc_rat x) then trunc_rat x else - (2 ^ 63))"
| "f64_to_int _ = - (2 ^ 63)"

text \<open>
  The values a \<open>float64\<close> can hold: the finite ones are fixed points of rounding below \<open>2^1024\<close>.
\<close>

fun f64_ok :: "f64 \<Rightarrow> bool" where
  "f64_ok (Fin x) = (rnd x = x \<and> (x = 0 \<or> ilog2 \<bar>x\<bar> < 1024))"
| "f64_ok _ = True"

text \<open>Rounding of a quotient in integer arithmetic, for evaluation.\<close>

definition rne_div :: "int \<Rightarrow> int \<Rightarrow> int" where
  "rne_div n d = (let f = n div d; r = 2 * (n mod d)
     in if r < d then f else if d < r then f + 1 else if even f then f else f + 1)"

text \<open>The overflow threshold, kept folded in proofs.\<close>

definition f64_limit :: rat where
  "f64_limit = 2 powi 1024"

section \<open>Facts on rounding\<close>

lemma powi2_diff: "(2 powi (i - j) :: rat) = 2 powi i / 2 powi j"
  by (simp add: power_int_diff)

lemma bitlen_powi:
  assumes "0 < a"
  shows "2 powi (bitlen a - 1) \<le> (of_int a :: rat)" and "(of_int a :: rat) < 2 powi (bitlen a)"
proof -
  have k: "1 \<le> bitlen a" using assms by (simp add: bitlen_ge_iff_power)
  have "2 ^ nat (bitlen a - 1) \<le> a" and u: "a < 2 ^ nat (bitlen a)"
    using bitlen_bounds [OF assms] by auto
  then have "(of_int (2 ^ nat (bitlen a - 1)) :: rat) \<le> of_int a" by (simp only: of_int_le_iff)
  then show "2 powi (bitlen a - 1) \<le> (of_int a :: rat)"
    using k by (simp add: power_int_def)
  from u have "(of_int a :: rat) < of_int (2 ^ nat (bitlen a))" by (simp only: of_int_less_iff)
  then show "(of_int a :: rat) < 2 powi (bitlen a)"
    using k by (simp add: power_int_def)
qed

lemma ilog2_bounds:
  assumes "0 < x"
  shows "2 powi (ilog2 x) \<le> x" and "x < 2 powi (ilog2 x + 1)"
proof -
  obtain a b where q: "quotient_of x = (a, b)" by (cases "quotient_of x")
  have b: "0 < b" using quotient_of_denom_pos [OF q] .
  have x: "x = of_int a / of_int b" using quotient_of_div [OF q] .
  with assms b have a: "0 < a" by (simp add: zero_less_divide_iff)
  define k where "k = bitlen a - bitlen b"
  have "2 powi (k - 1) < x"
  proof -
    have "k - 1 = (bitlen a - 1) - bitlen b" by (simp add: k_def)
    then have "(2 powi (k - 1) :: rat) = 2 powi (bitlen a - 1) / 2 powi (bitlen b)"
      by (simp only: powi2_diff)
    also have "\<dots> < of_int a / of_int b"
      using bitlen_powi [OF a] bitlen_powi [OF b] a b by (intro frac_less2) auto
    finally show ?thesis using x by simp
  qed
  moreover have "x < 2 powi (k + 1)"
  proof -
    have "of_int a / of_int b < (2 powi (bitlen a) / 2 powi (bitlen b - 1) :: rat)"
      using bitlen_powi [OF a] bitlen_powi [OF b] a b by (intro frac_less) auto
    also have "k + 1 = bitlen a - (bitlen b - 1)" by (simp add: k_def)
    then have "(2 powi (bitlen a) / 2 powi (bitlen b - 1) :: rat) = 2 powi (k + 1)"
      by (simp only: powi2_diff)
    finally show ?thesis using x by simp
  qed
  ultimately show "2 powi (ilog2 x) \<le> x" and "x < 2 powi (ilog2 x + 1)"
    by (auto simp: ilog2_def q k_def [symmetric] Let_def not_le)
qed

lemma powi2_mono: "i \<le> j \<Longrightarrow> (2 powi i :: rat) \<le> 2 powi j"
  by (simp add: power_int_increasing)

lemma powi2_less_iff: "(2 powi i :: rat) < 2 powi j \<longleftrightarrow> i < j"
  by (metis linorder_not_le powi2_mono one_less_numeral_iff power_int_strict_increasing semiring_norm(76))

lemma powi2_pos [simp]: "(0::rat) < 2 powi i"
  by (simp add: zero_less_power_int)

lemma ilog2_unique: "0 < x \<Longrightarrow> 2 powi e \<le> x \<Longrightarrow> x < 2 powi (e + 1) \<Longrightarrow> ilog2 x = e"
proof -
  assume x: "0 < x" "2 powi e \<le> x" "x < 2 powi (e + 1)"
  have "(2 powi (ilog2 x) :: rat) < 2 powi (e + 1)" using ilog2_bounds(1) [OF x(1)] x by simp
  moreover have "(2 powi e :: rat) < 2 powi (ilog2 x + 1)" using ilog2_bounds(2) [OF x(1)] x by simp
  ultimately show "ilog2 x = e" by (simp add: powi2_less_iff)
qed

lemma ilog2_mono: "0 < x \<Longrightarrow> x \<le> y \<Longrightarrow> ilog2 x \<le> ilog2 y"
proof -
  assume x: "0 < x" "x \<le> y"
  have "(2 powi (ilog2 x) :: rat) < 2 powi (ilog2 y + 1)"
    using ilog2_bounds(1) [OF x(1)] ilog2_bounds(2) [of y] x by simp
  then show ?thesis by (simp add: powi2_less_iff)
qed

lemma rne_of_int [simp]: "rne (of_int n) = n"
  by (simp add: rne_def)

lemma rne_mono: "x \<le> y \<Longrightarrow> rne x \<le> rne y"
proof -
  assume xy: "x \<le> y"
  then have f: "\<lfloor>x\<rfloor> \<le> \<lfloor>y\<rfloor>" by (rule floor_mono)
  show ?thesis
  proof (cases "\<lfloor>x\<rfloor> = \<lfloor>y\<rfloor>")
    case True
    then show ?thesis using xy by (auto simp: rne_def Let_def)
  next
    case False
    with f have "\<lfloor>x\<rfloor> + 1 \<le> \<lfloor>y\<rfloor>" by simp
    then show ?thesis by (auto simp: rne_def Let_def)
  qed
qed

lemma rne_neg: "rne (- x) = - rne x"
proof (cases "x = of_int \<lfloor>x\<rfloor>")
  case True
  then show ?thesis by (metis of_int_minus rne_of_int)
next
  case False
  then have "\<lfloor>- x\<rfloor> = - \<lfloor>x\<rfloor> - 1"
    using of_int_floor_le [of x] floor_correct [of x] by (intro floor_unique) (auto simp: less_le)
  then show ?thesis by (auto simp: rne_def Let_def)
qed

lemma rnd_0 [simp]: "rnd 0 = 0"
  by (simp add: rnd_def)

lemma qexp_neg [simp]: "qexp (- x) = qexp x"
  by (simp add: qexp_def)

lemma rnd_neg: "rnd (- x) = - rnd x"
  by (simp add: rnd_def rne_neg)


lemma rne_0 [simp]: "rne 0 = 0"
  using rne_of_int [of 0] by simp

lemma rnd_nonneg: "0 \<le> x \<Longrightarrow> 0 \<le> rnd x"
  using rne_mono [of 0 "x / 2 powi (qexp x)"] by (simp add: rnd_def)

lemma ilog2_le_qexp: "0 < x \<Longrightarrow> ilog2 x \<le> qexp x + 52"
  by (simp add: qexp_def)

lemma rnd_upper: "0 < x \<Longrightarrow> rnd x \<le> 2 powi (qexp x + 53)"
proof -
  assume x: "0 < x"
  have "x < 2 powi (ilog2 x + 1)" using ilog2_bounds(2) [OF x] .
  also have "\<dots> \<le> 2 powi (qexp x + 53)" using ilog2_le_qexp [OF x] by (intro powi2_mono) simp
  also have "\<dots> = of_int (2 ^ 53) * 2 powi (qexp x)" by (simp add: power_int_add)
  finally have "x / 2 powi (qexp x) \<le> of_int (2 ^ 53)" by (simp add: divide_le_eq)
  then have "rne (x / 2 powi (qexp x)) \<le> 2 ^ 53" using rne_mono rne_of_int by metis
  then have "(of_int (rne (x / 2 powi (qexp x))) :: rat) \<le> of_int (2 ^ 53)"
    by (simp only: of_int_le_iff)
  then show ?thesis using x by (simp add: rnd_def power_int_add)
qed

lemma rnd_lower: "0 < x \<Longrightarrow> qexp x = ilog2 x - 52 \<Longrightarrow> 2 powi (ilog2 x) \<le> rnd x"
proof -
  assume x: "0 < x" and q: "qexp x = ilog2 x - 52"
  have p: "(2 powi (ilog2 x) :: rat) = of_int (2 ^ 52) * 2 powi (qexp x)"
    by (simp add: q power_int_diff)
  then have "of_int (2 ^ 52) \<le> x / 2 powi (qexp x)"
    using ilog2_bounds(1) [OF x] by (simp add: le_divide_eq)
  then have "2 ^ 52 \<le> rne (x / 2 powi (qexp x))" using rne_mono rne_of_int by metis
  then have "of_int (2 ^ 52) \<le> (of_int (rne (x / 2 powi (qexp x))) :: rat)"
    by (simp only: of_int_le_iff)
  then show ?thesis using x p by (simp add: rnd_def)
qed

lemma rnd_mono_pos: "0 < x \<Longrightarrow> x \<le> y \<Longrightarrow> rnd x \<le> rnd y"
proof -
  assume x: "0 < x" "x \<le> y"
  then have le: "qexp x \<le> qexp y" using ilog2_mono [OF x] by (auto simp: qexp_def)
  show ?thesis
  proof (cases "qexp x = qexp y")
    case True
    have "rne (x / 2 powi (qexp x)) \<le> rne (y / 2 powi (qexp x))"
      using x by (intro rne_mono divide_right_mono) auto
    then show ?thesis using x True by (simp add: rnd_def)
  next
    case False
    with le have q: "qexp x < qexp y" by simp
    then have qy: "qexp y = ilog2 y - 52" using x by (auto simp: qexp_def)
    have "rnd x \<le> 2 powi (qexp x + 53)" using x by (simp add: rnd_upper)
    also have "\<dots> \<le> 2 powi (ilog2 y)" using q qy by (intro powi2_mono) simp
    also have "\<dots> \<le> rnd y" using x qy by (intro rnd_lower) auto
    finally show ?thesis .
  qed
qed

lemma rnd_mono: "x \<le> y \<Longrightarrow> rnd x \<le> rnd y"
proof -
  assume xy: "x \<le> y"
  consider "0 < x" | "x \<le> 0" "0 \<le> y" | "y < 0" by linarith
  then show ?thesis
  proof cases
    case 1
    with xy show ?thesis by (simp add: rnd_mono_pos)
  next
    case 2
    then show ?thesis using rnd_nonneg [of "- x"] rnd_nonneg [of y] by (simp add: rnd_neg)
  next
    case 3
    with xy have "rnd (- y) \<le> rnd (- x)" by (intro rnd_mono_pos) auto
    then show ?thesis by (simp add: rnd_neg)
  qed
qed

lemma rnd_exact:
  assumes m: "\<bar>m\<bar> < 2 ^ 53" and e: "- 1074 \<le> e" and x: "x = of_int m * 2 powi e"
  shows "rnd x = x"
proof (cases "m = 0")
  case True
  then show ?thesis using x by simp
next
  case False
  with x have pos: "0 < \<bar>x\<bar>" by simp
  have "(2 powi (ilog2 \<bar>x\<bar>) :: rat) \<le> \<bar>x\<bar>" using ilog2_bounds(1) [OF pos] .
  also have "\<bar>x\<bar> = of_int \<bar>m\<bar> * 2 powi e" by (simp add: x abs_mult)
  also have "\<dots> < of_int (2 ^ 53) * 2 powi e"
    using m by (intro mult_strict_right_mono) (simp_all only: of_int_less_iff powi2_pos)
  also have "\<dots> = 2 powi (e + 53)" by (simp add: power_int_add)
  finally have "ilog2 \<bar>x\<bar> \<le> e + 52" by (simp add: powi2_less_iff)
  with e have q: "qexp x \<le> e" by (simp add: qexp_def)
  then have "(2 powi e :: rat) = of_int (2 ^ nat (e - qexp x)) * 2 powi (qexp x)"
    by (metis (no_types) add.commute diff_add_cancel diff_ge_0_iff_ge of_int_numeral of_int_power
        power_int_add power_int_def zero_neq_numeral)
  then have "x = of_int (m * 2 ^ nat (e - qexp x)) * 2 powi (qexp x)"
    by (metis (no_types, lifting) mult.assoc of_int_mult x)
  then have "x / 2 powi (qexp x) = of_int (m * 2 ^ nat (e - qexp x))"
    by (metis nonzero_mult_div_cancel_right order_less_irrefl powi2_pos)
  then have "of_int (rne (x / 2 powi (qexp x))) = x / 2 powi (qexp x)"
    by (simp only: rne_of_int)
  then show ?thesis by (simp add: rnd_def)
qed

lemma rnd_of_int: "\<bar>n\<bar> \<le> 2 ^ 53 \<Longrightarrow> rnd (of_int n) = of_int n"
proof (cases "\<bar>n\<bar> = 2 ^ 53")
  case True
  then have "(of_int n :: rat) = of_int (sgn n) * 2 powi 53"
    by (auto simp: abs_if split: if_splits)
  then show ?thesis by (intro rnd_exact [of "sgn n" 53]) (auto simp: sgn_if)
next
  case False
  assume "\<bar>n\<bar> \<le> 2 ^ 53"
  with False show ?thesis by (intro rnd_exact [of n 0]) auto
qed

lemma rnd_rep: "\<exists>m e. \<bar>m\<bar> < 2 ^ 53 \<and> - 1074 \<le> e \<and> rnd x = of_int m * 2 powi e"
proof (cases "x = 0")
  case True
  then show ?thesis by (intro exI [of _ 0]) auto
next
  case False
  define m where "m = rne (\<bar>x\<bar> / 2 powi (qexp x))"
  have r: "rnd \<bar>x\<bar> = of_int m * 2 powi (qexp x)"
    using False by (simp add: rnd_def m_def qexp_def)
  have q: "- 1074 \<le> qexp x" by (simp add: qexp_def)
  have "rnd \<bar>x\<bar> \<le> of_int (2 ^ 53) * 2 powi (qexp x)"
    using rnd_upper [of "\<bar>x\<bar>"] False by (simp add: power_int_add qexp_def)
  then have le: "m \<le> 2 ^ 53"
    unfolding r by (simp only: mult_le_cancel_right_pos powi2_pos of_int_le_iff)
  have ge: "0 \<le> m" using rne_mono [of 0 "\<bar>x\<bar> / 2 powi (qexp x)"] by (simp add: m_def)
  have "\<exists>m e. \<bar>m\<bar> < 2 ^ 53 \<and> - 1074 \<le> e \<and> rnd \<bar>x\<bar> = of_int m * 2 powi e"
  proof (cases "m = 2 ^ 53")
    case True
    then have "rnd \<bar>x\<bar> = of_int 1 * 2 powi (qexp x + 53)"
      using r by (simp add: power_int_add)
    with q show ?thesis by (intro exI [of _ 1] exI [of _ "qexp x + 53"]) auto
  next
    case False
    with le ge r q show ?thesis by (intro exI [of _ m] exI [of _ "qexp x"]) auto
  qed
  then obtain m e where me: "\<bar>m\<bar> < 2 ^ 53" "- 1074 \<le> e" "rnd \<bar>x\<bar> = of_int m * 2 powi e" by blast
  show ?thesis
  proof (cases "0 < x")
    case True
    with me show ?thesis by auto
  next
    case False
    with me have "rnd x = of_int (- m) * 2 powi e" by (simp add: rnd_neg)
    with me show ?thesis by (intro exI [of _ "- m"] exI [of _ e]) auto
  qed
qed

lemma rnd_idem [simp]: "rnd (rnd x) = rnd x"
  using rnd_rep [of x] rnd_exact by blast


section \<open>Evaluation by integer arithmetic\<close>

lemma powi2_split:
  "(2 powi k :: rat) = (if 0 \<le> k then of_int (2 ^ nat k) else 1 / of_int (2 ^ nat (- k)))"
  by (simp add: power_int_def inverse_eq_divide power_one_over)

lemma ilog2_code [code]:
  "ilog2 x = (case quotient_of x of (a, b) \<Rightarrow>
     let k = bitlen a - bitlen b
     in if (if 0 \<le> k then 2 ^ nat k * b \<le> a else b \<le> a * 2 ^ nat (- k)) then k else k - 1)"
proof -
  obtain a b where q: "quotient_of x = (a, b)" by (cases "quotient_of x")
  have b: "0 < b" using quotient_of_denom_pos [OF q] .
  have x: "x = of_int a / of_int b" using quotient_of_div [OF q] .
  have "2 powi k \<le> x \<longleftrightarrow> (if 0 \<le> k then 2 ^ nat k * b \<le> a else b \<le> a * 2 ^ nat (- k))" for k
  proof (cases "0 \<le> k")
    case True
    have "(of_int (2 ^ nat k) :: rat) \<le> of_int a / of_int b \<longleftrightarrow> of_int (2 ^ nat k * b) \<le> (of_int a :: rat)"
      using b by (simp add: le_divide_eq)
    then show ?thesis using True x by (simp only: powi2_split of_int_le_iff if_True)
  next
    case False
    have "1 / (of_int (2 ^ nat (- k)) :: rat) \<le> of_int a / of_int b \<longleftrightarrow> of_int b \<le> (of_int (a * 2 ^ nat (- k)) :: rat)"
      using b by (simp add: field_simps)
    then show ?thesis using False x by (simp only: powi2_split of_int_le_iff if_False)
  qed
  then show ?thesis by (simp add: ilog2_def q Let_def)
qed

lemma rne_div: "0 < d \<Longrightarrow> rne (of_int n / of_int d) = rne_div n d"
proof -
  assume d: "0 < d"
  have f: "\<lfloor>of_int n / of_int d :: rat\<rfloor> = n div d" by (simp add: floor_divide_of_int_eq)
  have "(of_int (d * (n div d) + n mod d) :: rat) = of_int n" by (simp only: mult_div_mod_eq)
  then have "(of_int n :: rat) = of_int (n div d) * of_int d + of_int (n mod d)"
    by (simp only: of_int_add of_int_mult mult.commute)
  then have "(of_int n / of_int d :: rat) - of_int (n div d) = of_int (n mod d) / of_int d"
    using d by (simp add: add_divide_distrib)
  then show ?thesis
    using d unfolding rne_def rne_div_def Let_def f
    by (simp add: divide_less_eq less_divide_eq)
qed

lemma rnd_code [code]:
  "rnd x = (if x = 0 then 0 else (case quotient_of x of (a, b) \<Rightarrow>
     let q = qexp x in
     if 0 \<le> q then of_int (rne_div a (b * 2 ^ nat q) * 2 ^ nat q)
     else of_int (rne_div (a * 2 ^ nat (- q)) b) / of_int (2 ^ nat (- q))))"
proof -
  obtain a b where q: "quotient_of x = (a, b)" by (cases "quotient_of x")
  have b: "0 < b" using quotient_of_denom_pos [OF q] .
  have x: "x = of_int a / of_int b" using quotient_of_div [OF q] .
  show ?thesis
  proof (cases "0 \<le> qexp x")
    case True
    have "x / 2 powi (qexp x) = of_int a / of_int (b * 2 ^ nat (qexp x))"
      using True by (subst x) (simp add: powi2_split)
    then show ?thesis using True b rne_div [of "b * 2 ^ nat (qexp x)" a] by (simp add: rnd_def q powi2_split Let_def)
  next
    case False
    have "x / 2 powi (qexp x) = of_int (a * 2 ^ nat (- qexp x)) / of_int b"
      using False by (subst x) (simp add: powi2_split)
    then show ?thesis using False b rne_div [of b "a * 2 ^ nat (- qexp x)"] by (simp add: rnd_def q powi2_split Let_def)
  qed
qed

section \<open>Facts on binary64 values\<close>

lemma rnd_pos_iff: "0 < rnd x \<Longrightarrow> 0 < x"
  by (metis not_less rnd_0 rnd_mono)

lemma ilog2_less_iff: "0 < x \<Longrightarrow> ilog2 x < e \<longleftrightarrow> x < 2 powi e"
proof -
  assume x: "0 < x"
  show ?thesis
  proof
    assume "ilog2 x < e"
    then have "(2 powi (ilog2 x + 1) :: rat) \<le> 2 powi e" by (intro powi2_mono) simp
    then show "x < 2 powi e" using ilog2_bounds(2) [OF x] by simp
  next
    assume "x < 2 powi e"
    then have "(2 powi (ilog2 x) :: rat) < 2 powi e" using ilog2_bounds(1) [OF x] by simp
    then show "ilog2 x < e" by (simp add: powi2_less_iff)
  qed
qed

lemma f64_limit_pos: "0 < f64_limit"
  by (simp add: f64_limit_def)

lemma fl_eq:
  "fl x = (if f64_limit \<le> rnd x then PInf else if rnd x \<le> - f64_limit then NInf else Fin (rnd x))"
proof -
  have "ilog2 \<bar>rnd x\<bar> < 1024 \<longleftrightarrow> \<bar>rnd x\<bar> < f64_limit" if "rnd x \<noteq> 0"
    unfolding f64_limit_def using that by (intro ilog2_less_iff) simp
  then show ?thesis using f64_limit_pos by (auto simp: fl_def Let_def)
qed

lemma fl_0 [simp]: "fl 0 = Fin 0"
  by (simp add: fl_def)

lemma fl_not_NaN [simp]: "fl x \<noteq> NaN"
  by (simp add: fl_def Let_def)

lemma fl_mono: "x \<le> y \<Longrightarrow> f64_le (fl x) (fl y)"
  using rnd_mono [of x y] f64_limit_pos by (auto simp: fl_eq)

lemma f64_ok_fl [simp]: "f64_ok (fl x)"
  by (simp add: fl_def Let_def)

lemma f64_of_int_exact: "\<bar>n\<bar> \<le> 2 ^ 53 \<Longrightarrow> f64_of_int n = Fin (of_int n)"
proof -
  assume n: "\<bar>n\<bar> \<le> 2 ^ 53"
  then have r: "rnd (of_int n) = of_int n" by (rule rnd_of_int)
  have "(of_int \<bar>n\<bar> :: rat) \<le> of_int (2 ^ 53)" using n by (simp only: of_int_le_iff)
  also have "\<dots> < 2 powi 54" by (simp add: power_int_def)
  finally have "ilog2 \<bar>of_int n :: rat\<bar> < 1024" if "n \<noteq> 0"
    using that ilog2_less_iff [of "\<bar>of_int n\<bar>" 54] by simp
  then have "n = 0 \<or> ilog2 \<bar>of_int n :: rat\<bar> < 1024" by blast
  then show ?thesis by (simp add: f64_of_int_def fl_def r Let_def)
qed

lemma fl_1 [simp]: "fl 1 = Fin 1"
  using f64_of_int_exact [of 1] by (simp add: f64_of_int_def)

lemma fl_finite: "\<bar>x\<bar> \<le> 2 powi 1000 \<Longrightarrow> fl x = Fin (rnd x)"
proof -
  assume x: "\<bar>x\<bar> \<le> 2 powi 1000"
  have e: "rnd (2 powi 1000) = 2 powi 1000" by (rule rnd_exact [of 1 1000]) auto
  have "rnd x \<le> 2 powi 1000" using rnd_mono [of x "2 powi 1000"] x unfolding e by linarith
  moreover have "- (2 powi 1000) \<le> rnd x"
    using rnd_mono [of "- (2 powi 1000)" x] x unfolding rnd_neg e by linarith
  moreover have "(2 powi 1000 :: rat) < f64_limit" unfolding f64_limit_def by (simp only: powi2_less_iff)
  ultimately show ?thesis by (simp add: fl_eq del: power_int_numeral)
qed

lemma fl_finite_small: "\<bar>x\<bar> \<le> 2 ^ 64 \<Longrightarrow> fl x = Fin (rnd x)"
proof -
  assume "\<bar>x\<bar> \<le> 2 ^ 64"
  also have "(2 ^ 64 :: rat) = 2 powi 64" by simp
  also have "\<dots> \<le> 2 powi 1000" by (rule powi2_mono) simp
  finally show ?thesis by (rule fl_finite)
qed

lemma f64_ok_add [simp]: "f64_ok (f64_add a b)"
  by (cases a; cases b) auto

lemma f64_ok_of_int [simp]: "f64_ok (f64_of_int n)"
  by (simp add: f64_of_int_def)

lemma fl_ok: "f64_ok (Fin x) \<Longrightarrow> fl x = Fin x"
  by (auto simp: fl_def Let_def)

lemma f64_le_refl [simp]: "f64_le a a \<longleftrightarrow> a \<noteq> NaN"
  by (cases a) auto

lemma f64_le_trans [trans]: "f64_le a b \<Longrightarrow> f64_le b c \<Longrightarrow> f64_le a c"
  by (cases a; cases b; cases c) auto

lemma f64_le_NaN [simp]: "f64_le a NaN = False" "f64_le NaN a = False"
  by (cases a; simp)+

lemma f64_le_inf [simp]: "f64_le a PInf \<longleftrightarrow> a \<noteq> NaN" "f64_le NInf a \<longleftrightarrow> a \<noteq> NaN"
  by (cases a; simp)+

lemma f64_lt_iff: "f64_lt a b \<longleftrightarrow> a \<noteq> NaN \<and> b \<noteq> NaN \<and> \<not> f64_le b a"
  by (cases a; cases b) auto

lemma f64_le_total: "a \<noteq> NaN \<Longrightarrow> b \<noteq> NaN \<Longrightarrow> f64_le a b \<or> f64_le b a"
  by (cases a; cases b) auto

lemma f64_le_antisym: "f64_le a b \<Longrightarrow> f64_le b a \<Longrightarrow> a = b"
  by (cases a; cases b) auto

lemma f64_add_mono:
  assumes "f64_le a b" and "f64_add a c \<noteq> NaN" and "f64_add b c \<noteq> NaN"
  shows "f64_le (f64_add a c) (f64_add b c)"
  using assms by (cases a; cases b; cases c) (auto intro: fl_mono)

lemma f64_add_commute: "f64_add a b = f64_add b a"
  by (cases a; cases b) (auto simp: add.commute)

lemma f64_add_mono_right:
  assumes "f64_le a b" and "f64_add c a \<noteq> NaN" and "f64_add c b \<noteq> NaN"
  shows "f64_le (f64_add c a) (f64_add c b)"
  using f64_add_mono [of a b c] assms by (simp add: f64_add_commute)

lemma f64_mul_mono_left:
  assumes "f64_le a b" and "f64_le (Fin 0) c" and "f64_mul a c \<noteq> NaN" and "f64_mul b c \<noteq> NaN"
  shows "f64_le (f64_mul a c) (f64_mul b c)"
  using assms
  by (cases a; cases b; cases c)
    (auto intro: fl_mono simp: f64_inf_def mult_right_mono split: if_splits)

lemma f64_div_mono:
  assumes "f64_le a b" and "0 < y"
  shows "f64_le (f64_div a (Fin y)) (f64_div b (Fin y))"
  using assms
  by (cases a; cases b) (auto intro!: fl_mono simp: f64_inf_def divide_right_mono)

lemma f64_add_nonneg:
  "f64_le (Fin 0) a \<Longrightarrow> f64_le (Fin 0) b \<Longrightarrow> f64_le (Fin 0) (f64_add a b)"
  using fl_mono [of 0] by (cases a; cases b) auto

lemma f64_add_ge:
  "f64_le (Fin a) x \<Longrightarrow> f64_le (Fin b) y \<Longrightarrow> f64_le (fl (a + b)) (f64_add x y)"
  by (cases x; cases y) (auto intro!: fl_mono add_mono)

lemma f64_mul_ge_1: "f64_le (Fin 1) x \<Longrightarrow> f64_le (Fin 1) y \<Longrightarrow> f64_le (Fin 1) (f64_mul x y)"
proof -
  assume xy: "f64_le (Fin 1) x" "f64_le (Fin 1) y"
  have "1 \<le> a \<Longrightarrow> 1 \<le> b \<Longrightarrow> f64_le (Fin 1) (fl (a * b))" for a b
    using fl_mono [of 1 "a * b"] mult_mono [of 1 a 1 b] by simp
  with xy show ?thesis by (cases x; cases y) (auto simp: f64_inf_def)
qed

lemma f64_mul_nonneg:
  "f64_le (Fin 0) a \<Longrightarrow> f64_le (Fin 0) b \<Longrightarrow> f64_mul a b \<noteq> NaN \<Longrightarrow> f64_le (Fin 0) (f64_mul a b)"
  using fl_mono [of 0] by (cases a; cases b) (auto simp: f64_inf_def split: if_splits)

lemma f64_of_int_mono: "m \<le> n \<Longrightarrow> f64_le (f64_of_int m) (f64_of_int n)"
  by (simp add: f64_of_int_def fl_mono)

lemma f64_of_int_nonneg: "0 \<le> n \<Longrightarrow> f64_le (Fin 0) (f64_of_int n)"
  using f64_of_int_mono [of 0 n] by (simp add: f64_of_int_def)

lemma f64_of_int_not_NaN [simp]: "f64_of_int n \<noteq> NaN"
  by (simp add: f64_of_int_def)

section \<open>The error of a rounding\<close>

lemma rne_error: "\<bar>of_int (rne x) - x\<bar> \<le> 1 / 2"
proof -
  have "of_int \<lfloor>x\<rfloor> \<le> x" "x < of_int \<lfloor>x\<rfloor> + 1" by linarith+
  then show ?thesis by (auto simp: rne_def Let_def abs_le_iff)
qed

text \<open>The relative error of a rounding, in the range of normal values.\<close>

lemma rnd_error:
  assumes "2 powi (- 1000) \<le> x"
  shows "x * (1 - 1 / 2 ^ 53) \<le> rnd x" and "rnd x \<le> x * (1 + 1 / 2 ^ 53)"
proof -
  have x: "0 < x" using assms powi2_pos [of "- 1000"] by linarith
  have "- 1000 \<le> ilog2 x" using ilog2_mono [of "2 powi (- 1000)" x] assms ilog2_unique [of "2 powi (- 1000)" "- 1000"] powi2_less_iff by simp
  then have q: "qexp x = ilog2 x - 52" using x by (simp add: qexp_def)
  define u :: rat where "u = 2 powi (qexp x)"
  have u: "0 < u" by (simp add: u_def)
  have "2 powi (ilog2 x) \<le> x" using ilog2_bounds [OF x] by blast
  moreover have "2 powi (ilog2 x) = u * 2 ^ 52" unfolding u_def q powi2_diff by simp
  ultimately have ux: "u * 2 ^ 52 \<le> x" by simp
  have "\<bar>of_int (rne (x / u)) - x / u\<bar> \<le> 1 / 2" by (rule rne_error)
  then have "\<bar>of_int (rne (x / u)) - x / u\<bar> * u \<le> 1 / 2 * u" using u by (intro mult_right_mono) auto
  moreover have "\<bar>of_int (rne (x / u)) - x / u\<bar> * u = \<bar>rnd x - x\<bar>"
    using u x by (simp add: abs_mult_pos rnd_def u_def [symmetric] left_diff_distrib)
  ultimately have "\<bar>rnd x - x\<bar> * 2 ^ 53 \<le> x" using ux by simp
  then show "x * (1 - 1 / 2 ^ 53) \<le> rnd x" "rnd x \<le> x * (1 + 1 / 2 ^ 53)"
    by (simp_all add: field_simps abs_if split: if_splits)
qed
end
