(* ===== verification/Config.thy ===== *)
theory Config
  imports GoUrl F64
begin

text \<open>
  Package \<open>internal/config\<close>: the configuration records (\<open>types.go\<close>), the built-in defaults
  (\<open>defaults.go\<close>), the environment overrides (\<open>env.go\<close>) and \<open>Validate\<close> (\<open>config.go\<close>).
  The process environment is a function from variable names to values, an unset variable being the
  empty string as \<open>os.Getenv\<close> has it. The YAML decoder and the file system are third-party and
  operating-system code: \<open>Load\<close> takes what they return as an argument.

  The lemmas say what a configuration accepted by \<open>Validate\<close> guarantees to the other components.
\<close>

section \<open>Types (types.go)\<close>

datatype ProviderType =
    ProviderOpenAICompatible | ProviderOpenAI | ProviderAnthropic | ProviderGoogle
  | ProviderOther string

record ServerConfig =
  sc_ListenAddr :: string
  sc_ReadTimeout :: duration
  sc_WriteTimeout :: duration
  sc_ShutdownTimeout :: duration
  sc_LogLevel :: string

record OIDCConfig =
  oc_Enabled :: bool
  oc_IssuerURL :: string
  oc_ClientID :: string
  oc_TenantClaim :: string
  oc_AdminGroupClaim :: string
  oc_AdminGroups :: "string list"

record AuthConfig =
  ac_Enabled :: bool
  ac_ProxyAPIKeys :: "string list"
  ac_AdminAPIKeys :: "string list"
  ac_OIDC :: OIDCConfig

record RateLimitConfig =
  rc_Enabled :: bool
  rc_RequestsPerMinute :: int
  rc_Burst :: int

record TenantConfig =
  tc_ID :: string
  tc_ProxyAPIKeys :: "string list"
  tc_DailyBudgetUSD :: f64
  tc_PerRequestBudgetUSD :: f64
  tc_RateLimit :: RateLimitConfig

record ProviderConfig =
  pc_Name :: string
  pc_Type :: ProviderType
  pc_BaseURL :: string
  pc_APIKeys :: "string list"
  pc_Models :: "string list"

record SecurityConfig =
  sec_PromptInjectionMode :: string
  sec_PIIMode :: string
  sec_ExtraPIIPatterns :: "string list"

record CostConfig =
  cc_DailyBudgetUSD :: f64
  cc_PerRequestBudgetUSD :: f64

record PricingConfig =
  prc_URL :: string
  prc_RefreshInterval :: duration

record AuditConfig =
  auc_SQLiteDSN :: string

record ReliabilityConfig =
  rel_MaxRetries :: int
  rel_ProviderTimeout :: duration

record Config =
  cfg_Server :: ServerConfig
  cfg_Auth :: AuthConfig
  cfg_Tenants :: "TenantConfig list"
  cfg_Providers :: "ProviderConfig list"
  cfg_Security :: SecurityConfig
  cfg_Cost :: CostConfig
  cfg_RateLimit :: RateLimitConfig
  cfg_Pricing :: PricingConfig
  cfg_Audit :: AuditConfig
  cfg_Reliability :: ReliabilityConfig

section \<open>Defaults (defaults.go)\<close>

definition time_Second :: duration where
  "time_Second = 1000000000"

definition time_Minute :: duration where
  "time_Minute = 60 * time_Second"

definition time_Hour :: duration where
  "time_Hour = 60 * time_Minute"

definition Default :: Config where
  "Default = \<lparr>
     cfg_Server = \<lparr>sc_ListenAddr = '':8080'', sc_ReadTimeout = 15 * time_Second, sc_WriteTimeout = 0,
       sc_ShutdownTimeout = 20 * time_Second, sc_LogLevel = ''info''\<rparr>,
     cfg_Auth = \<lparr>ac_Enabled = True, ac_ProxyAPIKeys = [], ac_AdminAPIKeys = [],
       ac_OIDC = \<lparr>oc_Enabled = False, oc_IssuerURL = [], oc_ClientID = [], oc_TenantClaim = ''tenant'',
         oc_AdminGroupClaim = ''groups'', oc_AdminGroups = []\<rparr>\<rparr>,
     cfg_Tenants = [],
     cfg_Providers = [\<lparr>pc_Name = ''openai'', pc_Type = ProviderOpenAI,
       pc_BaseURL = ''https://api.openai.com/v1'', pc_APIKeys = [],
       pc_Models = [''gpt-4o'', ''gpt-4o-mini'', ''gpt-4.1'', ''gpt-4.1-mini'']\<rparr>],
     cfg_Security = \<lparr>sec_PromptInjectionMode = ''warn'', sec_PIIMode = ''redact'',
       sec_ExtraPIIPatterns = []\<rparr>,
     cfg_Cost = \<lparr>cc_DailyBudgetUSD = Fin 10, cc_PerRequestBudgetUSD = Fin 1\<rparr>,
     cfg_RateLimit = \<lparr>rc_Enabled = True, rc_RequestsPerMinute = 60, rc_Burst = 10\<rparr>,
     cfg_Pricing = \<lparr>prc_URL = [], prc_RefreshInterval = 24 * time_Hour\<rparr>,
     cfg_Audit = \<lparr>auc_SQLiteDSN = ''file:guardrail-audit.db?_pragma=busy_timeout(5000)''\<rparr>,
     cfg_Reliability = \<lparr>rel_MaxRetries = 1, rel_ProviderTimeout = 60 * time_Second\<rparr>\<rparr>"

section \<open>Environment overrides (env.go)\<close>

text \<open>Trimmed, non-empty strings in order; \<open>internal/authn\<close> has its own copy of the function.\<close>

fun nonEmptyStrings :: "string list \<Rightarrow> string list" where
  "nonEmptyStrings [] = []"
| "nonEmptyStrings (v # vs) =
     (let value = TrimSpace v
      in if value \<noteq> [] then value # nonEmptyStrings vs else nonEmptyStrings vs)"

fun append_keys :: "string list \<Rightarrow> string list \<Rightarrow> string list" where
  "append_keys dst [] = dst"
| "append_keys dst (key # keys) =
     (let key = TrimSpace key in append_keys (if key \<noteq> [] then dst @ [key] else dst) keys)"

definition appendEnvKeys :: "string list \<Rightarrow> string \<Rightarrow> string list" where
  "appendEnvKeys dst raw = (if raw = [] then dst else append_keys dst (Split (CHR '','') raw))"

text \<open>The first provider of that name without keys gets the key.\<close>

fun set_provider_key :: "ProviderConfig list \<Rightarrow> string \<Rightarrow> string \<Rightarrow> ProviderConfig list" where
  "set_provider_key [] name key = []"
| "set_provider_key (p # ps) name key =
     (if pc_Name p = name \<and> length (pc_APIKeys p) = 0 then p\<lparr>pc_APIKeys := [key]\<rparr> # ps
      else p # set_provider_key ps name key)"

definition applyProviderKey :: "Config \<Rightarrow> string \<Rightarrow> string \<Rightarrow> Config" where
  "applyProviderKey cfg name key =
     (if key = [] then cfg else cfg\<lparr>cfg_Providers := set_provider_key (cfg_Providers cfg) name key\<rparr>)"

definition applyEnv :: "(string \<Rightarrow> string) \<Rightarrow> Config \<Rightarrow> Config" where
  "applyEnv getenv cfg0 =
     (let listen = getenv ''GUARDRAIL_LISTEN_ADDR'';
          cfg = (if listen \<noteq> [] then cfg0\<lparr>cfg_Server := (cfg_Server cfg0)\<lparr>sc_ListenAddr := listen\<rparr>\<rparr> else cfg0);
          dsn = getenv ''GUARDRAIL_AUDIT_SQLITE_DSN'';
          cfg = (if dsn \<noteq> [] then cfg\<lparr>cfg_Audit := (cfg_Audit cfg)\<lparr>auc_SQLiteDSN := dsn\<rparr>\<rparr> else cfg);
          auth = cfg_Auth cfg;
          proxy = appendEnvKeys (ac_ProxyAPIKeys auth) (getenv ''GUARDRAIL_PROXY_API_KEY'');
          proxy = appendEnvKeys proxy (getenv ''GUARDRAIL_PROXY_API_KEYS'');
          admin = appendEnvKeys (ac_AdminAPIKeys auth) (getenv ''GUARDRAIL_ADMIN_API_KEY'');
          admin = appendEnvKeys admin (getenv ''GUARDRAIL_ADMIN_API_KEYS'');
          oidc = ac_OIDC auth;
          issuer = getenv ''GUARDRAIL_OIDC_ISSUER_URL'';
          oidc = (if issuer \<noteq> [] then oidc\<lparr>oc_Enabled := True, oc_IssuerURL := issuer\<rparr> else oidc);
          clientID = getenv ''GUARDRAIL_OIDC_CLIENT_ID'';
          oidc = (if clientID \<noteq> [] then oidc\<lparr>oc_Enabled := True, oc_ClientID := clientID\<rparr> else oidc);
          claim = getenv ''GUARDRAIL_OIDC_TENANT_CLAIM'';
          oidc = (if claim \<noteq> [] then oidc\<lparr>oc_TenantClaim := claim\<rparr> else oidc);
          cfg = cfg\<lparr>cfg_Auth := auth\<lparr>ac_ProxyAPIKeys := proxy, ac_AdminAPIKeys := admin, ac_OIDC := oidc\<rparr>\<rparr>;
          cfg = applyProviderKey cfg ''openai'' (getenv ''OPENAI_API_KEY'');
          cfg = applyProviderKey cfg ''anthropic'' (getenv ''ANTHROPIC_API_KEY'')
      in applyProviderKey cfg ''google'' (getenv ''GEMINI_API_KEY''))"

section \<open>Validation (config.go)\<close>

definition validateRateLimit :: "RateLimitConfig \<Rightarrow> string \<Rightarrow> unit result" where
  "validateRateLimit rate path =
     (if \<not> rc_Enabled rate \<and> rc_RequestsPerMinute rate = 0 \<and> rc_Burst rate = 0 then Inr ()
      else if rc_RequestsPerMinute rate < 0 \<or> rc_Burst rate < 0
      then Inl (''config: '' @ path @ '' values must not be negative'')
      else if rc_Enabled rate \<and> rc_RequestsPerMinute rate = 0
      then Inl (''config: '' @ path @ ''.requests_per_minute is required when enabled'')
      else if rc_Enabled rate \<and> rc_Burst rate = 0
      then Inl (''config: '' @ path @ ''.burst is required when enabled'')
      else Inr ())"

fun validate_tenants_from :: "string set \<Rightarrow> TenantConfig list \<Rightarrow> unit result" where
  "validate_tenants_from seen [] = Inr ()"
| "validate_tenants_from seen (tenant # tenants) =
     (let id = TrimSpace (tc_ID tenant) in
      if id = [] then Inl ''config: tenant.id is required''
      else if id \<in> seen then Inl (''config: duplicate tenant id '' @ Quote id)
      else case validateRateLimit (tc_RateLimit tenant) (''tenant '' @ id @ '' rate_limit'') of
             Inl e \<Rightarrow> Inl e
           | Inr _ \<Rightarrow> validate_tenants_from (insert id seen) tenants)"

definition validateTenants :: "TenantConfig list \<Rightarrow> unit result" where
  "validateTenants tenants = validate_tenants_from {} tenants"

fun hasTenantProxyKeys :: "TenantConfig list \<Rightarrow> bool" where
  "hasTenantProxyKeys [] = False"
| "hasTenantProxyKeys (t # ts) =
     (if 0 < length (nonEmptyStrings (tc_ProxyAPIKeys t)) then True else hasTenantProxyKeys ts)"

definition validateAuth :: "AuthConfig \<Rightarrow> TenantConfig list \<Rightarrow> unit result" where
  "validateAuth auth tenants =
     (if \<not> ac_Enabled auth then Inr ()
      else if length (nonEmptyStrings (ac_AdminAPIKeys auth)) = 0
      then Inl ''config: auth.admin_api_keys is required when auth.enabled is true''
      else if oc_Enabled (ac_OIDC auth) \<and> TrimSpace (oc_IssuerURL (ac_OIDC auth)) = []
      then Inl ''config: auth.oidc.issuer_url is required when auth.oidc.enabled is true''
      else if oc_Enabled (ac_OIDC auth) \<and> TrimSpace (oc_ClientID (ac_OIDC auth)) = []
      then Inl ''config: auth.oidc.client_id is required when auth.oidc.enabled is true''
      else if length (nonEmptyStrings (ac_ProxyAPIKeys auth)) = 0 \<and> \<not> hasTenantProxyKeys tenants
              \<and> \<not> oc_Enabled (ac_OIDC auth)
      then Inl ''config: auth.proxy_api_keys or auth.oidc is required when auth.enabled is true''
      else Inr ())"

definition validateProvider :: "ProviderConfig \<Rightarrow> unit result" where
  "validateProvider p =
     (if TrimSpace (pc_Name p) = [] then Inl ''config: provider.name is required''
      else case pc_Type p of
        ProviderOther t \<Rightarrow> Inl (''config: provider '' @ pc_Name p @ '' has unsupported type '' @ Quote t)
      | _ \<Rightarrow>
          (case url_Parse (pc_BaseURL p) of
             Inl e \<Rightarrow> Inl (''config: provider '' @ pc_Name p @ '' base_url: '' @ e)
           | Inr parsed \<Rightarrow>
               if url_Scheme parsed = [] \<or> url_Host parsed = []
               then Inl (''config: provider '' @ pc_Name p @ '' base_url must be absolute'')
               else Inr ()))"

fun validate_providers :: "ProviderConfig list \<Rightarrow> unit result" where
  "validate_providers [] = Inr ()"
| "validate_providers (p # ps) =
     (case validateProvider p of Inl e \<Rightarrow> Inl e | Inr _ \<Rightarrow> validate_providers ps)"

definition Validate :: "Config \<Rightarrow> unit result" where
  "Validate c =
     (if TrimSpace (sc_ListenAddr (cfg_Server c)) = []
      then Inl ''config: server.listen_addr is required''
      else if length (cfg_Providers c) = 0
      then Inl ''config: at least one provider is required''
      else case validateTenants (cfg_Tenants c) of Inl e \<Rightarrow> Inl e | Inr _ \<Rightarrow>
        case validateAuth (cfg_Auth c) (cfg_Tenants c) of Inl e \<Rightarrow> Inl e | Inr _ \<Rightarrow>
        case validateRateLimit (cfg_RateLimit c) ''rate_limit'' of Inl e \<Rightarrow> Inl e | Inr _ \<Rightarrow>
        if prc_RefreshInterval (cfg_Pricing c) < 0
        then Inl ''config: pricing.refresh_interval must not be negative''
        else case validate_providers (cfg_Providers c) of Inl e \<Rightarrow> Inl e | Inr _ \<Rightarrow>
        if auc_SQLiteDSN (cfg_Audit c) = [] then Inl ''config: audit.sqlite_dsn is required''
        else if rel_ProviderTimeout (cfg_Reliability c) \<le> 0
        then Inl ''config: reliability.provider_timeout must be positive''
        else Inr ())"

text \<open>
  \<open>Load\<close>: \<open>ReadFile\<close> is \<open>Inl (Some e)\<close> for an error other than a missing file, \<open>Inl None\<close> for a
  missing one; \<open>decode\<close> is the YAML decoder run over the defaults.
\<close>

definition Load ::
  "(string \<Rightarrow> string) \<Rightarrow> (string \<Rightarrow> string option + string) \<Rightarrow> (string \<Rightarrow> Config \<Rightarrow> Config result) \<Rightarrow>
   string \<Rightarrow> Config result" where
  "Load getenv ReadFile decode path =
     (let configPath = (if path = [] then getenv ''GUARDRAIL_CONFIG'' else path);
          configPath = (if configPath = [] then ''configs/guardrail.yaml'' else configPath);
          loaded =
            (case ReadFile configPath of
               Inr raw \<Rightarrow>
                 (case decode raw Default of
                    Inl e \<Rightarrow> Inl (''decode '' @ configPath @ '': '' @ e) | Inr cfg \<Rightarrow> Inr cfg)
             | Inl None \<Rightarrow> Inr Default
             | Inl (Some e) \<Rightarrow> Inl (''read '' @ configPath @ '': '' @ e))
      in case loaded of
           Inl e \<Rightarrow> Inl e
         | Inr cfg \<Rightarrow>
             (let cfg = applyEnv getenv cfg
              in case Validate cfg of Inl e \<Rightarrow> Inl e | Inr _ \<Rightarrow> Inr cfg))"

section \<open>Specification of a valid configuration\<close>

text \<open>What \<open>Validate\<close> is to accept, clause by clause, without an order of checks.\<close>

definition rate_limit_ok :: "RateLimitConfig \<Rightarrow> bool" where
  "rate_limit_ok r \<longleftrightarrow> 0 \<le> rc_RequestsPerMinute r \<and> 0 \<le> rc_Burst r
     \<and> (rc_Enabled r \<longrightarrow> 0 < rc_RequestsPerMinute r \<and> 0 < rc_Burst r)"

definition tenants_ok :: "TenantConfig list \<Rightarrow> bool" where
  "tenants_ok ts \<longleftrightarrow> distinct (map (\<lambda>t. TrimSpace (tc_ID t)) ts)
     \<and> list_all (\<lambda>t. TrimSpace (tc_ID t) \<noteq> [] \<and> rate_limit_ok (tc_RateLimit t)) ts"

definition has_key :: "string list \<Rightarrow> bool" where
  "has_key ks \<longleftrightarrow> list_ex (\<lambda>k. TrimSpace k \<noteq> []) ks"

definition auth_ok :: "AuthConfig \<Rightarrow> TenantConfig list \<Rightarrow> bool" where
  "auth_ok a ts \<longleftrightarrow> (ac_Enabled a \<longrightarrow>
     has_key (ac_AdminAPIKeys a)
     \<and> (oc_Enabled (ac_OIDC a) \<longrightarrow>
          TrimSpace (oc_IssuerURL (ac_OIDC a)) \<noteq> [] \<and> TrimSpace (oc_ClientID (ac_OIDC a)) \<noteq> [])
     \<and> (has_key (ac_ProxyAPIKeys a) \<or> list_ex (\<lambda>t. has_key (tc_ProxyAPIKeys t)) ts
          \<or> oc_Enabled (ac_OIDC a)))"

definition absolute_url :: "string \<Rightarrow> bool" where
  "absolute_url s =
     (case url_Parse s of Inl _ \<Rightarrow> False | Inr u \<Rightarrow> url_Scheme u \<noteq> [] \<and> url_Host u \<noteq> [])"

fun known_provider :: "ProviderType \<Rightarrow> bool" where
  "known_provider (ProviderOther _) = False"
| "known_provider _ = True"

definition provider_ok :: "ProviderConfig \<Rightarrow> bool" where
  "provider_ok p \<longleftrightarrow> TrimSpace (pc_Name p) \<noteq> [] \<and> known_provider (pc_Type p) \<and> absolute_url (pc_BaseURL p)"

definition config_ok :: "Config \<Rightarrow> bool" where
  "config_ok c \<longleftrightarrow>
     TrimSpace (sc_ListenAddr (cfg_Server c)) \<noteq> []
     \<and> cfg_Providers c \<noteq> [] \<and> list_all provider_ok (cfg_Providers c)
     \<and> tenants_ok (cfg_Tenants c) \<and> auth_ok (cfg_Auth c) (cfg_Tenants c)
     \<and> rate_limit_ok (cfg_RateLimit c)
     \<and> 0 \<le> prc_RefreshInterval (cfg_Pricing c)
     \<and> auc_SQLiteDSN (cfg_Audit c) \<noteq> [] \<and> 0 < rel_ProviderTimeout (cfg_Reliability c)"

section \<open>Facts\<close>

lemma Inr_unit_cases: "(case r of Inl e \<Rightarrow> Inl e | Inr (_::unit) \<Rightarrow> k) = Inr () \<longleftrightarrow> r = Inr () \<and> k = Inr ()"
  by (cases r) auto

lemma nonEmptyStrings_eq: "nonEmptyStrings vs = filter (\<lambda>v. v \<noteq> []) (map TrimSpace vs)"
  by (induction vs) (auto simp: Let_def)

lemma nonEmptyStrings_has_key: "nonEmptyStrings ks = [] \<longleftrightarrow> \<not> has_key ks"
  by (induction ks) (auto simp: has_key_def Let_def)

lemma nonEmptyStrings_idem [simp]: "nonEmptyStrings (nonEmptyStrings vs) = nonEmptyStrings vs"
  by (induction vs) (auto simp: Let_def)

lemma append_keys_eq: "append_keys dst keys = dst @ nonEmptyStrings keys"
  by (induction keys arbitrary: dst) (auto simp: Let_def)

lemma validateRateLimit_iff: "validateRateLimit r path = Inr () \<longleftrightarrow> rate_limit_ok r"
  by (auto simp: validateRateLimit_def rate_limit_ok_def)

lemma validate_tenants_from_iff:
  "validate_tenants_from seen ts = Inr () \<longleftrightarrow>
     tenants_ok ts \<and> seen \<inter> set (map (\<lambda>t. TrimSpace (tc_ID t)) ts) = {}"
proof (induction ts arbitrary: seen)
  case Nil
  then show ?case by (simp add: tenants_ok_def)
next
  case (Cons t ts)
  have "validate_tenants_from seen (t # ts) = Inr () \<longleftrightarrow>
      TrimSpace (tc_ID t) \<noteq> [] \<and> TrimSpace (tc_ID t) \<notin> seen \<and> rate_limit_ok (tc_RateLimit t)
      \<and> validate_tenants_from (insert (TrimSpace (tc_ID t)) seen) ts = Inr ()"
    by (simp add: Let_def Inr_unit_cases validateRateLimit_iff)
  then show ?case unfolding Cons.IH by (auto simp: tenants_ok_def)
qed

lemma validateTenants_iff: "validateTenants ts = Inr () \<longleftrightarrow> tenants_ok ts"
  by (simp add: validateTenants_def validate_tenants_from_iff)

lemma hasTenantProxyKeys_iff: "hasTenantProxyKeys ts \<longleftrightarrow> list_ex (\<lambda>t. has_key (tc_ProxyAPIKeys t)) ts"
  by (induction ts) (auto simp: nonEmptyStrings_has_key)

lemma validateAuth_iff: "validateAuth a ts = Inr () \<longleftrightarrow> auth_ok a ts"
  by (auto simp: validateAuth_def auth_ok_def nonEmptyStrings_has_key hasTenantProxyKeys_iff)

lemma validateProvider_iff: "validateProvider p = Inr () \<longleftrightarrow> provider_ok p"
  by (auto simp: validateProvider_def provider_ok_def absolute_url_def
      split: ProviderType.splits sum.splits)

lemma validate_providers_iff: "validate_providers ps = Inr () \<longleftrightarrow> list_all provider_ok ps"
  by (induction ps) (auto simp: validateProvider_iff [symmetric] split: sum.splits)

lemmas validate_iffs =
  validateTenants_iff validateAuth_iff validateRateLimit_iff validate_providers_iff

lemma Validate_iff: "Validate c = Inr () \<longleftrightarrow> config_ok c"
  unfolding Validate_def config_ok_def
  by (simp add: Inr_unit_cases validate_iffs) (auto simp: not_less not_le)

section \<open>Facts on the environment overrides\<close>

lemma appendEnvKeys_eq: "appendEnvKeys dst raw = dst @ nonEmptyStrings (Split (CHR '','') raw)"
  by (simp add: appendEnvKeys_def append_keys_eq Let_def)

text \<open>Two provider lists that differ at most in keys of providers that had none.\<close>

definition keys_filled :: "ProviderConfig \<Rightarrow> ProviderConfig \<Rightarrow> bool" where
  "keys_filled p q \<longleftrightarrow> q\<lparr>pc_APIKeys := []\<rparr> = p\<lparr>pc_APIKeys := []\<rparr> \<and> (pc_APIKeys p \<noteq> [] \<longrightarrow> q = p)"

lemma keys_filled_refl [simp]: "keys_filled p p"
  by (simp add: keys_filled_def)

lemma keys_filled_trans: "keys_filled p q \<Longrightarrow> keys_filled q r \<Longrightarrow> keys_filled p r"
  by (auto simp: keys_filled_def)

lemma set_provider_key_filled: "list_all2 keys_filled ps (set_provider_key ps name key)"
  by (induction ps) (auto simp: keys_filled_def list.rel_refl)

lemma applyProviderKey_filled:
  "list_all2 keys_filled ps (cfg_Providers cfg) \<Longrightarrow>
   list_all2 keys_filled ps (cfg_Providers (applyProviderKey cfg name key))"
  by (auto simp: applyProviderKey_def
      intro: list_all2_trans [OF keys_filled_trans _ set_provider_key_filled])

lemma applyProviderKey_frame [simp]:
  "cfg_Auth (applyProviderKey c n k) = cfg_Auth c"
  "cfg_Tenants (applyProviderKey c n k) = cfg_Tenants c"
  "cfg_Security (applyProviderKey c n k) = cfg_Security c"
  "cfg_Cost (applyProviderKey c n k) = cfg_Cost c"
  "cfg_RateLimit (applyProviderKey c n k) = cfg_RateLimit c"
  "cfg_Pricing (applyProviderKey c n k) = cfg_Pricing c"
  "cfg_Reliability (applyProviderKey c n k) = cfg_Reliability c"
  by (simp_all add: applyProviderKey_def)

text \<open>C34: the environment only adds: the configured proxy and admin keys stay, followed by the
  trimmed non-empty keys of the two variables of each kind; a provider that has keys is unchanged and
  one that has none changes at most in its keys; tenants, security, cost, rate limit, pricing and
  reliability settings and the switch that turns authentication on are left alone.\<close>

theorem applyEnv_only_adds:
  fixes getenv :: "string \<Rightarrow> string"
  defines "keys v \<equiv> nonEmptyStrings (Split (CHR '','') (getenv v))"
  shows "ac_ProxyAPIKeys (cfg_Auth (applyEnv getenv c)) =
           ac_ProxyAPIKeys (cfg_Auth c) @ keys ''GUARDRAIL_PROXY_API_KEY'' @ keys ''GUARDRAIL_PROXY_API_KEYS''
       \<and> ac_AdminAPIKeys (cfg_Auth (applyEnv getenv c)) =
           ac_AdminAPIKeys (cfg_Auth c) @ keys ''GUARDRAIL_ADMIN_API_KEY'' @ keys ''GUARDRAIL_ADMIN_API_KEYS''
       \<and> ac_Enabled (cfg_Auth (applyEnv getenv c)) = ac_Enabled (cfg_Auth c)
       \<and> list_all2 keys_filled (cfg_Providers c) (cfg_Providers (applyEnv getenv c))
       \<and> cfg_Tenants (applyEnv getenv c) = cfg_Tenants c
       \<and> cfg_Security (applyEnv getenv c) = cfg_Security c
       \<and> cfg_Cost (applyEnv getenv c) = cfg_Cost c
       \<and> cfg_RateLimit (applyEnv getenv c) = cfg_RateLimit c
       \<and> cfg_Pricing (applyEnv getenv c) = cfg_Pricing c
       \<and> cfg_Reliability (applyEnv getenv c) = cfg_Reliability c"
proof -
  have "list_all2 keys_filled (cfg_Providers c) (cfg_Providers (applyEnv getenv c))"
    unfolding applyEnv_def Let_def by (intro applyProviderKey_filled) (simp add: list.rel_refl)
  moreover have
    "ac_ProxyAPIKeys (cfg_Auth (applyEnv getenv c)) =
       ac_ProxyAPIKeys (cfg_Auth c) @ keys ''GUARDRAIL_PROXY_API_KEY'' @ keys ''GUARDRAIL_PROXY_API_KEYS''"
    "ac_AdminAPIKeys (cfg_Auth (applyEnv getenv c)) =
       ac_AdminAPIKeys (cfg_Auth c) @ keys ''GUARDRAIL_ADMIN_API_KEY'' @ keys ''GUARDRAIL_ADMIN_API_KEYS''"
    "ac_Enabled (cfg_Auth (applyEnv getenv c)) = ac_Enabled (cfg_Auth c)"
    unfolding applyEnv_def Let_def keys_def by (simp_all add: appendEnvKeys_eq)
  ultimately show ?thesis by (simp add: applyEnv_def Let_def)
qed

definition config_path :: "(string \<Rightarrow> string) \<Rightarrow> string \<Rightarrow> string" where
  "config_path getenv path =
     (if path \<noteq> [] then path
      else if getenv ''GUARDRAIL_CONFIG'' \<noteq> [] then getenv ''GUARDRAIL_CONFIG''
      else ''configs/guardrail.yaml'')"

text \<open>C22: \<open>Load\<close> returns a configuration exactly when the file at the chosen path (argument, then
  variable, then built-in) decodes over the defaults or is missing, and the result with the
  environment applied satisfies the declarative specification: a listen address, at least one
  provider and every provider named, of a known type and with an absolute URL, tenants with distinct
  non-blank (trimmed) ids, usable credentials when authentication is on, sane rate limits, a
  non-negative refresh interval, an audit DSN and a positive provider timeout. In particular
  \<open>Validate\<close> misses no clause and refuses nothing else.\<close>

theorem Load_exactly_valid:
  "Load getenv ReadFile decode path = Inr cfg \<longleftrightarrow>
     (\<exists>cfg0. ((\<exists>raw. ReadFile (config_path getenv path) = Inr raw \<and> decode raw Default = Inr cfg0)
              \<or> ReadFile (config_path getenv path) = Inl None \<and> cfg0 = Default)
            \<and> cfg = applyEnv getenv cfg0 \<and> config_ok cfg)"
proof -
  have V: "(case Validate c of Inl e \<Rightarrow> Inl e | Inr _ \<Rightarrow> Inr c) = Inr cfg \<longleftrightarrow> cfg = c \<and> config_ok c" for c
    by (cases "Validate c") (auto simp: Validate_iff [symmetric])
  define p where "p = config_path getenv path"
  have p: "(let q = if path = [] then getenv ''GUARDRAIL_CONFIG'' else path
            in if q = [] then ''configs/guardrail.yaml'' else q) = p"
    by (simp add: p_def config_path_def)
  show ?thesis
  proof (cases "ReadFile p")
    case (Inl e)
    then show ?thesis
      by (cases e) (auto simp: Load_def p [unfolded Let_def] p_def [symmetric] V Let_def)
  next
    case (Inr raw)
    then show ?thesis
      by (cases "decode raw Default") (auto simp: Load_def p [unfolded Let_def] p_def [symmetric] V Let_def)
  qed
qed

end
