(* ===== verification/Sha256.thy ===== *)
theory Sha256
  imports GoStd
begin

text \<open>
  Package \<open>crypto/sha256\<close>: \<open>Sum256\<close> of FIPS 180-4 on byte strings, with 32-bit words that wrap around,
  and \<open>subtle.ConstantTimeCompare\<close>, which is equality of byte strings. The digest is kept as its eight
  words. The constants (fractional parts of square and cube roots of primes) are in decimal.
\<close>

unbundle bit_operations_syntax

type_synonym u32 = "32 word"
type_synonym hash = "u32 list"

definition sha_k :: "u32 list" where
  "sha_k =
    [1116352408, 1899447441, 3049323471, 3921009573, 961987163, 1508970993, 2453635748, 2870763221,
     3624381080, 310598401, 607225278, 1426881987, 1925078388, 2162078206, 2614888103, 3248222580,
     3835390401, 4022224774, 264347078, 604807628, 770255983, 1249150122, 1555081692, 1996064986,
     2554220882, 2821834349, 2952996808, 3210313671, 3336571891, 3584528711, 113926993, 338241895,
     666307205, 773529912, 1294757372, 1396182291, 1695183700, 1986661051, 2177026350, 2456956037,
     2730485921, 2820302411, 3259730800, 3345764771, 3516065817, 3600352804, 4094571909, 275423344,
     430227734, 506948616, 659060556, 883997877, 958139571, 1322822218, 1537002063, 1747873779,
     1955562222, 2024104815, 2227730452, 2361852424, 2428436474, 2756734187, 3204031479, 3329325298]"

definition sha_init :: hash where
  "sha_init = [1779033703, 3144134277, 1013904242, 2773480762, 1359893119, 2600822924, 528734635, 1541459225]"

definition rotr :: "nat \<Rightarrow> u32 \<Rightarrow> u32" where
  "rotr n x = drop_bit n x OR push_bit (32 - n) x"

definition sig0 :: "u32 \<Rightarrow> u32" where
  "sig0 x = rotr 7 x XOR rotr 18 x XOR drop_bit 3 x"

definition sig1 :: "u32 \<Rightarrow> u32" where
  "sig1 x = rotr 17 x XOR rotr 19 x XOR drop_bit 10 x"

definition Sig0 :: "u32 \<Rightarrow> u32" where
  "Sig0 x = rotr 2 x XOR rotr 13 x XOR rotr 22 x"

definition Sig1 :: "u32 \<Rightarrow> u32" where
  "Sig1 x = rotr 6 x XOR rotr 11 x XOR rotr 25 x"

text \<open>The message schedule, newest word first; each step adds one word.\<close>

definition sched_step :: "u32 list \<Rightarrow> u32 list" where
  "sched_step w = (sig1 (w ! 1) + w ! 6 + sig0 (w ! 14) + w ! 15) # w"

definition schedule :: "u32 list \<Rightarrow> u32 list" where
  "schedule blk = rev ((sched_step ^^ 48) (rev blk))"

fun sha_round :: "hash \<Rightarrow> u32 \<times> u32 \<Rightarrow> hash" where
  "sha_round [a, b, c, d, e, f, g, h] (k, w) =
     (let t1 = h + Sig1 e + ((e AND f) XOR (NOT e AND g)) + k + w;
          t2 = Sig0 a + ((a AND b) XOR (a AND c) XOR (b AND c))
      in [t1 + t2, a, b, c, d + t1, e, f, g])"
| "sha_round st _ = st"

definition compress :: "hash \<Rightarrow> u32 list \<Rightarrow> hash" where
  "compress st blk = map2 (+) st (foldl sha_round st (zip sha_k (schedule blk)))"

fun be_words :: "int list \<Rightarrow> u32 list" where
  "be_words (a # b # c # d # r) = word_of_int (((a * 256 + b) * 256 + c) * 256 + d) # be_words r"
| "be_words _ = []"

text \<open>Padding: a one bit, zeros up to 56 modulo 64 bytes, and the bit length in eight bytes.\<close>

definition sha_pad :: "string \<Rightarrow> int list" where
  "sha_pad s =
     (let n = length s; z = (119 - n mod 64) mod 64
      in map (\<lambda>c. int (byte c)) s @ [128] @ replicate z 0 @ map (\<lambda>i. (8 * int n) div 256 ^ i mod 256) (rev [0..<8]))"

function blocks :: "u32 list \<Rightarrow> u32 list list" where
  "blocks ws = (if ws = [] then [] else take 16 ws # blocks (drop 16 ws))"
  by pat_completeness auto
termination
  by (relation "measure length") auto

declare blocks.simps [simp del]

definition Sum256 :: "string \<Rightarrow> hash" where
  "Sum256 s = foldl compress sha_init (blocks (be_words (sha_pad s)))"

definition ConstantTimeCompare :: "hash \<Rightarrow> hash \<Rightarrow> int" where
  "ConstantTimeCompare a b = (if a = b then 1 else 0)"

end
