(* ===== verification/Authn.thy ===== *)
theory Authn
  imports Config Sha256 "HOL-Library.AList"
begin

text \<open>
  Package \<open>internal/authn\<close>: the identity carried in a request context (\<open>identity.go\<close>), the manager that
  authenticates proxy and admin requests by API key or OIDC token (\<open>manager.go\<close>) and the adapter around
  the OIDC library (\<open>oidc.go\<close>). The library itself (\<open>go-oidc\<close>) is third-party code: a \<open>TokenVerifier\<close> is
  a function from the raw token to a token or an error, and a manager without OIDC has none.
  A Go map that is iterated is an association list with distinct keys, in some order.

  The interface \<open>tenant_keys\<close> states what the manager relies on in its table of hashed keys: a key that
  was added is found again under its own tenant. The lemmas then say who is authenticated: exactly the
  holders of a configured key or of a verified token for a known tenant.
\<close>

section \<open>Identity (identity.go)\<close>

definition DefaultTenantID :: string where
  "DefaultTenantID = ''default''"

record Identity =
  id_TenantID :: string
  id_Subject :: string
  id_Method :: string
  id_Admin :: bool

definition Identity_zero :: Identity where
  "Identity_zero = \<lparr>id_TenantID = [], id_Subject = [], id_Method = [], id_Admin = False\<rparr>"

text \<open>The request context, as far as this package reads it: the identity stored in it, if any.\<close>

type_synonym ctx = "Identity option"

definition WithIdentity :: "ctx \<Rightarrow> Identity \<Rightarrow> ctx" where
  "WithIdentity ctx identity =
     Some (if id_TenantID identity = [] then identity\<lparr>id_TenantID := DefaultTenantID\<rparr> else identity)"

definition FromContext :: "ctx \<Rightarrow> Identity" where
  "FromContext ctx =
     (case ctx of
        None \<Rightarrow> \<lparr>id_TenantID = DefaultTenantID, id_Subject = DefaultTenantID, id_Method = ''anonymous'', id_Admin = False\<rparr>
      | Some identity \<Rightarrow>
          if id_TenantID identity = []
          then \<lparr>id_TenantID = DefaultTenantID, id_Subject = DefaultTenantID, id_Method = ''anonymous'', id_Admin = False\<rparr>
          else identity)"

section \<open>Tokens and the manager's state (manager.go)\<close>

text \<open>A claim of dynamic type: a string, a list of such values, a list of strings, anything else.\<close>

datatype any = AnyString string | AnyList "any list" | AnyStrings "string list" | AnyOther

record Token =
  tok_Subject :: string
  tok_Claims :: "(string \<times> any) list"

definition claim :: "Token \<Rightarrow> string \<Rightarrow> any" where
  "claim t k = (case map_of (tok_Claims t) k of None \<Rightarrow> AnyOther | Some v \<Rightarrow> v)"

type_synonym TokenVerifier = "string \<Rightarrow> Token result"

record Manager =
  m_proxyKeys :: "(hash \<times> string) list"
  m_adminKeys :: "hash list"
  m_knownTenants :: "string list"
  m_oidc :: "TokenVerifier option"
  m_tenantClaim :: string
  m_adminGroupClaim :: string
  m_adminGroups :: "string list"

text \<open>\<open>http.Request\<close>: the parts of an incoming request that the program reads.\<close>

record Request =
  r_Method :: string
  r_Path :: string
  r_Query :: "(string \<times> string) list"
  r_Header :: header
  r_Body :: string
  r_BodyErr :: "string option"

definition ProxyAPIKeyHeader :: string where
  "ProxyAPIKeyHeader = ''X-GuardRail-API-Key''"

definition AdminAPIKeyHeader :: string where
  "AdminAPIKeyHeader = ''X-GuardRail-Admin-Key''"

section \<open>Construction\<close>

definition claimOrDefault :: "string \<Rightarrow> string \<Rightarrow> string" where
  "claimOrDefault v fallback = (let value = TrimSpace v in if value = [] then fallback else value)"

definition addProxyKey :: "Manager \<Rightarrow> string \<Rightarrow> string \<Rightarrow> Manager" where
  "addProxyKey m k tenantID =
     (let key = TrimSpace k in
      if key = [] then m
      else m\<lparr>m_proxyKeys := AList.update (Sum256 key) tenantID (m_proxyKeys m)\<rparr>)"

definition addAdminKey :: "Manager \<Rightarrow> string \<Rightarrow> Manager" where
  "addAdminKey m k =
     (let key = TrimSpace k in
      if key = [] then m else m\<lparr>m_adminKeys := m_adminKeys m @ [Sum256 key]\<rparr>)"

definition addTenant :: "Manager \<Rightarrow> TenantConfig \<Rightarrow> Manager" where
  "addTenant m tenant =
     (let tenantID = TrimSpace (tc_ID tenant) in
      if tenantID = [] then m
      else foldl (\<lambda>m key. addProxyKey m key tenantID)
             (m\<lparr>m_knownTenants := List.insert tenantID (m_knownTenants m)\<rparr>) (tc_ProxyAPIKeys tenant))"

definition NewManagerWithVerifier :: "Config \<Rightarrow> TokenVerifier option \<Rightarrow> Manager" where
  "NewManagerWithVerifier cfg verifier =
     (let auth = cfg_Auth cfg;
          m = \<lparr>m_proxyKeys = [], m_adminKeys = [], m_knownTenants = [], m_oidc = verifier,
               m_tenantClaim = claimOrDefault (oc_TenantClaim (ac_OIDC auth)) ''tenant'',
               m_adminGroupClaim = claimOrDefault (oc_AdminGroupClaim (ac_OIDC auth)) ''groups'',
               m_adminGroups = nonEmptyStrings (oc_AdminGroups (ac_OIDC auth))\<rparr>;
          m = foldl (\<lambda>m key. addProxyKey m key DefaultTenantID) m (ac_ProxyAPIKeys auth);
          m = foldl addAdminKey m (ac_AdminAPIKeys auth)
      in foldl addTenant m (cfg_Tenants cfg))"

text \<open>
  \<open>oidc.go\<close>: \<open>NewProvider\<close> (discovery) and the library's verifier with its \<open>Claims\<close> method are
  parameters; the library's ID token is its subject and an undecoded claim set.
\<close>

type_synonym 'c IDTokenVerifier = "string \<Rightarrow> (string \<times> 'c) result"

definition OIDCVerifier_Verify ::
  "'c IDTokenVerifier \<Rightarrow> ('c \<Rightarrow> (string \<times> any) list result) \<Rightarrow> TokenVerifier" where
  "OIDCVerifier_Verify verify Claims rawToken =
     (case verify rawToken of
        Inl e \<Rightarrow> Inl (''verify id token: '' @ e)
      | Inr (subject, c) \<Rightarrow>
          (case Claims c of
             Inl e \<Rightarrow> Inl (''decode id token claims: '' @ e)
           | Inr claims \<Rightarrow> Inr \<lparr>tok_Subject = subject, tok_Claims = claims\<rparr>))"

definition NewOIDCVerifier ::
  "(string \<Rightarrow> (string \<Rightarrow> 'c IDTokenVerifier) result) \<Rightarrow> ('c \<Rightarrow> (string \<times> any) list result) \<Rightarrow>
   OIDCConfig \<Rightarrow> TokenVerifier result" where
  "NewOIDCVerifier NewProvider Claims cfg =
     (case NewProvider (oc_IssuerURL cfg) of
        Inl e \<Rightarrow> Inl (''discover oidc provider: '' @ e)
      | Inr Verifier \<Rightarrow> Inr (OIDCVerifier_Verify (Verifier (oc_ClientID cfg)) Claims))"

definition NewManager ::
  "(string \<Rightarrow> (string \<Rightarrow> 'c IDTokenVerifier) result) \<Rightarrow> ('c \<Rightarrow> (string \<times> any) list result) \<Rightarrow>
   Config \<Rightarrow> Manager result" where
  "NewManager NewProvider Claims cfg =
     (if oc_Enabled (ac_OIDC (cfg_Auth cfg)) then
        (case NewOIDCVerifier NewProvider Claims (ac_OIDC (cfg_Auth cfg)) of
           Inl e \<Rightarrow> Inl (''build oidc verifier: '' @ e)
         | Inr v \<Rightarrow> Inr (NewManagerWithVerifier cfg (Some v)))
      else Inr (NewManagerWithVerifier cfg None))"

section \<open>Authentication\<close>

definition bearerToken :: "string \<Rightarrow> string" where
  "bearerToken v =
     (case CutPrefix (TrimSpace v) ''Bearer '' of None \<Rightarrow> [] | Some token \<Rightarrow> TrimSpace token)"

definition presentedKeys :: "Request \<Rightarrow> string \<Rightarrow> string list" where
  "presentedKeys r hdr =
     (let key = TrimSpace (Header_Get (r_Header r) hdr);
          keys = (if key \<noteq> [] then [key] else []);
          key = bearerToken (Header_Get (r_Header r) ''Authorization'')
      in if key \<noteq> [] then keys @ [key] else keys)"

fun find_tenant :: "hash \<Rightarrow> (hash \<times> string) list \<Rightarrow> string option" where
  "find_tenant h [] = None"
| "find_tenant h ((keyHash, tenantID) # ks) =
     (if ConstantTimeCompare h keyHash = 1 then Some tenantID else find_tenant h ks)"

fun static_tenant :: "(hash \<times> string) list \<Rightarrow> string list \<Rightarrow> string option" where
  "static_tenant ks [] = None"
| "static_tenant ks (presented # ps) =
     (case find_tenant (Sum256 presented) ks of Some t \<Rightarrow> Some t | None \<Rightarrow> static_tenant ks ps)"

definition staticProxyTenant :: "Manager \<Rightarrow> Request \<Rightarrow> string option" where
  "staticProxyTenant m r = static_tenant (m_proxyKeys m) (presentedKeys r ProxyAPIKeyHeader)"

definition hasAdminKey :: "Manager \<Rightarrow> Request \<Rightarrow> bool" where
  "hasAdminKey m r =
     list_ex (\<lambda>presented. list_ex (\<lambda>keyHash. ConstantTimeCompare (Sum256 presented) keyHash = 1) (m_adminKeys m))
       (presentedKeys r AdminAPIKeyHeader)"

fun stringClaim :: "any \<Rightarrow> string" where
  "stringClaim (AnyString raw) = TrimSpace raw"
| "stringClaim _ = []"

fun hasAnyStringClaim :: "any \<Rightarrow> string list \<Rightarrow> bool" where
  "hasAnyStringClaim (AnyString s) allowed = (s \<in> set allowed)"
| "hasAnyStringClaim (AnyList items) allowed =
     list_ex (\<lambda>item. case item of AnyString raw \<Rightarrow> raw \<in> set allowed | _ \<Rightarrow> False) items"
| "hasAnyStringClaim (AnyStrings items) allowed = list_ex (\<lambda>item. item \<in> set allowed) items"
| "hasAnyStringClaim AnyOther allowed = False"

definition KnownTenant :: "Manager \<Rightarrow> string \<Rightarrow> bool" where
  "KnownTenant m tenantID =
     (if TrimSpace tenantID = DefaultTenantID then True
      else if length (m_knownTenants m) = 0 then True
      else tenantID \<in> set (m_knownTenants m))"

definition identityFromOIDC :: "Manager \<Rightarrow> TokenVerifier \<Rightarrow> string \<Rightarrow> Identity result" where
  "identityFromOIDC m verify rawToken =
     (case verify rawToken of
        Inl e \<Rightarrow> Inl (''verify oidc token: '' @ e)
      | Inr token \<Rightarrow>
          (let tenantID = stringClaim (claim token (m_tenantClaim m)) in
           if tenantID = [] \<and> 0 < length (m_knownTenants m)
           then Inl (''missing tenant claim '' @ Quote (m_tenantClaim m))
           else
             (let tenantID = (if tenantID = [] then DefaultTenantID else tenantID) in
              if \<not> KnownTenant m tenantID then Inl (''unknown tenant '' @ Quote tenantID)
              else Inr \<lparr>id_TenantID = tenantID, id_Subject = tok_Subject token, id_Method = ''oidc'', id_Admin = False\<rparr>)))"

text \<open>\<open>(Identity, bool, error)\<close>: \<open>Inl\<close> an error, \<open>Inr None\<close> not authenticated, \<open>Inr (Some i)\<close> authenticated.\<close>

definition AuthenticateProxy :: "Manager \<Rightarrow> Request \<Rightarrow> Identity option result" where
  "AuthenticateProxy m r =
     (case staticProxyTenant m r of
        Some tenantID \<Rightarrow>
          Inr (Some \<lparr>id_TenantID = tenantID, id_Subject = tenantID, id_Method = ''api_key'', id_Admin = False\<rparr>)
      | None \<Rightarrow>
          (let rawToken = bearerToken (Header_Get (r_Header r) ''Authorization'') in
           case m_oidc m of
             None \<Rightarrow> Inr None
           | Some verify \<Rightarrow>
               if rawToken = [] then Inr None
               else case identityFromOIDC m verify rawToken of
                      Inl e \<Rightarrow> Inl e
                    | Inr identity \<Rightarrow> Inr (Some identity)))"

definition AuthenticateAdmin :: "Manager \<Rightarrow> Request \<Rightarrow> Identity option result" where
  "AuthenticateAdmin m r =
     (if hasAdminKey m r
      then Inr (Some \<lparr>id_TenantID = DefaultTenantID, id_Subject = ''admin'', id_Method = ''admin_api_key'', id_Admin = True\<rparr>)
      else
        (let rawToken = bearerToken (Header_Get (r_Header r) ''Authorization'') in
         case m_oidc m of
           None \<Rightarrow> Inr None
         | Some verify \<Rightarrow>
             if rawToken = [] \<or> length (m_adminGroups m) = 0 then Inr None
             else case verify rawToken of
                    Inl e \<Rightarrow> Inl (''verify oidc admin token: '' @ e)
                  | Inr token \<Rightarrow>
                      if \<not> hasAnyStringClaim (claim token (m_adminGroupClaim m)) (m_adminGroups m) then Inr None
                      else Inr (Some \<lparr>id_TenantID = DefaultTenantID, id_Subject = tok_Subject token,
                             id_Method = ''oidc'', id_Admin = True\<rparr>)))"

section \<open>The table of hashed keys\<close>

text \<open>
  What a table of keys promises: adding a non-blank key makes its hash map to the tenant and changes
  nothing else; a blank key is ignored.
\<close>

locale tenant_keys =
  fixes lookup :: "'m \<Rightarrow> hash \<Rightarrow> string option"
    and add :: "'m \<Rightarrow> string \<Rightarrow> string \<Rightarrow> 'm"
  assumes lookup_add: "lookup (add m k t) h =
    (if TrimSpace k \<noteq> [] \<and> h = Sum256 (TrimSpace k) then Some t else lookup m h)"
begin

text \<open>After adding a list of entries, a hash maps to the tenant of the last entry with that hash.\<close>

lemma lookup_add_all:
  "lookup (foldl (\<lambda>m (k, t). add m k t) m es) h =
     (case find (\<lambda>(k, t). TrimSpace k \<noteq> [] \<and> h = Sum256 (TrimSpace k)) (rev es) of
        Some (k, t) \<Rightarrow> Some t | None \<Rightarrow> lookup m h)"
  by (induction es rule: rev_induct) (auto simp: lookup_add split: prod.splits)

lemma lookup_add_all_dom:
  "lookup (foldl (\<lambda>m (k, t). add m k t) m es) h \<noteq> None \<longleftrightarrow>
     (\<exists>(k, t) \<in> set es. TrimSpace k \<noteq> [] \<and> h = Sum256 (TrimSpace k)) \<or> lookup m h \<noteq> None"
  by (induction es rule: rev_induct) (auto simp: lookup_add)

end

lemma ConstantTimeCompare_iff [simp]: "ConstantTimeCompare a b = 1 \<longleftrightarrow> a = b"
  by (simp add: ConstantTimeCompare_def)

lemma find_tenant_map_of: "find_tenant h ks = map_of ks h"
  by (induction h ks rule: find_tenant.induct) auto

interpretation proxy_keys: tenant_keys "\<lambda>m h. find_tenant h (m_proxyKeys m)" addProxyKey
  by unfold_locales (simp add: addProxyKey_def Let_def find_tenant_map_of update_conv)

section \<open>Facts\<close>

text \<open>The configured proxy keys with their tenants, in the order the constructor adds them.\<close>

definition tenant_entries :: "TenantConfig \<Rightarrow> (string \<times> string) list" where
  "tenant_entries t =
     (if TrimSpace (tc_ID t) = [] then [] else map (\<lambda>k. (k, TrimSpace (tc_ID t))) (tc_ProxyAPIKeys t))"

definition proxy_entries :: "Config \<Rightarrow> (string \<times> string) list" where
  "proxy_entries cfg =
     map (\<lambda>k. (k, DefaultTenantID)) (ac_ProxyAPIKeys (cfg_Auth cfg)) @ concat (map tenant_entries (cfg_Tenants cfg))"

lemma addProxyKey_frame [simp]:
  "m_adminKeys (addProxyKey m k t) = m_adminKeys m"
  "m_knownTenants (addProxyKey m k t) = m_knownTenants m"
  "m_oidc (addProxyKey m k t) = m_oidc m"
  "m_tenantClaim (addProxyKey m k t) = m_tenantClaim m"
  "m_adminGroupClaim (addProxyKey m k t) = m_adminGroupClaim m"
  "m_adminGroups (addProxyKey m k t) = m_adminGroups m"
  by (simp_all add: addProxyKey_def Let_def)

lemma foldl_addProxyKey_frame [simp]:
  "m_adminKeys (foldl (\<lambda>m k. addProxyKey m k t) m ks) = m_adminKeys m"
  "m_knownTenants (foldl (\<lambda>m k. addProxyKey m k t) m ks) = m_knownTenants m"
  "m_oidc (foldl (\<lambda>m k. addProxyKey m k t) m ks) = m_oidc m"
  "m_tenantClaim (foldl (\<lambda>m k. addProxyKey m k t) m ks) = m_tenantClaim m"
  "m_adminGroupClaim (foldl (\<lambda>m k. addProxyKey m k t) m ks) = m_adminGroupClaim m"
  "m_adminGroups (foldl (\<lambda>m k. addProxyKey m k t) m ks) = m_adminGroups m"
  by (induction ks arbitrary: m) auto

lemma foldl_addAdminKey:
  "foldl addAdminKey m ks = m\<lparr>m_adminKeys := m_adminKeys m @ map Sum256 (nonEmptyStrings ks)\<rparr>"
  by (induction ks arbitrary: m) (auto simp: addAdminKey_def Let_def)

lemma foldl_addProxyKey_entries:
  "foldl (\<lambda>m k. addProxyKey m k t) m ks = foldl (\<lambda>m (k, t). addProxyKey m k t) m (map (\<lambda>k. (k, t)) ks)"
  by (induction ks arbitrary: m) auto

lemma addTenant_lookup:
  "find_tenant h (m_proxyKeys (addTenant m t)) =
   find_tenant h (m_proxyKeys (foldl (\<lambda>m (k, t). addProxyKey m k t) m (tenant_entries t)))"
  by (simp add: addTenant_def tenant_entries_def Let_def foldl_addProxyKey_entries
      proxy_keys.lookup_add_all split: option.splits)

lemma foldl_addTenant_lookup:
  "find_tenant h (m_proxyKeys (foldl addTenant m ts)) =
   find_tenant h (m_proxyKeys (foldl (\<lambda>m (k, t). addProxyKey m k t) m (concat (map tenant_entries ts))))"
  by (induction ts rule: rev_induct)
    (simp_all add: addTenant_lookup proxy_keys.lookup_add_all split: option.splits)

lemma manager_lookup:
  "find_tenant h (m_proxyKeys (NewManagerWithVerifier cfg v)) =
     (case find (\<lambda>(k, t). TrimSpace k \<noteq> [] \<and> h = Sum256 (TrimSpace k)) (rev (proxy_entries cfg)) of
        Some (k, t) \<Rightarrow> Some t | None \<Rightarrow> None)"
  unfolding NewManagerWithVerifier_def Let_def foldl_addTenant_lookup proxy_keys.lookup_add_all
  by (simp add: foldl_addAdminKey foldl_addProxyKey_entries proxy_keys.lookup_add_all proxy_entries_def
      find_append split: option.splits)

lemma addTenant_frame [simp]:
  "m_adminKeys (addTenant m t) = m_adminKeys m"
  "m_oidc (addTenant m t) = m_oidc m"
  "m_tenantClaim (addTenant m t) = m_tenantClaim m"
  "m_adminGroupClaim (addTenant m t) = m_adminGroupClaim m"
  "m_adminGroups (addTenant m t) = m_adminGroups m"
  "set (m_knownTenants (addTenant m t)) =
     set (m_knownTenants m) \<union> (if TrimSpace (tc_ID t) = [] then {} else {TrimSpace (tc_ID t)})"
  by (simp_all add: addTenant_def Let_def)

lemma foldl_addTenant_frame [simp]:
  "m_adminKeys (foldl addTenant m ts) = m_adminKeys m"
  "m_oidc (foldl addTenant m ts) = m_oidc m"
  "m_tenantClaim (foldl addTenant m ts) = m_tenantClaim m"
  "m_adminGroupClaim (foldl addTenant m ts) = m_adminGroupClaim m"
  "m_adminGroups (foldl addTenant m ts) = m_adminGroups m"
  by (induction ts arbitrary: m) auto

lemma foldl_addTenant_known:
  "set (m_knownTenants (foldl addTenant m ts)) =
     set (m_knownTenants m) \<union> {TrimSpace (tc_ID t) | t. t \<in> set ts \<and> TrimSpace (tc_ID t) \<noteq> []}"
  by (induction ts arbitrary: m) auto

lemma manager_fields [simp]:
  "m_adminKeys (NewManagerWithVerifier cfg v) = map Sum256 (nonEmptyStrings (ac_AdminAPIKeys (cfg_Auth cfg)))"
  "m_oidc (NewManagerWithVerifier cfg v) = v"
  "m_adminGroups (NewManagerWithVerifier cfg v) = nonEmptyStrings (oc_AdminGroups (ac_OIDC (cfg_Auth cfg)))"
  "set (m_knownTenants (NewManagerWithVerifier cfg v)) =
     {TrimSpace (tc_ID t) | t. t \<in> set (cfg_Tenants cfg) \<and> TrimSpace (tc_ID t) \<noteq> []}"
  by (simp_all add: NewManagerWithVerifier_def Let_def foldl_addAdminKey foldl_addTenant_known)

lemma static_tenant_Some:
  "static_tenant ks ps = Some t \<longleftrightarrow>
     (\<exists>i < length ps. find_tenant (Sum256 (ps ! i)) ks = Some t
        \<and> (\<forall>j < i. find_tenant (Sum256 (ps ! j)) ks = None))"
proof (induction ps)
  case Nil
  then show ?case by simp
next
  case (Cons p ps)
  show ?case
  proof (cases "find_tenant (Sum256 p) ks")
    case None
    then show ?thesis by (simp add: Cons.IH Ex_less_Suc2 All_less_Suc2)
  next
    case (Some u)
    then show ?thesis by (simp add: Ex_less_Suc2 All_less_Suc2)
  qed
qed

lemma static_tenant_None:
  "static_tenant ks ps = None \<longleftrightarrow> (\<forall>p \<in> set ps. find_tenant (Sum256 p) ks = None)"
  by (induction ps) (auto split: option.splits)

lemma AuthenticateProxy_cases:
  "AuthenticateProxy m r = Inr (Some i) \<Longrightarrow>
     staticProxyTenant m r = Some (id_TenantID i) \<and> id_Method i = ''api_key''
     \<or> (\<exists>verify token. m_oidc m = Some verify
          \<and> verify (bearerToken (Header_Get (r_Header r) ''Authorization'')) = Inr token
          \<and> id_Subject i = tok_Subject token \<and> id_Method i = ''oidc'' \<and> KnownTenant m (id_TenantID i)
          \<and> id_TenantID i \<noteq> []
          \<and> (stringClaim (claim token (m_tenantClaim m)) = id_TenantID i
             \<or> stringClaim (claim token (m_tenantClaim m)) = [] \<and> m_knownTenants m = [] \<and> id_TenantID i = DefaultTenantID))"
  by (auto simp: AuthenticateProxy_def identityFromOIDC_def Let_def DefaultTenantID_def
      split: option.splits sum.splits if_splits)

lemma hasAdminKey_iff:
  "hasAdminKey m r \<longleftrightarrow> (\<exists>p \<in> set (presentedKeys r AdminAPIKeyHeader). Sum256 p \<in> set (m_adminKeys m))"
  by (auto simp: hasAdminKey_def list_ex_iff)

lemma static_tenant_find:
  "static_tenant ks ps =
     (case find (\<lambda>p. find_tenant (Sum256 p) ks \<noteq> None) ps of
        None \<Rightarrow> None | Some p \<Rightarrow> find_tenant (Sum256 p) ks)"
  by (induction ps) (auto split: option.splits)

section \<open>Who is authenticated\<close>

text \<open>\<open>matches p e\<close>: the presented key \<open>p\<close> has the hash of the configured entry \<open>e\<close>.\<close>

definition matches :: "string \<Rightarrow> string \<times> string \<Rightarrow> bool" where
  "matches p e \<longleftrightarrow> TrimSpace (fst e) \<noteq> [] \<and> Sum256 p = Sum256 (TrimSpace (fst e))"

lemma manager_lookup_matches:
  "find_tenant (Sum256 p) (m_proxyKeys (NewManagerWithVerifier cfg v)) =
     map_option snd (find (matches p) (rev (proxy_entries cfg)))"
proof -
  have "(\<lambda>(k, t). TrimSpace k \<noteq> [] \<and> Sum256 p = Sum256 (TrimSpace k)) = matches p"
    by (auto simp: matches_def)
  then show ?thesis by (simp add: manager_lookup split: option.splits)
qed

text \<open>C15: with API keys only, proxy authentication is exactly a look-up in the configured keys: the
  first presented key (dedicated header, then bearer token) whose hash is that of a configured,
  non-blank key decides, the tenant is the one configured last for that key, and a request presenting
  no such key is refused. The identity is never an administrator's.\<close>

theorem proxy_key_authentication:
  "AuthenticateProxy (NewManagerWithVerifier cfg None) r =
     Inr (case find (\<lambda>p. list_ex (matches p) (proxy_entries cfg)) (presentedKeys r ProxyAPIKeyHeader) of
            None \<Rightarrow> None
          | Some p \<Rightarrow> map_option
              (\<lambda>(k, t). \<lparr>id_TenantID = t, id_Subject = t, id_Method = ''api_key'', id_Admin = False\<rparr>)
              (find (matches p) (rev (proxy_entries cfg))))"
proof -
  have "(\<lambda>p. find (matches p) (rev (proxy_entries cfg)) \<noteq> None) = (\<lambda>p. list_ex (matches p) (proxy_entries cfg))"
    by (intro ext) (auto simp: find_None_iff list_ex_iff simp del: not_None_eq)
  then show ?thesis
    by (auto simp: AuthenticateProxy_def staticProxyTenant_def static_tenant_find manager_lookup_matches
        Let_def split: option.splits)
qed

text \<open>C16: with API keys only, admin authentication succeeds exactly when a presented key has the hash
  of a configured, non-blank admin key, and it yields the administrator's identity; proxy keys
  give no admin access.\<close>

theorem admin_key_authentication:
  "AuthenticateAdmin (NewManagerWithVerifier cfg None) r =
     Inr (if \<exists>p \<in> set (presentedKeys r AdminAPIKeyHeader). \<exists>k \<in> set (ac_AdminAPIKeys (cfg_Auth cfg)).
               TrimSpace k \<noteq> [] \<and> Sum256 p = Sum256 (TrimSpace k)
          then Some \<lparr>id_TenantID = DefaultTenantID, id_Subject = ''admin'', id_Method = ''admin_api_key'', id_Admin = True\<rparr>
          else None)"
  unfolding AuthenticateAdmin_def hasAdminKey_iff
  by (auto simp: nonEmptyStrings_eq Let_def)

lemma proxy_entries_tenant:
  "(k, t) \<in> set (proxy_entries cfg) \<Longrightarrow>
     t = DefaultTenantID \<or> (t \<noteq> [] \<and> t \<in> (\<lambda>t. TrimSpace (tc_ID t)) ` set (cfg_Tenants cfg))"
  by (auto simp: proxy_entries_def tenant_entries_def split: if_splits)

lemma static_tenant_configured:
  assumes "staticProxyTenant (NewManagerWithVerifier cfg v) r = Some t"
  shows "t = DefaultTenantID \<or> (t \<noteq> [] \<and> t \<in> (\<lambda>t. TrimSpace (tc_ID t)) ` set (cfg_Tenants cfg))"
proof -
  from assms obtain p where "map_option snd (find (matches p) (rev (proxy_entries cfg))) = Some t"
    by (auto simp: staticProxyTenant_def static_tenant_find manager_lookup_matches split: option.splits)
  then obtain k where "(k, t) \<in> set (proxy_entries cfg)" by (auto dest!: find_SomeD)
  then show ?thesis by (rule proxy_entries_tenant)
qed

lemma KnownTenant_manager:
  "TrimSpace t = t \<Longrightarrow> KnownTenant (NewManagerWithVerifier cfg v) t \<Longrightarrow>
   \<exists>c \<in> set (cfg_Tenants cfg). TrimSpace (tc_ID c) \<noteq> [] \<Longrightarrow>
   t = DefaultTenantID \<or> t \<in> (\<lambda>t. TrimSpace (tc_ID t)) ` set (cfg_Tenants cfg)"
  unfolding KnownTenant_def length_0_conv set_empty [symmetric] manager_fields
  by (auto split: if_splits)

lemma stringClaim_trimmed: "TrimSpace (stringClaim c) = stringClaim c"
  by (cases c) auto

lemma proxy_identity_tenant:
  assumes "AuthenticateProxy (NewManagerWithVerifier cfg v) r = Inr (Some i)"
  shows "id_TenantID i \<noteq> [] \<and>
    ((\<exists>c \<in> set (cfg_Tenants cfg). TrimSpace (tc_ID c) \<noteq> []) \<longrightarrow>
       id_TenantID i \<in> insert DefaultTenantID ((\<lambda>t. TrimSpace (tc_ID t)) ` set (cfg_Tenants cfg)))"
  using AuthenticateProxy_cases [OF assms]
proof (elim disjE conjE exE)
  assume "staticProxyTenant (NewManagerWithVerifier cfg v) r = Some (id_TenantID i)"
  then show ?thesis using static_tenant_configured [of cfg v r] by (auto simp: DefaultTenantID_def)
next
  fix verify token
  assume t: "stringClaim (claim token (m_tenantClaim (NewManagerWithVerifier cfg v))) = id_TenantID i"
    and "KnownTenant (NewManagerWithVerifier cfg v) (id_TenantID i)" "id_TenantID i \<noteq> []"
  moreover have "TrimSpace (id_TenantID i) = id_TenantID i" using stringClaim_trimmed t by metis
  ultimately show ?thesis using KnownTenant_manager [of "id_TenantID i" cfg v] by auto
qed (auto simp: DefaultTenantID_def)

text \<open>C17: tenant confinement. Whatever the credentials and whatever the token verifier answers, an
  authenticated proxy identity has a non-empty tenant; when tenants are configured it is one of their
  (trimmed) ids or the default tenant.\<close>

theorem proxy_tenant_confined:
  assumes "AuthenticateProxy (NewManagerWithVerifier cfg v) r = Inr (Some i)"
  shows "id_TenantID i \<noteq> [] \<and>
    ((\<exists>c \<in> set (cfg_Tenants cfg). TrimSpace (tc_ID c) \<noteq> []) \<longrightarrow>
       id_TenantID i \<in> insert DefaultTenantID ((\<lambda>t. TrimSpace (tc_ID t)) ` set (cfg_Tenants cfg)))"
  using proxy_identity_tenant [OF assms] .

text \<open>A configuration with one tenant, a request with a bearer token and a verifier for it.\<close>

definition tenant_config :: "string \<Rightarrow> f64 \<Rightarrow> Config" where
  "tenant_config tenant daily = Default\<lparr>cfg_Tenants := [\<lparr>tc_ID = tenant, tc_ProxyAPIKeys = [],
     tc_DailyBudgetUSD = daily, tc_PerRequestBudgetUSD = Fin 0,
     tc_RateLimit = \<lparr>rc_Enabled = False, rc_RequestsPerMinute = 0, rc_Burst = 0\<rparr>\<rparr>]\<rparr>"

definition cfg_acme :: Config where
  "cfg_acme = tenant_config ''acme'' (Fin 0)"

definition req_bearer :: "string \<Rightarrow> Request" where
  "req_bearer token = \<lparr>r_Method = ''POST'', r_Path = ''/v1/chat/completions'', r_Query = [],
     r_Header = [(''Authorization'', [''Bearer '' @ token])], r_Body = [], r_BodyErr = None\<rparr>"

text \<open>A verifier that accepts every token as one of user \<open>u1\<close> whose tenant claim is the token text.\<close>

definition verify_echo :: TokenVerifier where
  "verify_echo raw = Inr \<lparr>tok_Subject = ''u1'', tok_Claims = [(''tenant'', AnyString raw)]\<rparr>"

lemma verify_echo_run:
  assumes t: "t = ''acme'' \<or> t = ''default''" and tenant: "TrimSpace tenant = ''acme''"
  shows "AuthenticateProxy (NewManagerWithVerifier (tenant_config tenant daily) (Some verify_echo)) (req_bearer t) =
     Inr (Some \<lparr>id_TenantID = t, id_Subject = ''u1'', id_Method = ''oidc'', id_Admin = False\<rparr>)"
proof -
  define m where "m = NewManagerWithVerifier (tenant_config tenant daily) (Some verify_echo)"
  have trims: "TrimSpace ''acme'' = ''acme''" "TrimSpace ''default'' = ''default''"
      "TrimSpace ''tenant'' = ''tenant''" "TrimSpace ''groups'' = ''groups''"
    by code_simp+
  have m: "m_proxyKeys m = []" "m_oidc m = Some verify_echo" "m_tenantClaim m = ''tenant''"
      "m_knownTenants m = [''acme'']"
    by (simp_all add: m_def NewManagerWithVerifier_def tenant_config_def Default_def addTenant_def
        claimOrDefault_def trims tenant)
  have "staticProxyTenant m (req_bearer t) = None"
    by (simp add: staticProxyTenant_def m static_tenant_None)
  moreover have "bearerToken (Header_Get (r_Header (req_bearer t)) ''Authorization'') = t"
    using t by (elim disjE; hypsubst; code_simp)
  moreover have "TrimSpace t = t" "t \<noteq> []" "KnownTenant m t"
    using t by (auto simp: KnownTenant_def m DefaultTenantID_def trims)
  ultimately show ?thesis
    unfolding m_def [symmetric]
    by (simp add: AuthenticateProxy_def m identityFromOIDC_def verify_echo_def claim_def)
qed

theorem proxy_tenant_confined_witness:
  "\<exists>i. AuthenticateProxy (NewManagerWithVerifier cfg_acme (Some verify_echo)) (req_bearer ''acme'') = Inr (Some i)
       \<and> id_TenantID i \<noteq> [] \<and> id_TenantID i \<in> {''default'', ''acme''}"
proof -
  have run: "AuthenticateProxy (NewManagerWithVerifier cfg_acme (Some verify_echo)) (req_bearer ''acme'') =
      Inr (Some \<lparr>id_TenantID = ''acme'', id_Subject = ''u1'', id_Method = ''oidc'', id_Admin = False\<rparr>)"
    unfolding cfg_acme_def by (rule verify_echo_run) (simp, code_simp)
  have "TrimSpace ''acme'' = ''acme''" by code_simp
  then show ?thesis
    using proxy_tenant_confined [OF run] run by (auto simp: cfg_acme_def tenant_config_def DefaultTenantID_def)
qed

end
