(* ===== verification/Isolation.thy ===== *)
theory Isolation
  imports Authn
begin

text \<open>
  Tenant isolation as an interface. Several components keep one piece of state per tenant behind an
  operation that takes the tenant's id (an empty id means the default tenant). What the gateway relies
  on is the same for all of them: an operation of one tenant reads and writes that tenant's piece only, while an invariant of the state holds.
  From this contract follows non-interference: in any interleaving of operations of several tenants,
  each tenant gets the answers it would get if the others did not exist.
\<close>

section \<open>Tenant ids\<close>

text \<open>The rewriting \<open>if tenantID == "" { tenantID = authn.DefaultTenantID }\<close>.\<close>

definition tenantOrDefault :: "string \<Rightarrow> string" where
  "tenantOrDefault t = (if t = [] then DefaultTenantID else t)"

section \<open>Runs of tenant operations\<close>

text \<open>Run a sequence of operations, each with its tenant and its argument, and collect the answers.\<close>

fun tenant_run :: "(string \<Rightarrow> 'a \<Rightarrow> 's \<Rightarrow> 'r \<times> 's) \<Rightarrow> (string \<times> 'a) list \<Rightarrow> 's \<Rightarrow> (string \<times> 'r) list" where
  "tenant_run oper [] s = []"
| "tenant_run oper ((t, a) # es) s = (case oper t a s of (r, s') \<Rightarrow> (t, r) # tenant_run oper es s')"

definition of_tenant :: "string \<Rightarrow> (string \<times> 'a) list \<Rightarrow> (string \<times> 'a) list" where
  "of_tenant t es = filter (\<lambda>(u, _). tenantOrDefault u = tenantOrDefault t) es"

section \<open>The contract and its consequence\<close>

locale tenant_isolation =
  fixes oper :: "string \<Rightarrow> 'a \<Rightarrow> 's \<Rightarrow> 'r \<times> 's"
    and view :: "'s \<Rightarrow> string \<Rightarrow> 'v"
    and inv :: "'s \<Rightarrow> bool"
  assumes inv_kept: "inv s \<Longrightarrow> inv (snd (oper t a s))"
    and others_kept: "inv s \<Longrightarrow> tenantOrDefault u \<noteq> tenantOrDefault t \<Longrightarrow>
      view (snd (oper t a s)) (tenantOrDefault u) = view s (tenantOrDefault u)"
    and own_only: "inv s \<Longrightarrow> inv s' \<Longrightarrow> view s (tenantOrDefault t) = view s' (tenantOrDefault t) \<Longrightarrow>
      tenantOrDefault u = tenantOrDefault t \<Longrightarrow>
      fst (oper u a s) = fst (oper u a s') \<and>
      view (snd (oper u a s)) (tenantOrDefault t) = view (snd (oper u a s')) (tenantOrDefault t)"
begin

lemma run_agree:
  "inv s \<Longrightarrow> inv s' \<Longrightarrow> view s (tenantOrDefault t) = view s' (tenantOrDefault t) \<Longrightarrow>
   of_tenant t (tenant_run oper es s) = tenant_run oper (of_tenant t es) s'"
proof (induction es arbitrary: s s')
  case Nil
  then show ?case by (simp add: of_tenant_def)
next
  case (Cons e es)
  obtain u a where e: "e = (u, a)" by (cases e)
  show ?case
  proof (cases "tenantOrDefault u = tenantOrDefault t")
    case True
    from own_only [OF Cons.prems True, of a]
    have "fst (oper u a s) = fst (oper u a s')"
      and "view (snd (oper u a s)) (tenantOrDefault t) = view (snd (oper u a s')) (tenantOrDefault t)"
      by auto
    with True Cons.IH [of "snd (oper u a s)" "snd (oper u a s')"] inv_kept Cons.prems(1,2) show ?thesis
      by (auto simp: e of_tenant_def split: prod.splits)
  next
    case False
    then have "view (snd (oper u a s)) (tenantOrDefault t) = view s' (tenantOrDefault t)"
      using others_kept [OF Cons.prems(1), of t u a] Cons.prems(3) by simp
    with False Cons.IH [of "snd (oper u a s)" s'] inv_kept Cons.prems(1,2) show ?thesis
      by (auto simp: e of_tenant_def split: prod.splits)
  qed
qed

lemma noninterference: "inv s \<Longrightarrow> of_tenant t (tenant_run oper es s) = tenant_run oper (of_tenant t es) s"
  by (rule run_agree) simp_all

end

lemma tenantOrDefault_idem [simp]: "tenantOrDefault (tenantOrDefault t) = tenantOrDefault t"
  by (simp add: tenantOrDefault_def DefaultTenantID_def)

lemma tenantOrDefault_nonempty [simp]: "tenantOrDefault t \<noteq> []"
  by (simp add: tenantOrDefault_def DefaultTenantID_def)

end
