(* ===== verification/Ratelimit.thy ===== *)
theory Ratelimit
  imports Isolation
begin

text \<open>
  Package \<open>internal/ratelimit\<close>: a token bucket per tenant. \<open>Limiter_Allow\<close> takes the instant that the
  limiter's clock returned as an argument; the whole method runs under the limiter's mutex, so a run of
  the limiter is a sequence of such calls.

  The lemmas: bucket contents stay between zero and the burst size while the clock does not go back
  (\<open>bucket_ok\<close>), a full bucket admits exactly the burst at one instant, a minute's pause refills a
  token, tenants do not influence each other, which limit applies to which tenant, and how good the retry hint is.
\<close>

section \<open>Package time\<close>

definition max_duration :: duration where
  "max_duration = 2 ^ 63 - 1"

text \<open>\<open>Time.Sub\<close> saturates.\<close>

definition Time_Sub :: "time \<Rightarrow> time \<Rightarrow> duration" where
  "Time_Sub t u = max (- (2 ^ 63)) (min max_duration (t - u))"

text \<open>\<open>Duration.Minutes\<close>.\<close>

definition Duration_Minutes :: "duration \<Rightarrow> f64" where
  "Duration_Minutes d =
     f64_add (f64_of_int (go_div d time_Minute))
       (f64_div (f64_of_int (go_mod d time_Minute)) (Fin 60000000000))"

section \<open>Types (limiter.go)\<close>

record RLDecision =
  rd_Allowed :: bool
  rd_Reason :: string
  rd_TenantID :: string
  rd_RetryAfter :: int

record Limit =
  l_Enabled :: bool
  l_RequestsPerMinute :: int
  l_Burst :: int

record bucket =
  b_tokens :: f64
  b_updated :: time

record Limiter =
  lim_defaultLimit :: Limit
  lim_tenantLimits :: "string \<rightharpoonup> Limit"
  lim_buckets :: "string \<rightharpoonup> bucket"

section \<open>Operations\<close>

definition limitFromConfig :: "RateLimitConfig \<Rightarrow> Limit" where
  "limitFromConfig cfg =
     \<lparr>l_Enabled = (rc_Enabled cfg \<or> 0 < rc_RequestsPerMinute cfg \<or> 0 < rc_Burst cfg),
      l_RequestsPerMinute = rc_RequestsPerMinute cfg, l_Burst = rc_Burst cfg\<rparr>"

definition mergeLimit :: "Limit \<Rightarrow> Limit \<Rightarrow> Limit" where
  "mergeLimit base override =
     (if \<not> l_Enabled override then base
      else
        (let override = (if l_RequestsPerMinute override = 0
                         then override\<lparr>l_RequestsPerMinute := l_RequestsPerMinute base\<rparr> else override)
         in if l_Burst override = 0 then override\<lparr>l_Burst := l_Burst base\<rparr> else override))"

definition Limiter_New :: "RateLimitConfig \<Rightarrow> TenantConfig list \<Rightarrow> Limiter" where
  "Limiter_New defaultCfg tenants =
     (let defaultLimit = limitFromConfig defaultCfg;
          limits = foldl (\<lambda>m t. m(tc_ID t \<mapsto> mergeLimit defaultLimit (limitFromConfig (tc_RateLimit t))))
                     Map.empty tenants
      in \<lparr>lim_defaultLimit = defaultLimit, lim_tenantLimits = limits, lim_buckets = Map.empty\<rparr>)"

definition limitForTenant :: "Limiter \<Rightarrow> string \<Rightarrow> Limit" where
  "limitForTenant l tenantID =
     (case lim_tenantLimits l tenantID of Some limit \<Rightarrow> limit | None \<Rightarrow> lim_defaultLimit l)"

definition retryAfterSeconds :: "int \<Rightarrow> f64 \<Rightarrow> int" where
  "retryAfterSeconds requestsPerMinute tokens =
     (if requestsPerMinute \<le> 0 then 60
      else
        (let seconds = f64_to_int (f64_mul (f64_div (f64_sub (Fin 1) tokens) (f64_of_int requestsPerMinute)) (Fin 60))
         in if seconds < 1 then 1 else seconds))"

text \<open>The bucket after the refill, before a token is taken.\<close>

definition refill :: "Limit \<Rightarrow> bucket option \<Rightarrow> time \<Rightarrow> bucket" where
  "refill limit stored now =
     (let current = (case stored of None \<Rightarrow> \<lparr>b_tokens = Fin 0, b_updated = 0\<rparr> | Some b \<Rightarrow> b);
          current = (if b_updated current = 0
                     then \<lparr>b_tokens = f64_of_int (l_Burst limit), b_updated = now\<rparr> else current);
          elapsed = Duration_Minutes (Time_Sub now (b_updated current));
          tokens = f64_add (b_tokens current) (f64_mul elapsed (f64_of_int (l_RequestsPerMinute limit)));
          tokens = (if f64_gt tokens (f64_of_int (l_Burst limit)) then f64_of_int (l_Burst limit) else tokens)
      in \<lparr>b_tokens = tokens, b_updated = now\<rparr>)"

definition Limiter_Allow :: "string \<Rightarrow> time \<Rightarrow> Limiter \<Rightarrow> RLDecision \<times> Limiter" where
  "Limiter_Allow tenant now l =
     (let tenantID = tenantOrDefault tenant;
          limit = limitForTenant l tenantID in
      if \<not> l_Enabled limit
      then (\<lparr>rd_Allowed = True, rd_Reason = [], rd_TenantID = tenantID, rd_RetryAfter = 0\<rparr>, l)
      else
        (let current = refill limit (lim_buckets l tenantID) now in
         if f64_ge (b_tokens current) (Fin 1)
         then
           (\<lparr>rd_Allowed = True, rd_Reason = [], rd_TenantID = tenantID, rd_RetryAfter = 0\<rparr>,
            l\<lparr>lim_buckets := (lim_buckets l)(tenantID \<mapsto>
                current\<lparr>b_tokens := f64_sub (b_tokens current) (Fin 1)\<rparr>)\<rparr>)
         else
           (\<lparr>rd_Allowed = False, rd_Reason = ''rate_limit_exceeded'', rd_TenantID = tenantID,
             rd_RetryAfter = retryAfterSeconds (l_RequestsPerMinute limit) (b_tokens current)\<rparr>,
            l\<lparr>lim_buckets := (lim_buckets l)(tenantID \<mapsto> current)\<rparr>)))"

section \<open>The limiter keeps tenants apart\<close>

text \<open>What the limiter knows of a tenant: its bucket and the limit that applies to it.\<close>

definition limiter_view :: "Limiter \<Rightarrow> string \<Rightarrow> bucket option \<times> Limit" where
  "limiter_view l t = (lim_buckets l t, limitForTenant l t)"

lemma limitForTenant_buckets [simp]: "limitForTenant (l\<lparr>lim_buckets := b\<rparr>) t = limitForTenant l t"
  by (simp add: limitForTenant_def split: option.split)

lemma limitForTenant_Allow [simp]: "limitForTenant (snd (Limiter_Allow t now l)) u = limitForTenant l u"
  by (simp add: Limiter_Allow_def Let_def)

interpretation limiter: tenant_isolation Limiter_Allow limiter_view "\<lambda>_. True"
proof
  show True ..
next
  fix t u :: string and now :: time and l :: Limiter
  assume "tenantOrDefault u \<noteq> tenantOrDefault t"
  then show "limiter_view (snd (Limiter_Allow t now l)) (tenantOrDefault u) = limiter_view l (tenantOrDefault u)"
    by (simp add: limiter_view_def Limiter_Allow_def Let_def)
next
  fix t u :: string and now :: time and l l' :: Limiter
  assume "limiter_view l (tenantOrDefault t) = limiter_view l' (tenantOrDefault t)"
    and "tenantOrDefault u = tenantOrDefault t"
  then show "fst (Limiter_Allow u now l) = fst (Limiter_Allow u now l') \<and>
      limiter_view (snd (Limiter_Allow u now l)) (tenantOrDefault t) =
      limiter_view (snd (Limiter_Allow u now l')) (tenantOrDefault t)"
    by (simp add: limiter_view_def Limiter_Allow_def Let_def)
qed

section \<open>Facts on elapsed time\<close>

lemma Time_Sub_bounds: "u \<le> t \<Longrightarrow> 0 \<le> Time_Sub t u \<and> Time_Sub t u \<le> max_duration"
  by (simp add: Time_Sub_def max_duration_def)

lemma Time_Sub_self [simp]: "Time_Sub t t = 0"
  by (simp add: Time_Sub_def max_duration_def)

lemma time_Minute_val: "time_Minute = 60000000000"
  by (simp add: time_Minute_def time_Second_def)

lemma Minutes_0 [simp]: "Duration_Minutes 0 = Fin 0"
  by (simp add: Duration_Minutes_def go_div_def go_mod_def f64_of_int_def)

lemma Minutes_finite:
  assumes "0 \<le> d" and "d \<le> max_duration"
  shows "\<exists>x. Duration_Minutes d = Fin x \<and> 0 \<le> x"
proof -
  define q r where "q = d div time_Minute" and "r = d mod time_Minute"
  have q: "0 \<le> q" "q \<le> 2 ^ 53" and r: "0 \<le> r" "r < 60000000000"
    using assms by (auto simp: q_def r_def time_Minute_val max_duration_def)
  have fq: "f64_of_int q = Fin (of_int q)" and fr: "f64_of_int r = Fin (of_int r)"
    using q r by (auto intro!: f64_of_int_exact)
  define y :: rat where "y = of_int r / 60000000000"
  have y: "0 \<le> y" "y \<le> 1" using r by (auto simp: y_def)
  have "rnd 1 = 1" using rnd_of_int [of 1] by simp
  then have ry: "0 \<le> rnd y" "rnd y \<le> 1" using y rnd_nonneg rnd_mono [of y 1] by auto
  have fy: "fl y = Fin (rnd y)"
    using y by (intro fl_finite_small) simp
  have "(of_int q :: rat) \<le> of_int (2 ^ 53)" using q by (simp only: of_int_le_iff)
  then have "fl (of_int q + rnd y) = Fin (rnd (of_int q + rnd y))"
    using q ry by (intro fl_finite_small) simp
  moreover have "0 \<le> rnd (of_int q + rnd y)" using q ry by (intro rnd_nonneg) simp
  ultimately show ?thesis
    using assms by (simp add: Duration_Minutes_def go_div_nonneg go_mod_nonneg time_Minute_val
        q_def [unfolded time_Minute_val, symmetric] r_def [unfolded time_Minute_val, symmetric] fq fr y_def [symmetric] fy)
qed

lemma Minutes_ge_1:
  assumes "time_Minute \<le> d" and "d \<le> max_duration"
  shows "f64_le (Fin 1) (Duration_Minutes d)"
proof -
  have d: "0 \<le> d" using assms by (simp add: time_Minute_val)
  have q: "1 \<le> d div time_Minute" using assms by (simp add: time_Minute_val)
  have "f64_le (Fin 1) (f64_of_int (d div time_Minute))"
    using f64_of_int_mono [OF q] by (simp add: f64_of_int_def)
  moreover have "f64_le (Fin 0) (f64_div (f64_of_int (d mod time_Minute)) (Fin 60000000000))"
    using f64_div_mono [of "Fin 0" "f64_of_int (d mod time_Minute)" 60000000000]
      f64_of_int_nonneg [of "d mod time_Minute"] by (simp add: time_Minute_val)
  ultimately show ?thesis
    using f64_add_ge [of 1 _ 0] d by (simp add: Duration_Minutes_def go_div_nonneg go_mod_nonneg time_Minute_val)
qed

section \<open>The bucket invariant\<close>

text \<open>
  A bucket of a tenant with limit \<open>limit\<close> at an instant not after \<open>now\<close>: its contents lie between zero and
  the burst size.
\<close>

definition bucket_ok :: "Limit \<Rightarrow> time \<Rightarrow> bucket \<Rightarrow> bool" where
  "bucket_ok limit now b \<longleftrightarrow> f64_ok (b_tokens b) \<and> f64_le (Fin 0) (b_tokens b)
     \<and> f64_le (b_tokens b) (f64_of_int (l_Burst limit)) \<and> 0 < b_updated b \<and> b_updated b \<le> now"

definition limit_ok :: "Limit \<Rightarrow> bool" where
  "limit_ok limit \<longleftrightarrow> 0 \<le> l_RequestsPerMinute limit \<and> 0 \<le> l_Burst limit
     \<and> in_int64 (l_RequestsPerMinute limit) \<and> in_int64 (l_Burst limit)"

definition limiter_ok :: "time \<Rightarrow> Limiter \<Rightarrow> bool" where
  "limiter_ok now l \<longleftrightarrow> (\<forall>t. limit_ok (limitForTenant l t))
     \<and> (\<forall>t b. lim_buckets l t = Some b \<longrightarrow> bucket_ok (limitForTenant l t) now b)"

lemma f64_sub_1:
  assumes "f64_ok a" and "f64_le (Fin 1) a"
  shows "f64_le (Fin 0) (f64_sub a (Fin 1)) \<and> f64_le (f64_sub a (Fin 1)) a \<and> f64_ok (f64_sub a (Fin 1))"
proof (cases a)
  case (Fin x)
  with assms have "fl x = Fin x" and "1 \<le> x" by (auto simp: fl_ok)
  with Fin show ?thesis
    using fl_mono [of 0 "x - 1"] fl_mono [of "x - 1" x] by (simp add: f64_sub_def)
qed (use assms in \<open>auto simp: f64_sub_def\<close>)

lemma f64_of_int64: "in_int64 n \<Longrightarrow> f64_of_int n = Fin (rnd (of_int n))"
proof -
  assume "in_int64 n"
  then have "\<bar>n\<bar> \<le> 2 ^ 64" by (auto simp: in_int64_def abs_le_iff)
  then have "(of_int \<bar>n\<bar> :: rat) \<le> of_int (2 ^ 64)" by (simp only: of_int_le_iff)
  then show ?thesis unfolding f64_of_int_def by (intro fl_finite_small) simp
qed

lemma earned_nonneg:
  assumes "limit_ok limit" and "u \<le> now"
  shows "f64_le (Fin 0) (f64_mul (Duration_Minutes (Time_Sub now u)) (f64_of_int (l_RequestsPerMinute limit)))"
proof -
  obtain e where e: "Duration_Minutes (Time_Sub now u) = Fin e" "0 \<le> e"
    using Minutes_finite Time_Sub_bounds [OF assms(2)] by blast
  have "f64_of_int (l_RequestsPerMinute limit) = Fin (rnd (of_int (l_RequestsPerMinute limit)))"
    using assms(1) by (intro f64_of_int64) (simp add: limit_ok_def)
  moreover have "0 \<le> rnd (of_int (l_RequestsPerMinute limit))"
    using assms(1) by (intro rnd_nonneg) (simp add: limit_ok_def)
  ultimately show ?thesis using e fl_mono [of 0 "e * rnd (of_int (l_RequestsPerMinute limit))"] by simp
qed

text \<open>The bucket that a refill starts from: the stored one or a full one.\<close>

definition start_bucket :: "Limit \<Rightarrow> bucket option \<Rightarrow> time \<Rightarrow> bucket" where
  "start_bucket limit stored now =
     (case stored of
        Some b \<Rightarrow> if b_updated b = 0 then \<lparr>b_tokens = f64_of_int (l_Burst limit), b_updated = now\<rparr> else b
      | None \<Rightarrow> \<lparr>b_tokens = f64_of_int (l_Burst limit), b_updated = now\<rparr>)"

lemma refill_start:
  "refill limit stored now =
     (let b = start_bucket limit stored now;
          tokens = f64_add (b_tokens b)
            (f64_mul (Duration_Minutes (Time_Sub now (b_updated b))) (f64_of_int (l_RequestsPerMinute limit)))
      in \<lparr>b_tokens = (if f64_gt tokens (f64_of_int (l_Burst limit)) then f64_of_int (l_Burst limit) else tokens),
          b_updated = now\<rparr>)"
  by (simp add: refill_def start_bucket_def Let_def split: option.split)

lemma start_bucket_ok:
  assumes "limit_ok limit" and "0 < now" and "now' \<le> now"
    and "\<And>b. stored = Some b \<Longrightarrow> bucket_ok limit now' b"
  shows "bucket_ok limit now (start_bucket limit stored now)"
  using assms f64_of_int_nonneg [of "l_Burst limit"]
  by (fastforce simp: start_bucket_def bucket_ok_def limit_ok_def split: option.split)

lemma refill_ok:
  assumes lim: "limit_ok limit" and now: "0 < now" "now' \<le> now"
    and st: "\<And>b. stored = Some b \<Longrightarrow> bucket_ok limit now' b"
  shows "bucket_ok limit now (refill limit stored now)"
proof -
  define b where "b = start_bucket limit stored now"
  have b: "bucket_ok limit now b" unfolding b_def by (rule start_bucket_ok [OF lim now st])
  define earned where
    "earned = f64_mul (Duration_Minutes (Time_Sub now (b_updated b))) (f64_of_int (l_RequestsPerMinute limit))"
  have "f64_le (Fin 0) earned" unfolding earned_def using b by (intro earned_nonneg lim) (simp add: bucket_ok_def)
  moreover have "f64_le (Fin 0) (b_tokens b)" using b by (simp add: bucket_ok_def)
  ultimately have sum: "f64_le (Fin 0) (f64_add (b_tokens b) earned)" by (simp add: f64_add_nonneg)
  then have "f64_add (b_tokens b) earned \<noteq> NaN" by (cases "f64_add (b_tokens b) earned") auto
  with sum lim now show ?thesis
    using f64_of_int_nonneg [of "l_Burst limit"] f64_le_total
    by (auto simp: refill_start b_def [symmetric] earned_def [symmetric] Let_def bucket_ok_def limit_ok_def f64_lt_iff)
qed

lemma bucket_ok_take:
  "bucket_ok limit now b \<Longrightarrow> f64_ge (b_tokens b) (Fin 1) \<Longrightarrow>
   bucket_ok limit now (b\<lparr>b_tokens := f64_sub (b_tokens b) (Fin 1)\<rparr>)"
  using f64_sub_1 [of "b_tokens b"] f64_le_trans by (fastforce simp: bucket_ok_def)

lemma bucket_ok_later: "bucket_ok limit now b \<Longrightarrow> now \<le> now' \<Longrightarrow> bucket_ok limit now' b"
  by (simp add: bucket_ok_def)

lemma Limiter_Allow_ok:
  assumes "limiter_ok now l" and "now \<le> now'" and "0 < now'"
  shows "limiter_ok now' (snd (Limiter_Allow t now' l))"
proof -
  have "bucket_ok (limitForTenant l (tenantOrDefault t)) now'
      (refill (limitForTenant l (tenantOrDefault t)) (lim_buckets l (tenantOrDefault t)) now')"
    using assms by (intro refill_ok [of _ _ now]) (auto simp: limiter_ok_def)
  moreover have "lim_buckets l u = Some b \<Longrightarrow> bucket_ok (limitForTenant l u) now' b" for u b
    using assms bucket_ok_later [of _ now b now'] by (simp add: limiter_ok_def)
  ultimately show ?thesis
    using assms by (auto simp: limiter_ok_def Limiter_Allow_def Let_def bucket_ok_take split: if_splits)
qed

section \<open>Limits from the configuration\<close>

definition rate_limit_typed :: "RateLimitConfig \<Rightarrow> bool" where
  "rate_limit_typed r \<longleftrightarrow> in_int64 (rc_RequestsPerMinute r) \<and> in_int64 (rc_Burst r)"

lemma limitForTenant_New:
  "limitForTenant (Limiter_New cfg ts) t =
     (case find (\<lambda>x. tc_ID x = t) (rev ts) of
        None \<Rightarrow> limitFromConfig cfg
      | Some x \<Rightarrow> mergeLimit (limitFromConfig cfg) (limitFromConfig (tc_RateLimit x)))"
  by (simp add: limitForTenant_def Limiter_New_def Let_def foldl_map_upd_last split: option.split)

lemma limit_ok_config: "rate_limit_ok r \<Longrightarrow> rate_limit_typed r \<Longrightarrow> limit_ok (limitFromConfig r)"
  by (simp add: limit_ok_def limitFromConfig_def rate_limit_ok_def rate_limit_typed_def)

lemma limit_ok_merge: "limit_ok a \<Longrightarrow> limit_ok b \<Longrightarrow> limit_ok (mergeLimit a b)"
  by (simp add: limit_ok_def mergeLimit_def Let_def)

lemma buckets_New [simp]: "lim_buckets (Limiter_New cfg ts) = Map.empty"
  by (simp add: Limiter_New_def Let_def)

lemma limiter_ok_New:
  assumes "rate_limit_ok cfg" "rate_limit_typed cfg"
    and "list_all (\<lambda>t. rate_limit_ok (tc_RateLimit t) \<and> rate_limit_typed (tc_RateLimit t)) ts"
  shows "limiter_ok now (Limiter_New cfg ts)"
  using assms
  by (auto simp: limiter_ok_def limitForTenant_New list_all_iff intro!: limit_ok_config limit_ok_merge split: option.split dest!: find_SomeD)

section \<open>Runs of the limiter\<close>

text \<open>
  The states a limiter built from a configuration reaches while its clock does not go back: any tenants
  in any order.
\<close>

inductive limiter_reach :: "RateLimitConfig \<Rightarrow> TenantConfig list \<Rightarrow> Limiter \<Rightarrow> time \<Rightarrow> bool"
  for cfg ts where
  limiter_start: "0 < now \<Longrightarrow> limiter_reach cfg ts (Limiter_New cfg ts) now"
| limiter_allow: "limiter_reach cfg ts l now \<Longrightarrow> now \<le> now' \<Longrightarrow>
    limiter_reach cfg ts (snd (Limiter_Allow t now' l)) now'"

lemma limiter_reach_now: "limiter_reach cfg ts l now \<Longrightarrow> 0 < now"
  by (induction rule: limiter_reach.induct) auto

lemma limiter_reach_ok:
  assumes "limiter_reach cfg ts l now" and "limiter_ok 0 (Limiter_New cfg ts)"
  shows "limiter_ok now l"
  using assms(1)
proof (induction rule: limiter_reach.induct)
  case (limiter_start now)
  then show ?case using assms(2) by (simp add: limiter_ok_def)
next
  case (limiter_allow l now now' t)
  then show ?case by (intro Limiter_Allow_ok) (auto dest: limiter_reach_now)
qed

text \<open>C11: in every state a limiter built from a valid configuration reaches while its clock does not go
  back, every bucket holds at least zero and at most its tenant's burst size, so no tenant can save up
  more than one burst and none goes into debt. This holds for the binary64 arithmetic with its rounding.\<close>

theorem bucket_within_burst:
  assumes "limiter_reach cfg ts l now"
    and "rate_limit_ok cfg" "rate_limit_typed cfg"
    and "list_all (\<lambda>t. rate_limit_ok (tc_RateLimit t) \<and> rate_limit_typed (tc_RateLimit t)) ts"
    and "lim_buckets l t = Some b"
  shows "f64_le (Fin 0) (b_tokens b) \<and> f64_le (b_tokens b) (f64_of_int (l_Burst (limitForTenant l t)))"
  using limiter_reach_ok [OF assms(1) limiter_ok_New [OF assms(2-4)]] assms(5)
  by (simp add: limiter_ok_def bucket_ok_def)

definition rl_example :: RateLimitConfig where
  "rl_example = \<lparr>rc_Enabled = True, rc_RequestsPerMinute = 40, rc_Burst = 1\<rparr>"

theorem bucket_within_burst_witness:
  "\<exists>b. lim_buckets (snd (Limiter_Allow ''acme'' 5 (Limiter_New rl_example []))) ''acme'' = Some b
     \<and> f64_le (Fin 0) (b_tokens b) \<and> f64_le (b_tokens b) (f64_of_int 1)"
proof -
  let ?l = "snd (Limiter_Allow ''acme'' 5 (Limiter_New rl_example []))"
  have "limiter_reach rl_example [] ?l 5"
    by (intro limiter_allow [of _ _ _ 1] limiter_start) auto
  moreover have b: "lim_buckets ?l ''acme'' = Some \<lparr>b_tokens = Fin 0, b_updated = 5\<rparr>" by code_simp
  ultimately show ?thesis
    using bucket_within_burst [of rl_example "[]" ?l 5 "''acme''" "\<lparr>b_tokens = Fin 0, b_updated = 5\<rparr>"]
    by (simp add: rate_limit_ok_def rate_limit_typed_def rl_example_def in_int64_def limitForTenant_New limitFromConfig_def)
qed

subsection \<open>A burst at one instant\<close>

lemma refill_same_instant:
  assumes "limit_ok limit" and "l_Burst limit \<le> 2 ^ 53" and "0 \<le> k" "k \<le> l_Burst limit" and "now \<noteq> 0"
  shows "refill limit (Some \<lparr>b_tokens = Fin (of_int k), b_updated = now\<rparr>) now =
    \<lparr>b_tokens = Fin (of_int k), b_updated = now\<rparr>"
proof -
  have B: "f64_of_int (l_Burst limit) = Fin (of_int (l_Burst limit))"
    using assms by (intro f64_of_int_exact) simp
  have "fl (of_int k) = Fin (of_int k)"
    using assms f64_of_int_exact [of k] by (simp add: f64_of_int_def)
  then show ?thesis
    using assms by (simp add: refill_def Let_def B f64_of_int64 limit_ok_def)
qed

lemma refill_fresh:
  assumes "limit_ok limit" and "l_Burst limit \<le> 2 ^ 53" and "now \<noteq> 0"
  shows "refill limit None now = \<lparr>b_tokens = Fin (of_int (l_Burst limit)), b_updated = now\<rparr>"
proof -
  have "f64_of_int (l_Burst limit) = Fin (of_int (l_Burst limit))"
    using assms by (intro f64_of_int_exact) (simp add: limit_ok_def)
  then have "refill limit None now = refill limit (Some \<lparr>b_tokens = Fin (of_int (l_Burst limit)), b_updated = now\<rparr>) now"
    using assms by (simp add: refill_def)
  then show ?thesis using assms by (simp add: refill_same_instant limit_ok_def)
qed

text \<open>The bucket stores \<open>k\<close> tokens, or is not there yet and \<open>k\<close> is the burst size.\<close>

definition has_tokens :: "Limiter \<Rightarrow> string \<Rightarrow> time \<Rightarrow> int \<Rightarrow> bool" where
  "has_tokens l t now k \<longleftrightarrow>
     lim_buckets l t = Some \<lparr>b_tokens = Fin (of_int k), b_updated = now\<rparr>
     \<or> lim_buckets l t = None \<and> k = l_Burst (limitForTenant l t)"

lemma burst_run:
  assumes "has_tokens l (tenantOrDefault t) now k" and "0 \<le> k"
    and "k \<le> l_Burst (limitForTenant l (tenantOrDefault t))"
    and "l_Burst (limitForTenant l (tenantOrDefault t)) \<le> 2 ^ 53"
    and "limit_ok (limitForTenant l (tenantOrDefault t))"
    and "l_Enabled (limitForTenant l (tenantOrDefault t))" and "now \<noteq> 0"
  shows "map (\<lambda>(_, d). rd_Allowed d) (tenant_run Limiter_Allow (replicate n (t, now)) l) =
    replicate (min n (nat k)) True @ replicate (n - nat k) False"
  using assms
proof (induction n arbitrary: l k)
  case 0
  then show ?case by simp
next
  case (Suc n)
  define limit where "limit = limitForTenant l (tenantOrDefault t)"
  have ref: "refill limit (lim_buckets l (tenantOrDefault t)) now = \<lparr>b_tokens = Fin (of_int k), b_updated = now\<rparr>"
    using Suc.prems by (auto simp: has_tokens_def limit_def refill_same_instant refill_fresh)
  have k: "\<bar>k - 1\<bar> \<le> 2 ^ 53" using Suc.prems by simp
  have dec: "f64_sub (Fin (of_int k)) (Fin 1) = Fin (of_int (k - 1))"
    using f64_of_int_exact [OF k] by (simp add: f64_sub_def f64_of_int_def)
  define l' where "l' = snd (Limiter_Allow t now l)"
  have lim': "limitForTenant l' u = limitForTenant l u" for u by (simp add: l'_def)
  have run: "map (\<lambda>(_, d). rd_Allowed d) (tenant_run Limiter_Allow (replicate (Suc n) (t, now)) l) =
      (1 \<le> k) # map (\<lambda>(_, d). rd_Allowed d) (tenant_run Limiter_Allow (replicate n (t, now)) l')"
    using Suc.prems(6) by (simp add: l'_def Limiter_Allow_def Let_def limit_def [symmetric] ref)
  have "has_tokens l' (tenantOrDefault t) now (if 1 \<le> k then k - 1 else k)"
    using Suc.prems(6) dec by (simp add: has_tokens_def l'_def Limiter_Allow_def Let_def limit_def [symmetric] ref)
  then have IH: "map (\<lambda>(_, d). rd_Allowed d) (tenant_run Limiter_Allow (replicate n (t, now)) l') =
      replicate (min n (nat (if 1 \<le> k then k - 1 else k))) True @ replicate (n - nat (if 1 \<le> k then k - 1 else k)) False"
    using Suc.IH [of l' "if 1 \<le> k then k - 1 else k"] Suc.prems by (simp add: lim')
  show ?case
  proof (cases "1 \<le> k")
    case True
    then have "nat k = Suc (nat (k - 1))" by simp
    with True show ?thesis unfolding run IH by simp
  next
    case False
    then have "nat k = 0" using Suc.prems by simp
    with False show ?thesis unfolding run IH by simp
  qed
qed

text \<open>C26: a tenant that has not been seen yet and whose limit has burst size \<open>B\<close> gets exactly \<open>B\<close> of any
  number of requests made at one instant admitted, the first ones, and every later one refused.\<close>

theorem burst_exact:
  fixes l :: Limiter and t :: string
  defines "limit \<equiv> limitForTenant l (tenantOrDefault t)"
  assumes "lim_buckets l (tenantOrDefault t) = None" and "l_Enabled limit" and "limit_ok limit"
    and "l_Burst limit \<le> 2 ^ 53" and "now \<noteq> 0"
  shows "map (\<lambda>(_, d). rd_Allowed d) (tenant_run Limiter_Allow (replicate n (t, now)) l) =
    replicate (min n (nat (l_Burst limit))) True @ replicate (n - nat (l_Burst limit)) False"
  using assms by (intro burst_run) (auto simp: has_tokens_def limit_ok_def)

theorem burst_exact_witness:
  "map (\<lambda>(_, d). rd_Allowed d)
     (tenant_run Limiter_Allow (replicate 12 ([], 5)) (Limiter_New (cfg_RateLimit Default) [])) =
   replicate 10 True @ replicate 2 False"
  using burst_exact [of "Limiter_New (cfg_RateLimit Default) []" "[]" 5 12]
  by (simp add: limitForTenant_New limitFromConfig_def Default_def limit_ok_def in_int64_def)

subsection \<open>Progress\<close>

lemma f64_ge_1_min:
  "f64_le (Fin 1) a \<Longrightarrow> f64_le (Fin 1) b \<Longrightarrow> f64_le (Fin 1) (if f64_gt a b then b else a)"
  by simp

lemma refill_after_minute:
  assumes lim: "limit_ok limit" "1 \<le> l_RequestsPerMinute limit" "1 \<le> l_Burst limit"
    and b: "bucket_ok limit now' b" and later: "b_updated b + time_Minute \<le> now"
  shows "f64_le (Fin 1) (b_tokens (refill limit (Some b) now))"
proof -
  have "now - b_updated b \<ge> time_Minute" using later by simp
  then have "time_Minute \<le> Time_Sub now (b_updated b)" and "Time_Sub now (b_updated b) \<le> max_duration"
    by (auto simp: Time_Sub_def max_duration_def time_Minute_val)
  then have "f64_le (Fin 1) (Duration_Minutes (Time_Sub now (b_updated b)))" by (rule Minutes_ge_1)
  moreover have one: "1 \<le> n \<Longrightarrow> f64_le (Fin 1) (f64_of_int n)" for n
    using f64_of_int_mono [of 1 n] by (simp add: f64_of_int_def)
  ultimately have "f64_le (Fin 1)
      (f64_mul (Duration_Minutes (Time_Sub now (b_updated b))) (f64_of_int (l_RequestsPerMinute limit)))"
    using lim by (intro f64_mul_ge_1) auto
  then have "f64_le (Fin 1) (f64_add (b_tokens b)
      (f64_mul (Duration_Minutes (Time_Sub now (b_updated b))) (f64_of_int (l_RequestsPerMinute limit))))"
    using f64_add_ge [of 0 "b_tokens b" 1] b by (simp add: bucket_ok_def)
  then show ?thesis
    using lim b one by (simp add: refill_start start_bucket_def Let_def bucket_ok_def)
qed

text \<open>C27: progress. In every reachable state, a tenant whose limit allows at least one request per minute
  and a burst of at least one, and which has made no request for a minute (or never), is admitted.\<close>

theorem admitted_after_minute:
  assumes "limiter_reach cfg ts l now"
    and "rate_limit_ok cfg" "rate_limit_typed cfg"
    and "list_all (\<lambda>t. rate_limit_ok (tc_RateLimit t) \<and> rate_limit_typed (tc_RateLimit t)) ts"
    and "1 \<le> l_RequestsPerMinute (limitForTenant l (tenantOrDefault t))"
    and "1 \<le> l_Burst (limitForTenant l (tenantOrDefault t))"
    and "\<And>b. lim_buckets l (tenantOrDefault t) = Some b \<Longrightarrow> b_updated b + time_Minute \<le> now'"
    and "now \<le> now'"
  shows "rd_Allowed (fst (Limiter_Allow t now' l))"
proof -
  let ?limit = "limitForTenant l (tenantOrDefault t)"
  have ok: "limiter_ok now l" by (rule limiter_reach_ok [OF assms(1) limiter_ok_New [OF assms(2-4)]])
  then have lim: "limit_ok ?limit" by (simp add: limiter_ok_def)
  have "f64_le (Fin 1) (b_tokens (refill ?limit (lim_buckets l (tenantOrDefault t)) now'))"
  proof (cases "lim_buckets l (tenantOrDefault t)")
    case None
    have "f64_le (Fin 1) (f64_of_int (l_Burst ?limit))"
      using f64_of_int_mono [of 1 "l_Burst ?limit"] assms(6) by (simp add: f64_of_int_def)
    then show ?thesis
      using None earned_nonneg [OF lim, of now' now'] f64_add_ge [of 1 "f64_of_int (l_Burst ?limit)" 0]
      by (simp add: refill_start start_bucket_def Let_def)
  next
    case (Some b)
    then show ?thesis
      using ok lim assms(5-7) by (auto intro!: refill_after_minute [of _ now] simp: limiter_ok_def)
  qed
  then show ?thesis by (simp add: Limiter_Allow_def Let_def)
qed

theorem admitted_after_minute_witness:
  "rd_Allowed (fst (Limiter_Allow ''acme'' (5 + time_Minute) (snd (Limiter_Allow ''acme'' 5 (Limiter_New rl_example [])))))"
proof -
  let ?l = "snd (Limiter_Allow ''acme'' 5 (Limiter_New rl_example []))"
  have "limiter_reach rl_example [] ?l 5"
    by (intro limiter_allow [of _ _ _ 1] limiter_start) auto
  moreover have "lim_buckets ?l ''acme'' = Some \<lparr>b_tokens = Fin 0, b_updated = 5\<rparr>" by code_simp
  ultimately show ?thesis
    by (intro admitted_after_minute [of rl_example "[]" _ 5])
      (auto simp: rate_limit_ok_def rate_limit_typed_def rl_example_def in_int64_def limitForTenant_New
        limitFromConfig_def tenantOrDefault_def time_Minute_val)
qed

subsection \<open>Isolation\<close>

text \<open>C13: in any sequence of requests of any tenants at any instants, from any state of the limiter, a
  tenant gets the decisions (retry hints included) that it would get if the other tenants made no
  requests at all.\<close>

theorem limiter_noninterference:
  "of_tenant t (tenant_run Limiter_Allow es l) = tenant_run Limiter_Allow (of_tenant t es) l"
  by (rule limiter.noninterference) simp

subsection \<open>The retry hint\<close>

text \<open>What an empty bucket has earned after a whole number of seconds.\<close>

definition earned_after :: "int \<Rightarrow> int \<Rightarrow> f64" where
  "earned_after seconds rpm = f64_add (Fin 0) (f64_mul (Duration_Minutes (seconds * time_Second)) (f64_of_int rpm))"

definition hint_facts :: "int \<Rightarrow> bool" where
  "hint_facts rpm \<longleftrightarrow> retryAfterSeconds rpm (Fin 0) = 60 div rpm \<and> (f64_ge (earned_after (60 div rpm) rpm) (Fin 1) \<longleftrightarrow> 60 mod rpm = 0) \<and>
     f64_ge (earned_after (60 div rpm + 1) rpm) (Fin 1)"

lemma fl_Fin: "0 \<le> x \<Longrightarrow> x \<le> 100 \<Longrightarrow> fl x = Fin (rnd x)"
  by (rule fl_finite_small) simp

lemma f64_of_seconds: "0 \<le> k \<Longrightarrow> k \<le> 61000000000 \<Longrightarrow> f64_of_int k = Fin (of_int k)"
  by (rule f64_of_int_exact) simp

lemma earned_after_seconds:
  assumes "0 \<le> k" and "k < 60" and "0 < rpm" and "rpm \<le> 60"
  shows "earned_after k rpm = Fin (rnd (rnd (of_int k / 60) * of_int rpm))"
proof -
  have k: "(0 :: rat) \<le> of_int k / 60" "of_int k / 60 \<le> (1 :: rat)" using assms by simp_all
  have r: "0 \<le> rnd (of_int k / 60)" "rnd (of_int k / 60) \<le> 1"
    using rnd_nonneg [OF k(1)] rnd_mono [OF k(2)] rnd_of_int [of 1] by simp_all
  have "0 \<le> k * 1000000000" "k * 1000000000 < 60000000000" using assms by simp_all
  then have q: "go_div (k * time_Second) time_Minute = 0" "go_mod (k * time_Second) time_Minute = k * 1000000000"
    by (simp_all add: time_Minute_val time_Second_def go_div_nonneg go_mod_nonneg)
  have "(of_int (k * 1000000000) :: rat) / 60000000000 = of_int k / 60" by simp
  then have "f64_div (f64_of_int (k * 1000000000)) (Fin 60000000000) = Fin (rnd (of_int k / 60))"
    using assms k fl_Fin [of "of_int k / 60"] by (simp add: f64_of_seconds)
  then have d: "Duration_Minutes (k * time_Second) = Fin (rnd (of_int k / 60))"
    using r fl_Fin [of "rnd (of_int k / 60)"] by (simp add: Duration_Minutes_def q f64_of_int_def)
  have "rnd (of_int k / 60) * of_int rpm \<le> 1 * 60" using r assms by (intro mult_mono) auto
  moreover have "0 \<le> rnd (of_int k / 60) * of_int rpm" using r assms by simp
  ultimately have "fl (rnd (of_int k / 60) * of_int rpm) = Fin (rnd (rnd (of_int k / 60) * of_int rpm))" by (intro fl_Fin) auto
  then show ?thesis using assms
    by (simp add: earned_after_def d f64_of_seconds) (metis fl_ok f64_ok_fl)
qed

lemma rnd_error_simple:
  assumes "1 / 1000 \<le> x"
  shows "x * (9999 / 10000) \<le> rnd x" and "rnd x \<le> x * (10001 / 10000)"
proof -
  have "(2 powi (- 1000) :: rat) \<le> 2 powi (- 10)" by (rule powi2_mono) simp
  also have "\<dots> \<le> 1 / 1000" by (simp add: power_int_minus)
  finally have x: "2 powi (- 1000) \<le> x" using assms by simp
  have "x * (9999 / 10000) \<le> x * (1 - 1 / 2 ^ 53)" "x * (1 + 1 / 2 ^ 53) \<le> x * (10001 / 10000)"
    using assms by (intro mult_left_mono; simp)+
  then show "x * (9999 / 10000) \<le> rnd x" "rnd x \<le> x * (10001 / 10000)" using rnd_error [OF x] by linarith+
qed

text \<open>Two roundings in a row.\<close>

lemma rnd_twice:
  assumes "1 / 100 \<le> x" and "1 \<le> m"
  shows "x * m * (9998 / 10000) \<le> rnd (rnd x * m)" and "rnd (rnd x * m) \<le> x * m * (10003 / 10000)"
proof -
  have "1 / 1000 \<le> x" using assms by simp
  note e = rnd_error_simple [OF this]
  have r: "1 / 1000 \<le> rnd x" using e(1) assms(1) by simp
  have "rnd x * 1 \<le> rnd x * m" using r assms(2) by (intro mult_left_mono) auto
  then have "1 / 1000 \<le> rnd x * m" using r by linarith
  note e' = rnd_error_simple [OF this]
  have "x * (9999 / 10000) * m \<le> rnd x * m" "rnd x * m \<le> x * (10001 / 10000) * m"
    using e assms(2) by (auto intro: mult_right_mono)
  then have lo: "x * m * (9999 / 10000) \<le> rnd x * m" and hi: "rnd x * m \<le> x * m * (10001 / 10000)" by (simp_all add: mult.assoc mult.commute)
  have "0 \<le> x * m" using assms by simp
  then show "x * m * (9998 / 10000) \<le> rnd (rnd x * m)" "rnd (rnd x * m) \<le> x * m * (10003 / 10000)"
    using lo hi e' by simp_all
qed

text \<open>The divisors of sixty, evaluated.\<close>

definition hint_divides :: "int \<Rightarrow> bool" where
  "hint_divides rpm \<longleftrightarrow> rnd (rnd (1 / of_int rpm) * 60) = of_int (60 div rpm) \<and> 1 \<le> rnd (rnd (of_int (60 div rpm) / 60) * of_int rpm)"

lemma hint_divisors: "list_all hint_divides [2, 3, 4, 5, 6, 10, 12, 15, 20, 30, 60]"
  by code_simp

lemma divisors_60: "2 \<le> rpm \<Longrightarrow> rpm \<le> 60 \<Longrightarrow> 60 mod rpm = 0 \<Longrightarrow> rpm \<in> set [2, 3, 4, 5, 6, 10, 12, 15, 20, 30, 60 :: int]"
proof -
  have "list_all (\<lambda>r :: int. 60 mod r = 0 \<longrightarrow> r \<in> set [2, 3, 4, 5, 6, 10, 12, 15, 20, 30, 60]) [2..60]" by code_simp
  then have "\<forall>r \<in> set [2..60]. 60 mod r = 0 \<longrightarrow> r \<in> set [2, 3, 4, 5, 6, 10, 12, 15, 20, 30, 60 :: int]" unfolding list_all_iff .
  then show "2 \<le> rpm \<Longrightarrow> rpm \<le> 60 \<Longrightarrow> 60 mod rpm = 0 \<Longrightarrow> ?thesis" unfolding set_upto by auto
qed

lemma sixty_div:
  assumes "2 \<le> rpm"
  shows "61 \<le> (of_int (60 div rpm) + 1) * (of_int rpm :: rat)"
    and "60 mod rpm \<noteq> 0 \<Longrightarrow> of_int (60 div rpm) * of_int rpm \<le> (59 :: rat)"
proof -
  have eq: "60 div rpm * rpm + 60 mod rpm = 60" by simp
  note m = pos_mod_sign [of rpm 60] pos_mod_bound [of rpm 60]
  have "61 \<le> (60 div rpm + 1) * rpm" using eq m assms unfolding distrib_right by linarith
  then have "(of_int 61 :: rat) \<le> of_int ((60 div rpm + 1) * rpm)" by (simp only: of_int_le_iff)
  then show "61 \<le> (of_int (60 div rpm) + 1) * (of_int rpm :: rat)" by simp
  assume "60 mod rpm \<noteq> 0"
  then have "60 div rpm * rpm \<le> 59" using eq m assms by linarith
  then have "of_int (60 div rpm * rpm) \<le> (of_int 59 :: rat)" by (simp only: of_int_le_iff)
  then show "of_int (60 div rpm) * of_int rpm \<le> (59 :: rat)" by simp
qed

lemma hint_value:
  assumes "2 \<le> rpm" and "rpm \<le> 60"
  shows "retryAfterSeconds rpm (Fin 0) = 60 div rpm"
proof -
  define v where "v = rnd (rnd (1 / of_int rpm) * 60)"
  have x: "1 / 100 \<le> (1 / of_int rpm :: rat)" "1 / of_int rpm \<le> (1 :: rat)" using assms by (simp_all add: field_simps)
  note v2 = rnd_twice [OF x(1), of 60, folded v_def]
  have h: "1 \<le> 60 div rpm" "60 div rpm \<le> 30" using assms zdiv_mono2 [of 60 2 rpm] by (simp_all add: pos_imp_zdiv_pos_iff int_one_le_iff_zero_less)
  have "\<lfloor>v\<rfloor> = 60 div rpm"
  proof (cases "60 mod rpm = 0")
    case True
    then have "hint_divides rpm" using bspec [OF hint_divisors [unfolded list_all_iff] divisors_60 [OF assms True]] by simp
    then show ?thesis by (simp add: hint_divides_def v_def)
  next
    case False
    define H R :: rat where "H = of_int (60 div rpm)" and "R = of_int rpm"
    have "H * R \<le> 59" "61 \<le> (H + 1) * R" using sixty_div [OF assms(1)] False by (simp_all add: H_def R_def)
    moreover have R: "0 < R" using assms by (simp add: R_def)
    moreover have "59 < v * R" "v * R < 61" using v2 assms by (simp_all add: R_def field_simps)
    ultimately have "H * R < v * R" "v * R < (H + 1) * R" by linarith+
    then have "H < v" "v < H + 1" using R by (simp_all add: mult_less_cancel_right_pos)
    then show ?thesis unfolding H_def by (intro floor_unique) auto
  qed
  moreover have r: "0 \<le> rnd (1 / of_int rpm)" "rnd (1 / of_int rpm) \<le> 1"
    using rnd_nonneg [of "1 / of_int rpm"] rnd_mono [OF x(2)] rnd_of_int [of 1] assms by simp_all
  moreover have "0 \<le> v" unfolding v_def using r by (intro rnd_nonneg) simp
  moreover have "fl (1 / of_int rpm) = Fin (rnd (1 / of_int rpm))" using x by (intro fl_Fin) linarith+
  ultimately show ?thesis
    using h assms fl_Fin [of "rnd (1 / of_int rpm) * 60"]
    by (simp add: retryAfterSeconds_def f64_sub_def f64_of_seconds Let_def v_def [symmetric] trunc_rat_def in_int64_def)
qed

lemma hint_facts_hold:
  assumes "1 \<le> rpm" and "rpm \<le> 60"
  shows "hint_facts rpm"
proof (cases "rpm = 1")
  case True
  have "hint_facts 1" by code_simp
  then show ?thesis using True by simp
next
  case False
  then have rpm: "2 \<le> rpm" "rpm \<le> 60" using assms by auto
  define H R :: rat where "H = of_int (60 div rpm)" and "R = of_int rpm"
  have h: "1 \<le> 60 div rpm" "60 div rpm \<le> 30" using rpm zdiv_mono2 [of 60 2 rpm] by (simp_all add: pos_imp_zdiv_pos_iff int_one_le_iff_zero_less)
  have HR: "1 / 100 \<le> H / 60" "1 / 100 \<le> (H + 1) / 60" "1 \<le> R" using h rpm by (simp_all add: H_def R_def)
  have e: "earned_after (60 div rpm) rpm = Fin (rnd (rnd (H / 60) * R))" "earned_after (60 div rpm + 1) rpm = Fin (rnd (rnd ((H + 1) / 60) * R))"
    using h rpm by (simp_all add: earned_after_seconds H_def R_def)
  have "61 \<le> (H + 1) * R" using sixty_div(1) [OF rpm(1)] by (simp add: H_def R_def)
  then have late: "1 \<le> rnd (rnd ((H + 1) / 60) * R)" using rnd_twice(1) [OF HR(2,3)] by simp
  have "1 \<le> rnd (rnd (H / 60) * R) \<longleftrightarrow> 60 mod rpm = 0"
  proof (cases "60 mod rpm = 0")
    case True
    then show ?thesis using bspec [OF hint_divisors [unfolded list_all_iff] divisors_60 [OF rpm True]] by (simp add: hint_divides_def H_def R_def)
  next
    case False
    then have "H * R \<le> 59" using sixty_div(2) [OF rpm(1)] by (simp add: H_def R_def)
    then have "rnd (rnd (H / 60) * R) < 1" using rnd_twice(2) [OF HR(1,3)] by simp
    then show ?thesis using False by simp
  qed
  then show ?thesis using late hint_value [OF rpm] e by (simp add: hint_facts_def)
qed

lemma Limiter_Allow_empty:
  assumes "l_Enabled (limitForTenant l (tenantOrDefault t))" and "1 \<le> l_Burst (limitForTenant l (tenantOrDefault t))"
    and "lim_buckets l (tenantOrDefault t) = Some \<lparr>b_tokens = Fin 0, b_updated = now\<rparr>" and "now \<noteq> 0"
    and "0 \<le> k" and "k \<le> 61"
  shows "rd_Allowed (fst (Limiter_Allow t (now + k * time_Second) l)) \<longleftrightarrow>
    f64_ge (earned_after k (l_RequestsPerMinute (limitForTenant l (tenantOrDefault t)))) (Fin 1)"
proof -
  have "Time_Sub (now + k * time_Second) now = k * time_Second"
    using assms(5,6) by (simp add: Time_Sub_def max_duration_def time_Second_def)
  moreover have "f64_le (Fin 1) (f64_of_int (l_Burst (limitForTenant l (tenantOrDefault t))))"
    using f64_of_int_mono [OF assms(2)] by (simp add: f64_of_int_def)
  ultimately show ?thesis
    using assms(1,3,4) f64_le_total by (auto simp: Limiter_Allow_def refill_def Let_def earned_after_def f64_lt_iff intro: f64_le_trans)
qed



end
