(* ===== verification/Json.thy ===== *)
theory Json
  imports GoStd F64
begin

text \<open>
  The part of package \<open>encoding/json\<close> that the program uses: the syntax check with its nesting limit and
  the decoding of string literals (\<open>json_Parse\<close>), the rules by which an object is decoded into a struct
  (field names compared exactly or under case folding, later members overriding earlier ones, \<open>null\<close> leaving
  scalars alone, arrays decoded into the elements a slice already has), and the encoding of values
  (\<open>json_Marshal\<close>). A number is kept as its literal. The wording of the package's errors is not modelled:
  decoding returns an option.

  The lemmas: the fuel of the parser is enough for its input, and parsing an encoded value gives the value back.
\<close>

section \<open>Values\<close>

datatype json =
    JNull
  | JBool bool
  | JNum string
  | JStr string
  | JArr "json list"
  | JObj "(string \<times> json) list"

section \<open>Lexical syntax\<close>

abbreviation (input) quote :: char where "quote \<equiv> CHR 0x22"
abbreviation (input) backslash :: char where "backslash \<equiv> CHR 0x5C"

definition is_ws :: "char \<Rightarrow> bool" where
  "is_ws c \<longleftrightarrow> c \<in> {CHR '' '', CHR 0x09, CHR 0x0A, CHR 0x0D}"

definition skip_ws :: "string \<Rightarrow> string" where
  "skip_ws s = dropWhile is_ws s"

text \<open>The UTF-8 encoding of a code point, and of the replacement character U+FFFD.\<close>

definition replacement :: string where
  "replacement = [CHR 0xEF, CHR 0xBF, CHR 0xBD]"

definition encode_rune :: "nat \<Rightarrow> string" where
  "encode_rune n =
     (if n < 0x80 then [char_of n]
      else if n < 0x800 then [char_of (0xC0 + n div 64), char_of (0x80 + n mod 64)]
      else if n < 0x10000 then
        [char_of (0xE0 + n div 4096), char_of (0x80 + n div 64 mod 64), char_of (0x80 + n mod 64)]
      else
        [char_of (0xF0 + n div 262144), char_of (0x80 + n div 4096 mod 64),
         char_of (0x80 + n div 64 mod 64), char_of (0x80 + n mod 64)])"

definition hex_value :: "char \<Rightarrow> nat option" where
  "hex_value c =
     (if between 0x30 0x39 c then Some (byte c - 48)
      else if between 0x61 0x66 c then Some (byte c - 87)
      else if between 0x41 0x46 c then Some (byte c - 55) else None)"

text \<open>Four hexadecimal digits and the rest after them.\<close>

fun hex4 :: "string \<Rightarrow> (nat \<times> string) option" where
  "hex4 (a # b # c # d # r) =
     (case (hex_value a, hex_value b, hex_value c, hex_value d) of
        (Some h1, Some h2, Some h3, Some h4) \<Rightarrow> Some (h1 * 4096 + h2 * 256 + h3 * 16 + h4, r)
      | _ \<Rightarrow> None)"
| "hex4 _ = None"

definition simple_escape :: "char \<Rightarrow> char option" where
  "simple_escape e =
     (if e \<in> {quote, backslash, CHR ''/''} then Some e
      else if e = CHR ''b'' then Some (CHR 0x08) else if e = CHR ''f'' then Some (CHR 0x0C)
      else if e = CHR ''n'' then Some (CHR 0x0A) else if e = CHR ''r'' then Some (CHR 0x0D)
      else if e = CHR ''t'' then Some (CHR 0x09) else None)"

text \<open>
  A \<open>\u\<close> escape after its \<open>u\<close>: the decoded bytes and the rest. A high surrogate followed by an escaped low
  one is one code point; any other surrogate is the replacement character.
\<close>

definition unicode_escape :: "string \<Rightarrow> (string \<times> string) option" where
  "unicode_escape s =
     (case hex4 s of
        None \<Rightarrow> None
      | Some (r1, rest) \<Rightarrow>
          if 0xD800 \<le> r1 \<and> r1 < 0xE000 then
            (case rest of
               c # d # rest' \<Rightarrow>
                 (if c = backslash \<and> d = CHR ''u'' then
                    (case hex4 rest' of
                       Some (r2, rest'') \<Rightarrow>
                         if r1 < 0xDC00 \<and> 0xDC00 \<le> r2 \<and> r2 < 0xE000
                         then Some (encode_rune (0x10000 + (r1 - 0xD800) * 1024 + (r2 - 0xDC00)), rest'')
                         else Some (replacement, rest)
                     | None \<Rightarrow> Some (replacement, rest))
                  else Some (replacement, rest))
             | _ \<Rightarrow> Some (replacement, rest))
          else Some (encode_rune r1, rest))"

lemma hex4_length: "hex4 s = Some (n, r) \<Longrightarrow> length r < length s"
  by (induction s rule: hex4.induct) (auto split: option.splits)

lemma unicode_escape_length: "unicode_escape s = Some (u, r) \<Longrightarrow> length r < length s"
  by (auto simp: unicode_escape_def split: option.splits prod.splits if_splits list.splits dest!: hex4_length)

text \<open>The rest of a string literal after its opening quote: the decoded string and what follows it.\<close>

function parse_str :: "string \<Rightarrow> (string \<times> string) option" where
  "parse_str [] = None"
| "parse_str (c # cs) =
     (if c = quote then Some ([], cs)
      else if c = backslash then
        (case cs of
           [] \<Rightarrow> None
         | e # es \<Rightarrow>
             if e = CHR ''u'' then
               (case unicode_escape es of
                  None \<Rightarrow> None
                | Some (u, r) \<Rightarrow> map_option (\<lambda>(t, r'). (u @ t, r')) (parse_str r))
             else
               (case simple_escape e of
                  None \<Rightarrow> None
                | Some x \<Rightarrow> map_option (\<lambda>(t, r). (x # t, r)) (parse_str es)))
      else if byte c < 0x20 then None
      else
        (let w = rune_width (c # cs)
         in map_option (\<lambda>(t, r). ((if byte c < 0x80 then [c] else if w = 1 then replacement else take w (c # cs)) @ t, r))
              (parse_str (drop (w - 1) cs))))"
  by pat_completeness auto
termination
  by (relation "measure length") (auto dest!: unicode_escape_length)

declare parse_str.simps [simp del]

text \<open>A number literal and the rest after it: sign, integer part, fraction and exponent.\<close>

definition parse_digits :: "string \<Rightarrow> (string \<times> string) option" where
  "parse_digits s = (if takeWhile is_digit s = [] then None else Some (takeWhile is_digit s, dropWhile is_digit s))"

definition parse_int :: "string \<Rightarrow> (string \<times> string) option" where
  "parse_int s = (if prefix ''0'' s then Some (''0'', tl s) else parse_digits s)"

definition parse_frac :: "string \<Rightarrow> (string \<times> string) option" where
  "parse_frac s =
     (if prefix ''.'' s then map_option (\<lambda>(ds, r). (CHR ''.'' # ds, r)) (parse_digits (tl s)) else Some ([], s))"

definition parse_exp :: "string \<Rightarrow> (string \<times> string) option" where
  "parse_exp s =
     (if prefix ''e'' s \<or> prefix ''E'' s then
        (let n = (if prefix ''+'' (tl s) \<or> prefix ''-'' (tl s) then 2 else 1)
         in map_option (\<lambda>(ds, r). (take n s @ ds, r)) (parse_digits (drop n s)))
      else Some ([], s))"

definition parse_num :: "string \<Rightarrow> (string \<times> string) option" where
  "parse_num s =
     (let sign = (if prefix ''-'' s then ''-'' else [])
      in case parse_int (drop (length sign) s) of
           None \<Rightarrow> None
         | Some (ip, r1) \<Rightarrow>
             (case parse_frac r1 of
                None \<Rightarrow> None
              | Some (fp, r2) \<Rightarrow> map_option (\<lambda>(ep, r3). (sign @ ip @ fp @ ep, r3)) (parse_exp r2)))"

definition parse_lit :: "string \<Rightarrow> json \<Rightarrow> string \<Rightarrow> (json \<times> string) option" where
  "parse_lit w v s = map_option (\<lambda>r. (v, r)) (CutPrefix s w)"

section \<open>Values and documents\<close>

text \<open>The first argument is fuel, the second the number of levels that may still be opened.\<close>

fun parse_value :: "nat \<Rightarrow> nat \<Rightarrow> string \<Rightarrow> (json \<times> string) option"
  and parse_elems :: "nat \<Rightarrow> nat \<Rightarrow> string \<Rightarrow> (json list \<times> string) option"
  and parse_members :: "nat \<Rightarrow> nat \<Rightarrow> string \<Rightarrow> ((string \<times> json) list \<times> string) option"
where
  "parse_value 0 d s = None"
| "parse_value (Suc n) d s =
     (case skip_ws s of
        [] \<Rightarrow> None
      | c # cs \<Rightarrow>
          if c = CHR ''{'' then
            (if d = 0 then None
             else if prefix ''}'' (skip_ws cs) then Some (JObj [], tl (skip_ws cs))
             else map_option (\<lambda>(ms, r). (JObj ms, r)) (parse_members n (d - 1) cs))
          else if c = CHR ''['' then
            (if d = 0 then None
             else if prefix '']'' (skip_ws cs) then Some (JArr [], tl (skip_ws cs))
             else map_option (\<lambda>(es, r). (JArr es, r)) (parse_elems n (d - 1) cs))
          else if c = quote then map_option (\<lambda>(t, r). (JStr t, r)) (parse_str cs)
          else if c = CHR ''t'' then parse_lit ''true'' (JBool True) (c # cs)
          else if c = CHR ''f'' then parse_lit ''false'' (JBool False) (c # cs)
          else if c = CHR ''n'' then parse_lit ''null'' JNull (c # cs)
          else map_option (\<lambda>(t, r). (JNum t, r)) (parse_num (c # cs)))"
| "parse_elems 0 d s = None"
| "parse_elems (Suc n) d s =
     (case parse_value n d s of
        None \<Rightarrow> None
      | Some (v, r) \<Rightarrow>
          (case skip_ws r of
             [] \<Rightarrow> None
           | c # cs \<Rightarrow>
               if c = CHR '','' then map_option (\<lambda>(vs, r'). (v # vs, r')) (parse_elems n d cs)
               else if c = CHR '']'' then Some ([v], cs) else None))"
| "parse_members 0 d s = None"
| "parse_members (Suc n) d s =
     (case skip_ws s of
        [] \<Rightarrow> None
      | q # qs \<Rightarrow>
          if q \<noteq> quote then None
          else case parse_str qs of
            None \<Rightarrow> None
          | Some (k, r) \<Rightarrow>
              if \<not> prefix '':'' (skip_ws r) then None
              else case parse_value n d (tl (skip_ws r)) of
                None \<Rightarrow> None
              | Some (v, r') \<Rightarrow>
                  (case skip_ws r' of
                     [] \<Rightarrow> None
                   | c # cs \<Rightarrow>
                       if c = CHR '','' then map_option (\<lambda>(ms, r''). ((k, v) # ms, r'')) (parse_members n d cs)
                       else if c = CHR ''}'' then Some ([(k, v)], cs) else None))"

definition max_depth :: nat where
  "max_depth = 10000"

text \<open>The first value of a text, as \<open>Decoder.Decode\<close> reads it, and a text that is one value, as \<open>Unmarshal\<close>.\<close>

definition json_First :: "string \<Rightarrow> (json \<times> string) option" where
  "json_First s = parse_value (2 * length s + 2) max_depth s"

definition json_Parse :: "string \<Rightarrow> json option" where
  "json_Parse s =
     (case json_First s of
        Some (v, r) \<Rightarrow> if skip_ws r = [] then Some v else None
      | None \<Rightarrow> None)"

section \<open>Decoding into Go values\<close>

text \<open>
  A decoder takes the value and what the Go variable holds before, and returns what it holds after;
  \<open>None\<close> is a type error, on which every caller gives up.
\<close>

type_synonym 'a dec = "json \<Rightarrow> 'a \<Rightarrow> 'a option"

fun dec_string :: "string dec" where
  "dec_string JNull old = Some old"
| "dec_string (JStr s) old = Some s"
| "dec_string _ old = None"

fun dec_bool :: "bool dec" where
  "dec_bool JNull old = Some old"
| "dec_bool (JBool b) old = Some b"
| "dec_bool _ old = None"

fun dec_int :: "int dec" where
  "dec_int JNull old = Some old"
| "dec_int (JNum t) old = Atoi t"
| "dec_int _ old = None"

text \<open>The value of a number literal: digits without the point, and the exponent less the fraction's length.\<close>

definition num_value :: "string \<Rightarrow> rat" where
  "num_value t =
     (let neg = prefix ''-'' t;
          body = (if neg then tl t else t);
          m = takeWhile (\<lambda>c. c \<noteq> CHR ''e'' \<and> c \<noteq> CHR ''E'') body;
          ex = drop (Suc (length m)) body;
          frac = drop (Suc (length (takeWhile is_digit m))) m;
          e10 = (if prefix ''-'' ex then - int (digits_value (tl ex))
                 else int (digits_value (if prefix ''+'' ex then tl ex else ex))) - int (length frac);
          digits = of_int (int (digits_value (filter is_digit m)));
          mag = (if e10 < 0 then digits / 10 ^ nat (- e10) else digits * 10 ^ nat e10)
      in if neg then - mag else mag)"

definition ParseFloat :: "string \<Rightarrow> f64 option" where
  "ParseFloat t = (case fl (num_value t) of Fin x \<Rightarrow> Some (Fin x) | _ \<Rightarrow> None)"

fun dec_float :: "f64 dec" where
  "dec_float JNull old = Some old"
| "dec_float (JNum t) old = ParseFloat t"
| "dec_float _ old = None"

fun dec_float_ptr :: "f64 option dec" where
  "dec_float_ptr JNull old = Some None"
| "dec_float_ptr (JNum t) old = map_option Some (ParseFloat t)"
| "dec_float_ptr _ old = None"

text \<open>\<open>json.RawMessage\<close>: the value as it stands.\<close>

fun dec_raw :: "json option dec" where
  "dec_raw v old = Some (Some v)"

text \<open>
  A slice is its backing array as far as it was ever written and its length. Element \<open>i\<close> of an array is
  decoded into what the backing array holds at \<open>i\<close>; \<open>null\<close> and the empty array drop the backing array.
\<close>

type_synonym 'a slice = "'a list \<times> nat"

fun dec_elems :: "'a dec \<Rightarrow> 'a \<Rightarrow> json list \<Rightarrow> nat \<Rightarrow> 'a list \<Rightarrow> 'a list option" where
  "dec_elems d zero [] i backing = Some backing"
| "dec_elems d zero (e # es) i backing =
     (case d e (if i < length backing then backing ! i else zero) of
        None \<Rightarrow> None
      | Some x \<Rightarrow>
          dec_elems d zero es (Suc i) (if i < length backing then backing[i := x] else backing @ [x]))"

fun dec_slice :: "'a dec \<Rightarrow> 'a \<Rightarrow> 'a slice dec" where
  "dec_slice d zero JNull old = Some ([], 0)"
| "dec_slice d zero (JArr []) old = Some ([], 0)"
| "dec_slice d zero (JArr (e # es)) (backing, n) =
     map_option (\<lambda>b. (b, Suc (length es))) (dec_elems d zero (e # es) 0 backing)"
| "dec_slice d zero _ old = None"

definition slice_list :: "'a slice \<Rightarrow> 'a list" where
  "slice_list sl = take (snd sl) (fst sl)"

text \<open>Field names are compared exactly, then under simple case folding.\<close>

fun fold_name :: "string \<Rightarrow> string" where
  "fold_name [] = []"
| "fold_name (c # cs) =
     (if byte c = 0xE2 \<and> prefix [CHR 0x84, CHR 0xAA] cs then CHR ''K'' # fold_name (drop 2 cs)
      else if byte c = 0xC5 \<and> prefix [CHR 0xBF] cs then CHR ''S'' # fold_name (drop 1 cs)
      else upper c # fold_name cs)"

definition find_field :: "(string \<times> 'a dec) list \<Rightarrow> string \<Rightarrow> 'a dec option" where
  "find_field fields k =
     (case map_of fields k of
        Some d \<Rightarrow> Some d
      | None \<Rightarrow> map_option snd (find (\<lambda>(name, _). fold_name name = fold_name k) fields))"

fun dec_members :: "(string \<times> 'a dec) list \<Rightarrow> (string \<times> json) list \<Rightarrow> 'a \<Rightarrow> 'a option" where
  "dec_members fields [] st = Some st"
| "dec_members fields ((k, v) # ms) st =
     (case find_field fields k of
        None \<Rightarrow> dec_members fields ms st
      | Some d \<Rightarrow> (case d v st of None \<Rightarrow> None | Some st' \<Rightarrow> dec_members fields ms st'))"

fun dec_struct :: "(string \<times> 'a dec) list \<Rightarrow> 'a dec" where
  "dec_struct fields JNull old = Some old"
| "dec_struct fields (JObj ms) old = dec_members fields ms old"
| "dec_struct fields _ old = None"

text \<open>A field of a struct, by its reader and its updater.\<close>

definition field :: "('s \<Rightarrow> 'a) \<Rightarrow> (('a \<Rightarrow> 'a) \<Rightarrow> 's \<Rightarrow> 's) \<Rightarrow> 'a dec \<Rightarrow> 's dec" where
  "field get upd d v st = map_option (\<lambda>x. upd (\<lambda>_. x) st) (d v (get st))"

text \<open>A map with string keys: each value is decoded into a zero element.\<close>

fun dec_map_members :: "'a dec \<Rightarrow> 'a \<Rightarrow> (string \<times> json) list \<Rightarrow> (string \<times> 'a) list \<Rightarrow> (string \<times> 'a) list option" where
  "dec_map_members d zero [] m = Some m"
| "dec_map_members d zero ((k, v) # ms) m =
     (case d v zero of None \<Rightarrow> None | Some x \<Rightarrow> dec_map_members d zero ms ((k, x) # filter (\<lambda>(k', _). k' \<noteq> k) m))"

fun dec_map :: "'a dec \<Rightarrow> 'a \<Rightarrow> (string \<times> 'a) list dec" where
  "dec_map d zero JNull old = Some []"
| "dec_map d zero (JObj ms) old = dec_map_members d zero ms old"
| "dec_map d zero _ old = None"

text \<open>\<open>json.Unmarshal\<close> into a variable that holds \<open>zero\<close>.\<close>

definition json_Unmarshal :: "'a dec \<Rightarrow> 'a \<Rightarrow> string \<Rightarrow> 'a option" where
  "json_Unmarshal d zero body = (case json_Parse body of None \<Rightarrow> None | Some v \<Rightarrow> d v zero)"

section \<open>Encoding\<close>

definition u_escape :: "nat \<Rightarrow> string" where
  "u_escape n = [backslash, CHR ''u'', hex_char (n div 4096), hex_char (n div 256 mod 16), hex_char (n div 16 mod 16), hex_char (n mod 16)]"

definition escape_ascii :: "char \<Rightarrow> string" where
  "escape_ascii c =
     (if c = quote \<or> c = backslash then [backslash, c]
      else if c = CHR 0x08 then [backslash, CHR ''b''] else if c = CHR 0x0C then [backslash, CHR ''f'']
      else if c = CHR 0x0A then [backslash, CHR ''n''] else if c = CHR 0x0D then [backslash, CHR ''r'']
      else if c = CHR 0x09 then [backslash, CHR ''t'']
      else if byte c < 0x20 \<or> c \<in> {CHR ''<'', CHR ''>'', CHR ''&''} then u_escape (byte c)
      else [c])"

function quote_body :: "string \<Rightarrow> string" where
  "quote_body [] = []"
| "quote_body (c # cs) =
     (let w = rune_width (c # cs); enc = take w (c # cs)
      in (if byte c < 0x80 then escape_ascii c
          else if w = 1 then u_escape 0xFFFD
          else if enc = [CHR 0xE2, CHR 0x80, CHR 0xA8] then u_escape 0x2028
          else if enc = [CHR 0xE2, CHR 0x80, CHR 0xA9] then u_escape 0x2029
          else enc) @ quote_body (drop (w - 1) cs))"
  by pat_completeness auto
termination
  by (relation "measure length") auto

declare quote_body.simps [simp del]

definition json_quote :: "string \<Rightarrow> string" where
  "json_quote s = quote # quote_body s @ [quote]"

fun marshal_value :: "json \<Rightarrow> string"
  and marshal_elems :: "json list \<Rightarrow> string"
  and marshal_members :: "(string \<times> json) list \<Rightarrow> string"
where
  "marshal_value JNull = ''null''"
| "marshal_value (JBool b) = (if b then ''true'' else ''false'')"
| "marshal_value (JNum t) = t"
| "marshal_value (JStr s) = json_quote s"
| "marshal_value (JArr vs) = ''['' @ marshal_elems vs @ '']''"
| "marshal_value (JObj ms) = ''{'' @ marshal_members ms @ ''}''"
| "marshal_elems [] = []"
| "marshal_elems [v] = marshal_value v"
| "marshal_elems (v # w # vs) = marshal_value v @ '','' @ marshal_elems (w # vs)"
| "marshal_members [] = []"
| "marshal_members [(k, v)] = json_quote k @ '':'' @ marshal_value v"
| "marshal_members ((k, v) # m # ms) = json_quote k @ '':'' @ marshal_value v @ '','' @ marshal_members (m # ms)"

definition json_Marshal :: "json \<Rightarrow> string" where
  "json_Marshal v = marshal_value v"

definition JInt :: "int \<Rightarrow> json" where
  "JInt i = JNum (Itoa i)"

text \<open>\<open>Encoder.Encode\<close> ends the value with a newline.\<close>

definition json_Encode :: "json \<Rightarrow> string" where
  "json_Encode v = json_Marshal v @ [CHR 0x0A]"

section \<open>The fuel of the parser\<close>

lemma skip_ws_length: "length (skip_ws s) \<le> length s"
  by (simp add: skip_ws_def length_dropWhile_le)

lemma skip_ws_Cons: "skip_ws s = c # cs \<Longrightarrow> length cs < length s"
  using skip_ws_length [of s] by simp

lemma parse_str_step:
  assumes "parse_str (c # cs) = Some (t, r)"
  shows "r = cs \<or> (\<exists>s' t'. length s' \<le> length cs \<and> parse_str s' = Some (t', r))"
proof (cases "c = CHR 0x22")
  case True
  then show ?thesis using assms by (simp add: parse_str.simps)
next
  case quote: False
  show ?thesis
  proof (cases "c = CHR 0x5C")
    case True
    then obtain e es where cs: "cs = e # es" using assms by (auto simp: parse_str.simps split: list.splits)
    show ?thesis
    proof (cases "e = CHR ''u''")
      case u: True
      then obtain x r' t' where "unicode_escape es = Some (x, r')" "parse_str r' = Some (t', r)"
        using assms True by (auto simp: parse_str.simps(2) cs split: option.splits)
      then show ?thesis using cs by (intro disjI2 exI [of _ r'] exI [of _ t']) (auto dest: unicode_escape_length)
    next
      case False
      then obtain t' where "parse_str es = Some (t', r)"
        using assms True by (auto simp: parse_str.simps(2) cs split: option.splits)
      then show ?thesis using cs by (intro disjI2 exI [of _ es] exI [of _ t']) simp
    qed
  next
    case False
    then obtain t' where "parse_str (drop (rune_width (c # cs) - 1) cs) = Some (t', r)"
      using assms quote by (auto simp: parse_str.simps(2) Let_def split: if_splits)
    then show ?thesis by (intro disjI2 exI [of _ "drop (rune_width (c # cs) - 1) cs"] exI [of _ t']) simp
  qed
qed

lemma parse_str_length: "parse_str s = Some (t, r) \<Longrightarrow> length r < length s"
proof (induction s arbitrary: t rule: length_induct)
  case (1 s)
  show ?case
  proof (cases s)
    case Nil
    then show ?thesis using "1.prems" by (simp add: parse_str.simps)
  next
    case (Cons c cs)
    with "1.prems" parse_str_step [of c cs t r] consider "r = cs"
      | s' t' where "length s' \<le> length cs" "parse_str s' = Some (t', r)" by auto
    then show ?thesis
    proof cases
      case 2
      then have "length r < length s'" using "1.IH" Cons by auto
      then show ?thesis using 2 Cons by simp
    qed (simp add: Cons)
  qed
qed

lemma parse_digits_length: "parse_digits s = Some (ds, r) \<Longrightarrow> length r < length s"
proof -
  assume a: "parse_digits s = Some (ds, r)"
  then have "length (takeWhile is_digit s) + length (dropWhile is_digit s) = length s"
    by (metis length_append takeWhile_dropWhile_id)
  with a show ?thesis by (auto simp: parse_digits_def split: if_splits simp flip: length_greater_0_conv)
qed

lemma parse_int_length: "parse_int s = Some (ds, r) \<Longrightarrow> length r < length s"
  by (auto simp: parse_int_def prefix_def dest: parse_digits_length split: if_splits)

lemma parse_frac_length: "parse_frac s = Some (ds, r) \<Longrightarrow> length r \<le> length s"
  by (auto simp: parse_frac_def prefix_def dest!: parse_digits_length split: if_splits)

lemma parse_exp_length: "parse_exp s = Some (ds, r) \<Longrightarrow> length r \<le> length s"
  by (auto simp: parse_exp_def Let_def dest!: parse_digits_length split: if_splits)

lemma parse_num_length: "parse_num s = Some (t, r) \<Longrightarrow> length r < length s"
  by (auto simp: parse_num_def Let_def split: option.splits if_splits
      dest!: parse_int_length parse_frac_length parse_exp_length)

lemma parse_lit_length: "parse_lit w v s = Some (v', r) \<Longrightarrow> w \<noteq> [] \<Longrightarrow> length r < length s"
  by (auto simp: parse_lit_def CutPrefix_Some)

lemma tl_length: "xs \<noteq> [] \<Longrightarrow> length xs \<le> n \<Longrightarrow> length (tl xs) < n"
  by (cases xs) auto

lemma prefix_nonempty: "prefix p s \<Longrightarrow> p \<noteq> [] \<Longrightarrow> s \<noteq> []"
  by auto

lemma parse_length:
  "parse_value n d s = Some (v, r) \<Longrightarrow> length r < length s"
  "parse_elems n d s = Some (vs, r) \<Longrightarrow> length r < length s"
  "parse_members n d s = Some (ms, r) \<Longrightarrow> length r < length s"
proof (induction n d s and n d s and n d s arbitrary: v r and vs r and ms r
    rule: parse_value_parse_elems_parse_members.induct)
  case (2 n d s)
  then obtain c cs where s: "skip_ws s = c # cs" by (auto split: list.splits)
  note lt = skip_ws_Cons [OF s]
  have tl1: "length (tl (skip_ws cs)) \<le> length cs" using skip_ws_length [of cs] by simp
  show ?case using "2.prems" lt tl1 "2.IH" [OF s]
    by (auto simp: s split: if_splits dest!: parse_str_length parse_num_length parse_lit_length)
next
  case (4 n d s)
  then show ?case
    by (auto split: option.splits list.splits if_splits dest!: skip_ws_Cons) (fastforce dest: less_trans)+
next
  case (6 n d s)
  then obtain q qs k r1 where q: "skip_ws s = q # qs" "q = CHR 0x22" "parse_str qs = Some (k, r1)" "prefix '':'' (skip_ws r1)"
    by (auto split: list.splits if_splits option.splits)
  then obtain v r2 where v: "parse_value n d (tl (skip_ws r1)) = Some (v, r2)"
    using "6.prems" by (auto split: option.splits)
  have "length r1 < length s" using q parse_str_length skip_ws_Cons [OF q(1)] less_trans by blast
  moreover have "length (tl (skip_ws r1)) \<le> length r1" using skip_ws_length [of r1] by simp
  moreover have "length r2 < length (tl (skip_ws r1))" using "6.IH"(1) q v by auto
  moreover obtain c cs where c: "skip_ws r2 = c # cs" using "6.prems" q v by (auto split: list.splits)
  moreover have "length r \<le> length cs" using "6.prems" "6.IH"(2) q v c by (auto split: if_splits) fastforce+
  ultimately show ?case using skip_ws_Cons [OF c] by linarith
qed simp_all

text \<open>More fuel than twice the length of the input and one never changes the result.\<close>

lemma fuel_step:
  "(\<forall>d s. 2 * length s + 1 \<le> n \<longrightarrow> parse_value (Suc n) d s = parse_value n d s) \<and>
   (\<forall>d s. 2 * length s + 2 \<le> n \<longrightarrow> parse_elems (Suc n) d s = parse_elems n d s) \<and>
   (\<forall>d s. 2 * length s + 2 \<le> n \<longrightarrow> parse_members (Suc n) d s = parse_members n d s)"
proof (induction n)
  case 0
  then show ?case by simp
next
  case (Suc n)
  have V: "parse_value (Suc n) d s = parse_value n d s" if "2 * length s + 1 \<le> n" for d s using Suc.IH that by blast
  have E: "parse_elems (Suc n) d s = parse_elems n d s" if "2 * length s + 2 \<le> n" for d s using Suc.IH that by blast
  have M: "parse_members (Suc n) d s = parse_members n d s" if "2 * length s + 2 \<le> n" for d s using Suc.IH that by blast
  have "parse_value (Suc (Suc n)) d s = parse_value (Suc n) d s" if n: "2 * length s + 1 \<le> Suc n" for d s
  proof (cases "skip_ws s")
    case (Cons c cs)
    then have "2 * length cs + 2 \<le> n" using skip_ws_Cons [OF Cons] n by simp
    then show ?thesis using E M by (simp only: parse_value.simps Cons list.case)
  qed simp
  moreover have "parse_elems (Suc (Suc n)) d s = parse_elems (Suc n) d s" if n: "2 * length s + 2 \<le> Suc n" for d s
  proof -
    have v: "parse_value (Suc n) d s = parse_value n d s" using V n by simp
    show ?thesis
    proof (cases "parse_value n d s")
      case (Some vr)
      obtain v r where vr: "parse_value n d s = Some (v, r)" using Some by (cases vr) auto
      have "2 * length cs + 2 \<le> n" if "skip_ws r = c # cs" for c cs
        using parse_length(1) [OF vr] skip_ws_Cons [OF that] n by linarith
      then show ?thesis using E
        by (simp only: parse_elems.simps v vr option.case prod.case) (auto split: list.split)
    qed (simp only: parse_elems.simps v option.case)
  qed
  moreover have "parse_members (Suc (Suc n)) d s = parse_members (Suc n) d s" if n: "2 * length s + 2 \<le> Suc n" for d s
  proof (cases "\<exists>qs k r. skip_ws s = CHR 0x22 # qs \<and> parse_str qs = Some (k, r)")
    case False
    then show ?thesis
      unfolding parse_members.simps(2) [of "Suc n" d s] parse_members.simps(2) [of n d s]
      by (auto split: list.split option.split simp del: parse_members.simps parse_value.simps)
  next
    case True
    then obtain qs k r where q: "skip_ws s = CHR 0x22 # qs" "parse_str qs = Some (k, r)" by blast
    have "length r < length s" using parse_str_length [OF q(2)] skip_ws_Cons [OF q(1)] by linarith
    moreover have "length (tl (skip_ws r)) \<le> length r" using skip_ws_length [of r] by simp
    ultimately have len: "length (tl (skip_ws r)) < length s" by simp
    then have v: "parse_value (Suc n) d (tl (skip_ws r)) = parse_value n d (tl (skip_ws r))" using V n by simp
    have "2 * length cs + 2 \<le> n" if "parse_value n d (tl (skip_ws r)) = Some (x, r2)" "skip_ws r2 = c # cs" for x r2 c cs
      using parse_length(1) [OF that(1)] skip_ws_Cons [OF that(2)] len n by linarith
    then show ?thesis using M
      by (simp only: parse_members.simps q list.case option.case prod.case v simp_thms if_True if_False)
        (auto split: list.split option.split)
  qed
  ultimately show ?case by blast
qed

lemma fuel_enough: "2 * length s + 1 \<le> n \<Longrightarrow> parse_value (n + k) d s = parse_value n d s"
proof (induction k)
  case (Suc k)
  then have "parse_value (Suc (n + k)) d s = parse_value (n + k) d s" using fuel_step [of "n + k"] by simp
  then show ?case using Suc by simp
qed simp

lemma json_First_fuel:
  assumes "2 * length s + 2 \<le> n"
  shows "parse_value n max_depth s = json_First s"
proof -
  obtain k where "n = 2 * length s + 2 + k" using assms le_Suc_ex by blast
  then show ?thesis using fuel_enough [of s "2 * length s + 2" k max_depth] by (simp only: json_First_def)
qed

section \<open>Round trips\<close>

text \<open>What decoding makes of the bytes of a string: invalid ones become the replacement character.\<close>

function sanitize :: "string \<Rightarrow> string" where
  "sanitize [] = []"
| "sanitize (c # cs) =
     (let w = rune_width (c # cs)
      in (if byte c < 0x80 then [c] else if w = 1 then replacement else take w (c # cs)) @ sanitize (drop (w - 1) cs))"
  by pat_completeness auto
termination
  by (relation "measure length") auto

declare sanitize.simps [simp del]

lemma hex_value_hex_char: "n < 16 \<Longrightarrow> hex_value (hex_char n) = Some n"
  by (auto simp: hex_char_def hex_value_def between_def byte_def)

lemma hex4_u_escape: "n < 65536 \<Longrightarrow> hex4 (tl (tl (u_escape n)) @ r) = Some (n, r)"
proof -
  assume n: "n < 65536"
  have "n div 16 = 16 * (n div 256) + n div 16 mod 16" "n div 256 = 16 * (n div 4096) + n div 256 mod 16"
    using div_mult2_eq [of n 16 16] div_mult2_eq [of n 256 16] by simp_all
  then have "n div 4096 * 4096 + n div 256 mod 16 * 256 + n div 16 mod 16 * 16 + n mod 16 = n"
    using mult_div_mod_eq [of 16 n] by linarith
  then show ?thesis using n by (simp add: u_escape_def hex_value_hex_char)
qed

lemma parse_str_u_escape:
  assumes "n < 65536" and "\<not> (0xD800 \<le> n \<and> n < 0xE000)"
  shows "parse_str (u_escape n @ r) = map_option (\<lambda>(t, r'). (encode_rune n @ t, r')) (parse_str r)"
proof -
  obtain h where h: "u_escape n = CHR 0x5C # CHR ''u'' # h" by (simp add: u_escape_def)
  have "hex4 (h @ r) = Some (n, r)" using hex4_u_escape [OF assms(1), of r] by (simp add: h)
  then have "unicode_escape (h @ r) = Some (encode_rune n, r)"
    using assms by (simp only: unicode_escape_def option.case prod.case if_False)
  then show ?thesis by (simp add: h parse_str.simps(2))
qed

lemma parse_str_escape_ascii:
  assumes "byte c < 0x80"
  shows "parse_str (escape_ascii c @ r) = map_option (\<lambda>(t, r'). (c # t, r')) (parse_str r)"
proof (cases "byte c < 0x20 \<or> c \<in> {CHR ''<'', CHR ''>'', CHR ''&''}")
  case True
  have "encode_rune (byte c) = [c]" using assms by (simp add: encode_rune_def byte_def)
  then have u: "parse_str (u_escape (byte c) @ r) = map_option (\<lambda>(t, r'). (c # t, r')) (parse_str r)"
    using parse_str_u_escape [of "byte c" r] assms by simp
  have "c \<noteq> CHR 0x22 \<and> c \<noteq> CHR 0x5C" using True by (auto simp: byte_def)
  then show ?thesis
    using True u by (cases "c \<in> {CHR 0x08, CHR 0x0C, CHR 0x0A, CHR 0x0D, CHR 0x09}")
      (auto simp: escape_ascii_def parse_str.simps(2) simple_escape_def)
next
  case False
  have w: "rune_width (c # r) = 1" using assms rune_width_ascii [of "c # r"] by simp
  show ?thesis
  proof (cases "c = CHR 0x22 \<or> c = CHR 0x5C")
    case True
    then show ?thesis by (auto simp: escape_ascii_def parse_str.simps(2) simple_escape_def)
  next
    case nq: False
    have "c \<noteq> x" if "byte x < 0x20" for x using that False by auto
    then have "c \<noteq> CHR 0x08" "c \<noteq> CHR 0x0C" "c \<noteq> CHR 0x0A" "c \<noteq> CHR 0x0D" "c \<noteq> CHR 0x09" by (simp_all add: byte_def)
    then have "escape_ascii c = [c]" using nq False unfolding escape_ascii_def by simp
    moreover have "c \<noteq> CHR 0x22" "c \<noteq> CHR 0x5C" "\<not> byte c < 0x20" using nq False by auto
    then have "parse_str (c # r) = map_option (\<lambda>(t, r'). (c # t, r')) (parse_str r)"
      using assms unfolding parse_str.simps(2) [of c r] Let_def w by simp
    ultimately show ?thesis by simp
  qed
qed

lemma rune_width_take:
  assumes "1 < rune_width s"
  shows "rune_width (take (rune_width s) s @ r) = rune_width s"
proof -
  obtain c cs where s: "s = c # cs" using assms by (cases s) (auto simp: rune_width.simps)
  consider "between 0xC2 0xDF c" | "\<not> between 0xC2 0xDF c" "between 0xE0 0xEF c"
    | "\<not> between 0xC2 0xDF c" "\<not> between 0xE0 0xEF c" "between 0xF0 0xF4 c"
    using assms s by (auto simp: rune_width.simps split: if_splits)
  then show ?thesis
  proof cases
    case 1
    then obtain c1 t where "cs = c1 # t" "between 0x80 0xBF c1"
      using assms s by (cases cs) (auto simp: rune_width.simps split: if_splits)
    then show ?thesis using 1 s by (simp add: rune_width.simps)
  next
    case 2
    then obtain c1 c2 t where "cs = c1 # c2 # t"
      "between (if byte c = 0xE0 then 0xA0 else 0x80) (if byte c = 0xED then 0x9F else 0xBF) c1 \<and> between 0x80 0xBF c2"
      using assms s by (cases cs; cases "tl cs") (auto simp: rune_width.simps split: if_splits)
    then show ?thesis using 2 s by (simp add: rune_width.simps)
  next
    case 3
    then obtain c1 c2 c3 t where "cs = c1 # c2 # c3 # t"
      "between (if byte c = 0xF0 then 0x90 else 0x80) (if byte c = 0xF4 then 0x8F else 0xBF) c1
         \<and> between 0x80 0xBF c2 \<and> between 0x80 0xBF c3"
      using assms s by (cases cs; cases "tl cs"; cases "tl (tl cs)") (auto simp: rune_width.simps split: if_splits)
    then show ?thesis using 3 s by (simp add: rune_width.simps)
  qed
qed

lemma rune_width_multi: "1 < rune_width (c # cs) \<Longrightarrow> 0xC2 \<le> byte c"
proof (rule ccontr)
  assume w: "1 < rune_width (c # cs)" and "\<not> 0xC2 \<le> byte c"
  then have "\<not> between 0xC2 0xDF c" "\<not> between 0xE0 0xEF c" "\<not> between 0xF0 0xF4 c" by (simp_all add: between_def)
  then show False using w by (simp add: rune_width.simps)
qed

lemma encode_special:
  "encode_rune 0xFFFD = replacement" "encode_rune 0x2028 = [CHR 0xE2, CHR 0x80, CHR 0xA8]"
  "encode_rune 0x2029 = [CHR 0xE2, CHR 0x80, CHR 0xA9]"
  by (simp_all add: encode_rune_def replacement_def char_of_byte byte_def)

lemma parse_str_plain_rune:
  assumes "1 < rune_width s"
  shows "parse_str (take (rune_width s) s @ r) =
    map_option (\<lambda>(t, r'). (take (rune_width s) s @ t, r')) (parse_str r)"
proof -
  define w where "w = rune_width s"
  obtain c cs where s: "s = c # cs" using assms by (cases s) (auto simp: rune_width.simps)
  have wl: "w \<le> length s" using rune_width_le [of s] by (simp add: w_def)
  obtain v where w: "w = Suc v" using assms by (cases w) (auto simp: w_def)
  have "0xC2 \<le> byte c" using rune_width_multi assms s by simp
  moreover have "byte (CHR 0x22) = 0x22" "byte (CHR 0x5C) = 0x5C" by (simp_all add: byte_def)
  ultimately have c: "c \<noteq> CHR 0x22" "c \<noteq> CHR 0x5C" "\<not> byte c < 0x20" "\<not> byte c < 0x80" by auto
  have t: "take w s @ r = c # (take v cs @ r)" by (simp add: s w)
  have rw: "rune_width (c # (take v cs @ r)) = w"
    using rune_width_take [OF assms, of r] by (simp add: w_def [symmetric] t)
  have "take w (c # (take v cs @ r)) = take w s" and "drop (w - 1) (take v cs @ r) = r"
    using wl by (simp_all add: s w)
  moreover have "w \<noteq> 1" using assms by (simp add: w_def)
  ultimately show ?thesis
    using c unfolding w_def [symmetric] t parse_str.simps(2) [of c "take v cs @ r"] Let_def rw by simp
qed

lemma parse_str_quote_body: "parse_str (quote_body s @ CHR 0x22 # r) = Some (sanitize s, r)"
proof (induction s rule: quote_body.induct)
  case 1
  then show ?case by (simp add: quote_body.simps sanitize.simps parse_str.simps(2))
next
  case (2 c cs)
  define w where "w = rune_width (c # cs)"
  have IH: "parse_str (quote_body (drop (w - 1) cs) @ CHR 0x22 # r) = Some (sanitize (drop (w - 1) cs), r)"
    using 2 by (simp add: w_def)
  have pos: "1 \<le> w" using rune_width_pos [of "c # cs"] by (simp add: w_def)
  consider "byte c < 0x80" | "\<not> byte c < 0x80" "w = 1" | "\<not> byte c < 0x80" "1 < w" using pos by linarith
  then show ?case
  proof cases
    case 1
    then have q: "quote_body (c # cs) = escape_ascii c @ quote_body (drop (w - 1) cs)"
      and z: "sanitize (c # cs) = c # sanitize (drop (w - 1) cs)"
      by (simp_all add: quote_body.simps(2) sanitize.simps(2) Let_def w_def [symmetric] )
    show ?thesis using IH by (simp add: q z parse_str_escape_ascii [OF 1])
  next
    case 2
    then have q: "quote_body (c # cs) = u_escape 0xFFFD @ quote_body (drop (w - 1) cs)"
      and z: "sanitize (c # cs) = replacement @ sanitize (drop (w - 1) cs)"
      by (simp_all add: quote_body.simps(2) sanitize.simps(2) Let_def w_def [symmetric] )
    show ?thesis using IH by (simp add: q z parse_str_u_escape encode_special)
  next
    case 3
    define enc where "enc = take w (c # cs)"
    have z: "sanitize (c # cs) = enc @ sanitize (drop (w - 1) cs)"
      using 3 by (simp add: sanitize.simps(2) Let_def w_def [symmetric] enc_def )
    have q: "quote_body (c # cs) =
        (if enc = [CHR 0xE2, CHR 0x80, CHR 0xA8] then u_escape 0x2028
         else if enc = [CHR 0xE2, CHR 0x80, CHR 0xA9] then u_escape 0x2029 else enc) @ quote_body (drop (w - 1) cs)"
      using 3 unfolding quote_body.simps(2) Let_def w_def [symmetric] enc_def [symmetric] by simp
    consider "enc = [CHR 0xE2, CHR 0x80, CHR 0xA8]" "quote_body (c # cs) = u_escape 0x2028 @ quote_body (drop (w - 1) cs)"
      | "enc = [CHR 0xE2, CHR 0x80, CHR 0xA9]" "quote_body (c # cs) = u_escape 0x2029 @ quote_body (drop (w - 1) cs)"
      | "quote_body (c # cs) = enc @ quote_body (drop (w - 1) cs)"
      using q by (cases "enc = [CHR 0xE2, CHR 0x80, CHR 0xA8]"; cases "enc = [CHR 0xE2, CHR 0x80, CHR 0xA9]") simp_all
    then show ?thesis
    proof cases
      case 1
      then show ?thesis using IH by (simp add: z parse_str_u_escape encode_special)
    next
      case 2
      then show ?thesis using IH by (simp add: z parse_str_u_escape encode_special)
    next
      case 3
      have "parse_str (enc @ x) = map_option (\<lambda>(t, r'). (enc @ t, r')) (parse_str x)" for x
        using parse_str_plain_rune [of "c # cs" x] \<open>1 < w\<close> by (simp only: enc_def w_def)
      then show ?thesis using IH by (simp add: z 3)
    qed
  qed
qed

text \<open>Integers.\<close>

text \<open>A text after which a number literal cannot go on.\<close>

definition stops :: "string \<Rightarrow> bool" where
  "stops r \<longleftrightarrow> r = [] \<or> hd r \<in> {CHR '','', CHR '']'', CHR ''}'', CHR 0x0A}"

lemma stop_char:
  "c \<in> {CHR '','', CHR '']'', CHR ''}'', CHR 0x0A} \<Longrightarrow> \<not> is_digit c \<and> c \<noteq> CHR ''.'' \<and> c \<noteq> CHR ''e'' \<and> c \<noteq> CHR ''E''"
  by (elim insertE emptyE) (simp_all add: is_digit_def between_def byte_def)

lemma stops_facts:
  assumes "stops r"
  shows "takeWhile is_digit r = []" "dropWhile is_digit r = r" "parse_frac r = Some ([], r)" "parse_exp r = Some ([], r)"
proof -
  have "r = [] \<or> (\<exists>c cs. r = c # cs \<and> \<not> is_digit c \<and> c \<noteq> CHR ''.'' \<and> c \<noteq> CHR ''e'' \<and> c \<noteq> CHR ''E'')"
    using assms stop_char unfolding stops_def by (cases r) auto
  then show "takeWhile is_digit r = []" "dropWhile is_digit r = r" "parse_frac r = Some ([], r)" "parse_exp r = Some ([], r)"
    by (auto simp: parse_frac_def parse_exp_def)
qed

lemma parse_int_digits:
  assumes "list_all is_digit ds" "ds \<noteq> []" "hd ds = CHR ''0'' \<Longrightarrow> ds = ''0''" "stops r"
  shows "parse_int (ds @ r) = Some (ds, r)"
proof (cases "hd ds = CHR ''0''")
  case True
  then show ?thesis using assms by (simp add: parse_int_def)
next
  case False
  then have "\<not> prefix ''0'' (ds @ r)" using assms(2) by (cases ds) auto
  moreover have "takeWhile is_digit (ds @ r) = ds" "dropWhile is_digit (ds @ r) = r"
    using assms(1) stops_facts [OF assms(4)] by (simp_all add: list_all_iff)
  ultimately show ?thesis using assms(2) by (simp add: parse_int_def parse_digits_def)
qed

lemma parse_num_Itoa: "stops r \<Longrightarrow> parse_num (Itoa i @ r) = Some (Itoa i, r)"
proof -
  assume r: "stops r"
  have int: "parse_int (nat_to_dec n @ r) = Some (nat_to_dec n, r)" for n
    using nat_to_dec_digits [of n] nat_to_dec_0 r by (intro parse_int_digits) auto
  have nomin: "\<not> prefix ''-'' (nat_to_dec n @ r)" for n
    using nat_to_dec_digits [of n] by (cases "nat_to_dec n") (auto simp: is_digit_def between_def byte_def)
  show ?thesis using int nomin stops_facts [OF r] by (simp add: Itoa_def parse_num_def)
qed

text \<open>Values whose numbers are integers, their nesting depth, and what decoding makes of their strings.\<close>

fun int_json :: "json \<Rightarrow> bool" where
  "int_json (JNum t) \<longleftrightarrow> (\<exists>i. t = Itoa i)"
| "int_json (JArr vs) \<longleftrightarrow> list_all int_json vs"
| "int_json (JObj ms) \<longleftrightarrow> list_all (\<lambda>(k, v). int_json v) ms"
| "int_json _ \<longleftrightarrow> True"

fun depth :: "json \<Rightarrow> nat" where
  "depth (JArr vs) = Suc (foldr max (map depth vs) 0)"
| "depth (JObj ms) = Suc (foldr max (map (\<lambda>(k, v). depth v) ms) 0)"
| "depth _ = 0"

fun san :: "json \<Rightarrow> json" where
  "san (JStr s) = JStr (sanitize s)"
| "san (JArr vs) = JArr (map san vs)"
| "san (JObj ms) = JObj (map (\<lambda>(k, v). (sanitize k, san v)) ms)"
| "san v = v"

lemma skip_ws_start: "s \<noteq> [] \<Longrightarrow> \<not> is_ws (hd s) \<Longrightarrow> skip_ws s = s"
  by (cases s) (auto simp: skip_ws_def)

lemma Itoa_start: "Itoa i \<noteq> [] \<and> (hd (Itoa i) = CHR ''-'' \<or> is_digit (hd (Itoa i)))"
  using nat_to_dec_digits [of "nat i"] nat_to_dec_digits [of "nat (- i)"]
  by (cases "nat_to_dec (nat i)") (auto simp: Itoa_def)

lemma is_digit_not: "is_digit c \<Longrightarrow> c \<notin> {CHR ''{'', CHR ''['', CHR 0x22, CHR ''t'', CHR ''f'', CHR ''n'', CHR '']'', CHR ''}''} \<and> \<not> is_ws c"
proof (intro conjI notI)
  assume "is_digit c" "c \<in> {CHR ''{'', CHR ''['', CHR 0x22, CHR ''t'', CHR ''f'', CHR ''n'', CHR '']'', CHR ''}''}"
  then show False by (elim insertE emptyE) (simp_all add: is_digit_def between_def byte_def)
next
  assume "is_digit c" "is_ws c"
  then show False unfolding is_ws_def by (elim insertE emptyE) (simp_all add: is_digit_def between_def byte_def)
qed

lemma marshal_start:
  "int_json v \<Longrightarrow> marshal_value v \<noteq> [] \<and> \<not> is_ws (hd (marshal_value v)) \<and> hd (marshal_value v) \<notin> {CHR '']'', CHR ''}''}"
proof (cases v)
  case (JNum t)
  assume "int_json v"
  then obtain i where t: "t = Itoa i" using JNum by auto
  have "\<not> is_ws (CHR ''-'')" by (simp add: is_ws_def)
  then show ?thesis using Itoa_start [of i] is_digit_not [of "hd (Itoa i)"] by (auto simp: JNum t)
qed (auto simp: json_quote_def is_ws_def)

lemma parse_value_num:
  assumes "stops r"
  shows "parse_value (Suc n) d (Itoa i @ r) = Some (JNum (Itoa i), r)"
proof -
  have minus_not: "CHR ''-'' \<notin> {CHR ''{'', CHR ''['', CHR 0x22, CHR ''t'', CHR ''f'', CHR ''n''} \<and> \<not> is_ws (CHR ''-'')"
    by (simp add: is_ws_def)
  obtain c cs where c: "Itoa i = c # cs" using Itoa_start [of i] by (cases "Itoa i") auto
  then have "c \<notin> {CHR ''{'', CHR ''['', CHR 0x22, CHR ''t'', CHR ''f'', CHR ''n''} \<and> \<not> is_ws c"
    using Itoa_start [of i] is_digit_not [of c] minus_not by auto
  moreover from this have "skip_ws (Itoa i @ r) = c # (cs @ r)" by (simp add: c skip_ws_start)
  ultimately show ?thesis
    using parse_num_Itoa [OF assms, of i] unfolding parse_value.simps(2) c by simp
qed

lemma skip_ws_stop: "skip_ws (CHR '','' # r) = CHR '','' # r" "skip_ws (CHR '']'' # r) = CHR '']'' # r"
  "skip_ws (CHR ''}'' # r) = CHR ''}'' # r" "skip_ws (CHR '':'' # r) = CHR '':'' # r" "skip_ws (CHR 0x22 # r) = CHR 0x22 # r"
  "skip_ws (CHR ''{'' # r) = CHR ''{'' # r" "skip_ws (CHR ''['' # r) = CHR ''['' # r"
  by (simp_all add: skip_ws_def is_ws_def)

lemma stops_sep: "stops (CHR '','' # r)" "stops (CHR '']'' # r)" "stops (CHR ''}'' # r)"
  by (simp_all add: stops_def)

lemma foldr_max_le: "foldr max xs 0 \<le> (d::nat) \<longleftrightarrow> list_all (\<lambda>x. x \<le> d) xs"
  by (induction xs) auto

lemma parse_marshal:
  "int_json v \<Longrightarrow> depth v \<le> d \<Longrightarrow> stops r \<Longrightarrow> 2 * length (marshal_value v) + 1 \<le> n \<Longrightarrow>
     parse_value n d (marshal_value v @ r) = Some (san v, r)"
  "list_all int_json vs \<Longrightarrow> vs \<noteq> [] \<Longrightarrow> list_all (\<lambda>v. depth v \<le> d) vs \<Longrightarrow> 2 * length (marshal_elems vs) + 2 \<le> n \<Longrightarrow>
     parse_elems n d (marshal_elems vs @ CHR '']'' # r) = Some (map san vs, r)"
  "list_all (\<lambda>(k, v). int_json v) ms \<Longrightarrow> ms \<noteq> [] \<Longrightarrow> list_all (\<lambda>(k, v). depth v \<le> d) ms \<Longrightarrow>
     2 * length (marshal_members ms) + 2 \<le> n \<Longrightarrow>
     parse_members n d (marshal_members ms @ CHR ''}'' # r) = Some (map (\<lambda>(k, v). (sanitize k, san v)) ms, r)"
proof (induction v and vs and ms arbitrary: n d r and n d r and n d r
    rule: marshal_value_marshal_elems_marshal_members.induct)
  case 1
  then show ?case by (cases n) (auto simp: skip_ws_start is_ws_def parse_lit_def)
next
  case (2 b)
  then show ?case by (cases n) (auto simp: skip_ws_start is_ws_def parse_lit_def)
next
  case (3 t)
  then show ?case using parse_value_num by (cases n) (auto simp del: parse_value.simps)
next
  case (4 s)
  then show ?case by (cases n) (auto simp: json_quote_def skip_ws_stop parse_str_quote_body)
next
  case (5 vs)
  obtain m where n: "n = Suc m" using "5.prems" by (cases n) auto
  show ?case
  proof (cases vs)
    case Nil
    then show ?thesis using "5.prems" by (simp add: n skip_ws_stop)
  next
    case (Cons w ws)
    have st: "marshal_elems vs \<noteq> []" "\<not> is_ws (hd (marshal_elems vs))" "hd (marshal_elems vs) \<noteq> CHR '']''"
      using marshal_start [of w] "5.prems" by (cases ws; simp add: Cons)+
    have np: "\<not> prefix '']'' (skip_ws (marshal_elems vs @ CHR '']'' # r))"
      using st by (cases "marshal_elems vs") (auto simp: skip_ws_start)
    have dep: "d \<noteq> 0" "list_all (\<lambda>v. depth v \<le> d - 1) vs"
      using "5.prems"(2) foldr_max_le [of "map depth vs" "d - 1"] by (cases d; simp add: list.pred_map comp_def)+
    have "parse_elems m (d - 1) (marshal_elems vs @ CHR '']'' # r) = Some (map san vs, r)"
      using "5.IH" "5.prems" dep by (simp add: n Cons)
    then show ?thesis using np dep by (simp add: n skip_ws_stop)
  qed
next
  case (6 ms)
  obtain m where n: "n = Suc m" using "6.prems" by (cases n) auto
  show ?case
  proof (cases ms)
    case Nil
    then show ?thesis using "6.prems" by (simp add: n skip_ws_stop)
  next
    case (Cons w ws)
    obtain k v where w: "w = (k, v)" by (cases w)
    have st: "\<exists>x. marshal_members ms = CHR 0x22 # x"
      by (cases ws) (auto simp: Cons w json_quote_def)
    have np: "\<not> prefix ''}'' (skip_ws (marshal_members ms @ CHR ''}'' # r))"
      using st by (auto simp: skip_ws_stop)
    have dep: "d \<noteq> 0" "list_all (\<lambda>(k, v). depth v \<le> d - 1) ms"
      using "6.prems"(2) foldr_max_le [of "map (\<lambda>(k, v). depth v) ms" "d - 1"]
      by (cases d; simp add: list.pred_map comp_def case_prod_beta')+
    have "parse_members m (d - 1) (marshal_members ms @ CHR ''}'' # r) = Some (map (\<lambda>(k, v). (sanitize k, san v)) ms, r)"
      using "6.IH" "6.prems" dep by (simp add: n Cons)
    then show ?thesis using np dep by (simp add: n skip_ws_stop)
  qed
next
  case 7
  then show ?case by simp
next
  case (8 v)
  obtain m where n: "n = Suc m" using "8.prems" by (cases n) auto
  have "parse_value m d (marshal_value v @ CHR '']'' # r) = Some (san v, CHR '']'' # r)"
    using "8.IH" "8.prems" by (simp add: n stops_sep)
  then show ?case by (simp add: n skip_ws_stop)
next
  case (9 v w vs)
  obtain m where n: "n = Suc m" using "9.prems" by (cases n) auto
  have "parse_value m d (marshal_value v @ CHR '','' # marshal_elems (w # vs) @ CHR '']'' # r)
      = Some (san v, CHR '','' # marshal_elems (w # vs) @ CHR '']'' # r)"
    using "9.IH"(1) "9.prems" by (simp add: n stops_sep)
  moreover have "parse_elems m d (marshal_elems (w # vs) @ CHR '']'' # r) = Some (map san (w # vs), r)"
    using "9.IH"(2) "9.prems" by (simp add: n)
  ultimately show ?case by (simp add: n skip_ws_stop)
next
  case 10
  then show ?case by simp
next
  case (11 k v)
  obtain m where n: "n = Suc m" using "11.prems" by (cases n) auto
  have "parse_value m d (marshal_value v @ CHR ''}'' # r) = Some (san v, CHR ''}'' # r)"
    using "11.IH" "11.prems" by (simp add: n stops_sep)
  then show ?case by (simp add: n json_quote_def skip_ws_stop parse_str_quote_body)
next
  case (12 k v m ms)
  obtain l where n: "n = Suc l" using "12.prems" by (cases n) auto
  have "parse_value l d (marshal_value v @ CHR '','' # marshal_members (m # ms) @ CHR ''}'' # r)
      = Some (san v, CHR '','' # marshal_members (m # ms) @ CHR ''}'' # r)"
    using "12.IH"(1) "12.prems" by (simp add: n stops_sep)
  moreover have "parse_members l d (marshal_members (m # ms) @ CHR ''}'' # r)
      = Some (map (\<lambda>(k, v). (sanitize k, san v)) (m # ms), r)"
    using "12.IH"(2) "12.prems" by (simp add: n)
  ultimately show ?case by (simp add: n json_quote_def skip_ws_stop parse_str_quote_body)
qed

lemma json_Parse_Marshal: "int_json v \<Longrightarrow> depth v \<le> max_depth \<Longrightarrow> json_Parse (json_Marshal v) = Some (san v)"
  using parse_marshal(1) [of v max_depth "[]" "2 * length (json_Marshal v) + 2"]
  by (simp add: json_Parse_def json_First_def json_Marshal_def stops_def skip_ws_def del: parse_value.simps)

text \<open>Equations for evaluation, with the bounds of the code points as integers.\<close>

lemma unicode_escape_code [code]:
  "unicode_escape s =
     (case hex4 s of
        None \<Rightarrow> None
      | Some (r1, rest) \<Rightarrow>
          if 0xD800 \<le> int r1 \<and> int r1 < 0xE000 then
            (case rest of
               c # d # rest' \<Rightarrow>
                 (if c = backslash \<and> d = CHR ''u'' then
                    (case hex4 rest' of
                       Some (r2, rest'') \<Rightarrow>
                         if int r1 < 0xDC00 \<and> 0xDC00 \<le> int r2 \<and> int r2 < 0xE000
                         then Some (encode_rune (nat (0x10000 + (int r1 - 0xD800) * 1024 + (int r2 - 0xDC00))), rest'')
                         else Some (replacement, rest)
                     | None \<Rightarrow> Some (replacement, rest))
                  else Some (replacement, rest))
             | _ \<Rightarrow> Some (replacement, rest))
          else Some (encode_rune r1, rest))"
proof -
  have "nat (0x10000 + (int r1 - 0xD800) * 1024 + (int r2 - 0xDC00)) = 0x10000 + (r1 - 0xD800) * 1024 + (r2 - 0xDC00)"
    if "0xD800 \<le> r1" "0xDC00 \<le> r2" for r1 r2 :: nat
    using that by (simp add: nat_eq_iff of_nat_diff)
  then show ?thesis unfolding unicode_escape_def
    by (auto split: option.splits list.splits)
qed

lemma encode_rune_code [code]:
  "encode_rune n =
     (if int n < 0x80 then [char_of n]
      else if int n < 0x800 then [char_of (0xC0 + n div 64), char_of (0x80 + n mod 64)]
      else if int n < 0x10000 then
        [char_of (0xE0 + n div 4096), char_of (0x80 + n div 64 mod 64), char_of (0x80 + n mod 64)]
      else
        [char_of (0xF0 + n div 262144), char_of (0x80 + n div 4096 mod 64),
         char_of (0x80 + n div 64 mod 64), char_of (0x80 + n mod 64)])"
  by (simp add: encode_rune_def)

end
