(* ===== verification/GoHttp.thy ===== *)
theory GoHttp
  imports Authn GoUrl Json
begin

text \<open>
  Package \<open>net/http\<close> as far as the gateway uses it: the request as it arrives, the response writer, and the
  request multiplexer with patterns of a method and a literal path.

  A response writer collects a header until a status is written, then a body. An invalid status makes
  \<open>WriteHeader\<close> panic (\<open>None\<close>); informational statuses leave the response open; statuses without a body and a
  declared length bound what is written. The multiplexer cleans the path and redirects to the cleaned one,
  compares the unescaped segments with the patterns, and answers \<open>405\<close> or \<open>404\<close> where no pattern matches.

  The lemma \<open>mux_path\<close>: a request that reaches a handler has the handler's path as its decoded path.
\<close>

section \<open>Requests\<close>

record RawRequest =
  rq_Method :: string
  rq_Path :: string
  rq_RawQuery :: string
  rq_Header :: header
  rq_Body :: string
  rq_BodyErr :: "string option"

text \<open>\<open>URL.Path\<close> is the decoded path; \<open>URL.Query()\<close> the decoded parameters.\<close>

definition request_of :: "RawRequest \<Rightarrow> Request" where
  "request_of q =
     \<lparr>r_Method = rq_Method q, r_Path = unescape False (rq_Path q),
      r_Query = concat (map (\<lambda>(k, vs). map (Pair k) vs) (url_Query (url_empty\<lparr>url_RawQuery := rq_RawQuery q\<rparr>))),
      r_Header = rq_Header q, r_Body = rq_Body q, r_BodyErr = rq_BodyErr q\<rparr>"

definition Query_Get :: "Request \<Rightarrow> string \<Rightarrow> string" where
  "Query_Get r k = (case map_of (r_Query r) k of None \<Rightarrow> [] | Some v \<Rightarrow> v)"

section \<open>Response writers\<close>

record response =
  rw_Header :: header
  rw_Status :: "int option"
  rw_Sent :: header
  rw_Body :: string

definition new_response :: response where
  "new_response = \<lparr>rw_Header = [], rw_Status = None, rw_Sent = [], rw_Body = []\<rparr>"

definition set_rw :: "string \<Rightarrow> string \<Rightarrow> response \<Rightarrow> response" where
  "set_rw k v w = w\<lparr>rw_Header := Header_Set (rw_Header w) k v\<rparr>"

definition WriteHeader :: "int \<Rightarrow> response \<Rightarrow> response option" where
  "WriteHeader code w =
     (if rw_Status w \<noteq> None then Some w
      else if code < 100 \<or> 999 < code then None
      else if code \<le> 199 \<and> code \<noteq> 101 then Some w
      else Some (w\<lparr>rw_Status := Some code, rw_Sent := rw_Header w\<rparr>))"

definition bodyAllowed :: "int \<Rightarrow> bool" where
  "bodyAllowed status \<longleftrightarrow> \<not> (100 \<le> status \<and> status \<le> 199) \<and> status \<noteq> 204 \<and> status \<noteq> 304"

text \<open>The declared length, where it is a number that is not negative.\<close>

definition declared_length :: "header \<Rightarrow> int option" where
  "declared_length h =
     (case Atoi (Header_Get h ''Content-Length'') of Some n \<Rightarrow> if 0 \<le> n then Some n else None | None \<Rightarrow> None)"

text \<open>\<open>fail\<close> is the error of the connection, if it is broken; what was written before counts as written.\<close>

definition rw_Write :: "string option \<Rightarrow> string \<Rightarrow> response \<Rightarrow> string option \<times> response" where
  "rw_Write fail data w =
     (let w = (if rw_Status w = None then w\<lparr>rw_Status := Some 200, rw_Sent := rw_Header w\<rparr> else w) in
      if data = [] then (None, w)
      else if \<not> bodyAllowed (the (rw_Status w))
      then (Some ''http: request method or response status code does not allow body'', w)
      else if (case declared_length (rw_Sent w) of None \<Rightarrow> False | Some n \<Rightarrow> n < int (length (rw_Body w @ data)))
      then (Some ''http: wrote more than the declared Content-Length'', w)
      else (fail, w\<lparr>rw_Body := rw_Body w @ data\<rparr>))"

section \<open>The multiplexer\<close>

fun clean_segments :: "string list \<Rightarrow> string list \<Rightarrow> string list" where
  "clean_segments out [] = rev out"
| "clean_segments out (s # ss) =
     (if s = [] \<or> s = ''.'' then clean_segments out ss
      else if s = ''..'' then clean_segments (tl out) ss
      else clean_segments (s # out) ss)"

definition cleanPath :: "string \<Rightarrow> string" where
  "cleanPath p =
     (if p = [] then ''/''
      else let p = (if hd p = CHR ''/'' then p else CHR ''/'' # p);
               np = CHR ''/'' # Join (clean_segments [] (Split (CHR ''/'') p)) ''/''
           in if last p = CHR ''/'' \<and> np \<noteq> ''/'' then np @ ''/'' else np)"

text \<open>A pattern is a method and a path, here as its segments.\<close>

type_synonym pattern = "string \<times> string list"

definition path_segments :: "string \<Rightarrow> string list" where
  "path_segments path = map (unescape False) (tl (Split (CHR ''/'') path))"

definition method_matches :: "string \<Rightarrow> string \<Rightarrow> bool" where
  "method_matches pat method \<longleftrightarrow> pat = method \<or> pat = ''GET'' \<and> method = ''HEAD''"

datatype route =
    Handler nat
  | Redirect string
  | MethodNotAllowed "string list"
  | NotFound

definition find_pattern :: "pattern list \<Rightarrow> string \<Rightarrow> string \<Rightarrow> nat option" where
  "find_pattern ps method path =
     find (\<lambda>i. method_matches (fst (ps ! i)) method \<and> snd (ps ! i) = path_segments path) [0..<length ps]"

definition allowed_methods :: "pattern list \<Rightarrow> string \<Rightarrow> string list" where
  "allowed_methods ps path =
     (let ms = map fst (filter (\<lambda>p. snd p = path_segments path) ps)
      in (if ''GET'' \<in> set ms then [''GET'', ''HEAD''] else []) @ (if ''POST'' \<in> set ms then [''POST''] else []))"

definition mux_route :: "pattern list \<Rightarrow> RawRequest \<Rightarrow> route" where
  "mux_route ps q =
     (let escapedPath = EscapedPath (url_empty\<lparr>url_RawPath := rq_Path q\<rparr>);
          path = (if rq_Method q = ''CONNECT'' then escapedPath else cleanPath escapedPath)
      in if path \<noteq> escapedPath
         then Redirect (escape EncodePath path @ (if rq_RawQuery q = [] then [] else ''?'' @ rq_RawQuery q))
         else case find_pattern ps (rq_Method q) path of
           Some i \<Rightarrow> Handler i
         | None \<Rightarrow>
             (case allowed_methods ps path of [] \<Rightarrow> NotFound | ms \<Rightarrow> MethodNotAllowed ms))"

text \<open>The replies of the package itself: \<open>http.Error\<close> and \<open>http.Redirect\<close>.\<close>

definition http_Error :: "string \<Rightarrow> int \<Rightarrow> response \<Rightarrow> response option" where
  "http_Error msg code w =
     (case WriteHeader code
             (set_rw ''X-Content-Type-Options'' ''nosniff'' (set_rw ''Content-Type'' ''text/plain; charset=utf-8'' w)) of
        None \<Rightarrow> None
      | Some w \<Rightarrow> Some (snd (rw_Write None (msg @ [CHR 0x0A]) w)))"

definition html_escape :: "string \<Rightarrow> string" where
  "html_escape s = concat (map (\<lambda>c.
     if c = CHR ''&'' then ''&amp;'' else if c = CHR ''<'' then ''&lt;'' else if c = CHR ''>'' then ''&gt;''
     else if byte c = 0x22 then ''&#34;'' else if byte c = 0x27 then ''&#39;'' else [c]) s)"

definition http_Redirect :: "string \<Rightarrow> string \<Rightarrow> response \<Rightarrow> response option" where
  "http_Redirect method target w =
     (let get = (method = ''GET'' \<or> method = ''HEAD'');
          w = set_rw ''Location'' target w;
          w = (if get then set_rw ''Content-Type'' ''text/html; charset=utf-8'' w else w)
      in case WriteHeader 301 w of
           None \<Rightarrow> None
         | Some w \<Rightarrow>
             Some (if method = ''GET''
                   then snd (rw_Write None
                     (''<a href='' @ [CHR 0x22] @ html_escape target @ [CHR 0x22] @ ''>Moved Permanently</a>.'' @ [CHR 0x0A, CHR 0x0A]) w)
                   else w))"

section \<open>Facts\<close>

lemma hex_not_slash: "is_hex c \<Longrightarrow> c \<noteq> CHR ''/''"
  by (auto simp: is_hex_def is_digit_def between_def byte_def)

lemma Join_Cons_char: "Join ((c # s) # ss) sep = c # Join (s # ss) sep"
  by (cases ss) auto

lemma unescape_Split:
  "escapes_ok p \<Longrightarrow> unescape False p = Join (map (unescape False) (Split (CHR ''/'') p)) ''/''"
proof (induction p rule: escapes_ok.induct)
  case (2 c cs)
  show ?case
  proof (cases "c = CHR ''%''")
    case True
    then obtain a b r where r: "cs = a # b # r" "is_hex a" "is_hex b" "escapes_ok r"
      using "2.prems" by (auto split: list.splits)
    obtain s ss where sp: "Split (CHR ''/'') r = s # ss" using Split_nonempty by (metis list.exhaust)
    have "unescape False r = Join (map (unescape False) (s # ss)) ''/''" using "2.IH"(1) True r sp by auto
    then show ?thesis using True r(1) sp hex_not_slash [OF r(2)] hex_not_slash [OF r(3)] by (simp add: Join_Cons_char)
  next
    case False
    obtain s ss where sp: "Split (CHR ''/'') cs = s # ss" using Split_nonempty by (metis list.exhaust)
    have "unescape False cs = Join (map (unescape False) (s # ss)) ''/''" using "2.IH"(2) "2.prems" False sp by auto
    then show ?thesis using False sp by (simp add: Join_Cons_char)
  qed
qed simp

lemma hex_upper_hex: "d < 16 \<Longrightarrow> is_hex (hex_upper d)"
  by (auto simp: hex_upper_def is_hex_def is_digit_def between_def byte_def)

lemma escapes_ok_escape_char: "escapes_ok s \<Longrightarrow> escapes_ok (escape_char mode c @ s)"
proof -
  assume s: "escapes_ok s"
  have "byte c div 16 < 16" using byte_less [of c] by linarith
  then show ?thesis using s shouldEscape_percent [of mode] by (auto simp: escape_char_def hex_upper_hex)
qed

lemma escapes_ok_escape: "escapes_ok (escape mode s)"
  by (induction s) (auto simp: escape_def escapes_ok_escape_char)

lemma EscapedPath_ok: "escapes_ok (url_RawPath u) \<Longrightarrow> escapes_ok (EscapedPath u)"
  by (simp add: EscapedPath_def escaped_again_def escapes_ok_escape)

lemma unescape_EscapedPath: "unescape False (EscapedPath u) = unescape False (url_RawPath u)"
  using unescape_escape [of EncodePath] by (simp add: EscapedPath_def escaped_again_def)

lemma cleanPath_rooted: "\<exists>r. cleanPath p = CHR ''/'' # r"
  by (simp add: cleanPath_def Let_def)

lemma find_patternD:
  "find_pattern ps m path = Some i \<Longrightarrow> i < length ps \<and> method_matches (fst (ps ! i)) m \<and> snd (ps ! i) = path_segments path"
  by (auto simp: find_pattern_def dest: find_SomeD)

lemma mux_path:
  assumes "mux_route ps q = Handler i" and "escapes_ok (rq_Path q)" and "\<forall>p \<in> set ps. fst p \<in> {''GET'', ''POST''}"
  shows "i < length ps \<and> method_matches (fst (ps ! i)) (rq_Method q) \<and> r_Path (request_of q) = CHR ''/'' # Join (snd (ps ! i)) ''/''"
proof -
  let ?e = "EscapedPath (url_empty\<lparr>url_RawPath := rq_Path q\<rparr>)"
  have f: "find_pattern ps (rq_Method q) ?e = Some i"
    and c: "rq_Method q \<noteq> ''CONNECT'' \<Longrightarrow> cleanPath ?e = ?e"
    using assms(1) by (auto simp: mux_route_def Let_def split: if_splits option.splits list.splits)
  note p = find_patternD [OF f]
  have "rq_Method q \<noteq> ''CONNECT''" using p assms(3) by (force simp: method_matches_def in_set_conv_nth)
  then obtain r where r: "?e = CHR ''/'' # r" using c cleanPath_rooted by metis
  have "r_Path (request_of q) = unescape False ?e" by (simp add: request_of_def unescape_EscapedPath)
  also have "\<dots> = Join (map (unescape False) (Split (CHR ''/'') ?e)) ''/''"
    by (rule unescape_Split) (rule EscapedPath_ok, simp add: assms(2))
  also have "\<dots> = CHR ''/'' # Join (path_segments ?e) ''/''"
    unfolding r using Split_nonempty [of "CHR ''/''" r] by (cases "Split (CHR ''/'') r") (simp_all add: path_segments_def)
  finally show ?thesis using p by simp
qed

end
