(* ===== verification/GoFloat.thy ===== *)
theory GoFloat
  imports Json
begin

text \<open>
  The texts that packages \<open>strconv\<close>, \<open>fmt\<close> and \<open>encoding/json\<close> write for a \<open>float64\<close>: the shortest decimal
  that rounds to the value (\<open>json_float\<close>), and six digits after the point (\<open>format_fixed6\<close>, the verb \<open>%.6f\<close>).

  The theorem \<open>json_float_round_trip\<close> says that the text of a value parses to the value.
\<close>

section \<open>Shortest decimals\<close>

definition pow10 :: "int \<Rightarrow> rat" where
  "pow10 e = (if e < 0 then 1 / 10 ^ nat (- e) else 10 ^ nat e)"

text \<open>The position of the decimal point of a positive \<open>x\<close>: \<open>10^(k - 1) \<le> x < 10^k\<close>.\<close>

fun lead_zeros :: "nat \<Rightarrow> rat \<Rightarrow> nat" where
  "lead_zeros 0 x = 0"
| "lead_zeros (Suc n) x = (if 1 \<le> 10 * x then 0 else Suc (lead_zeros n (10 * x)))"

definition dec_point :: "rat \<Rightarrow> int" where
  "dec_point x = (if 1 \<le> x then int (length (nat_to_dec (nat \<lfloor>x\<rfloor>))) else - int (lead_zeros 400 x))"

text \<open>
  A multiple of \<open>10^-q\<close> next to \<open>x\<close> that rounds to \<open>x\<close>: the nearer one where both neighbours do.
\<close>

definition decimal_at :: "rat \<Rightarrow> int \<Rightarrow> int option" where
  "decimal_at x q =
     (let s = x * pow10 q; lo = \<lfloor>s\<rfloor>; ok = \<lambda>m. fl (of_int m * pow10 (- q)) = Fin x
      in if ok lo \<and> ok (lo + 1) then Some (rne s)
         else if ok lo then Some lo else if ok (lo + 1) then Some (lo + 1) else None)"

text \<open>
  The first number of digits for which there is one. A \<open>float64\<close> is a multiple of \<open>2^-1074\<close>, hence of
  \<open>10^-1074\<close>, and below \<open>10^309\<close>: the fuel covers every number of digits up to the exact decimal.
\<close>

fun shortest_from :: "nat \<Rightarrow> rat \<Rightarrow> int \<Rightarrow> (int \<times> int) option" where
  "shortest_from 0 x q = None"
| "shortest_from (Suc n) x q =
     (case decimal_at x q of Some m \<Rightarrow> Some (m, q) | None \<Rightarrow> shortest_from n x (q + 1))"

definition strip_zeros :: "string \<Rightarrow> string" where
  "strip_zeros ds = rev (dropWhile (\<lambda>c. c = CHR ''0'') (rev ds))"

definition shortest :: "rat \<Rightarrow> string \<times> int" where
  "shortest x =
     (case shortest_from 2000 x (1 - dec_point x) of
        None \<Rightarrow> (''0'', 0)
      | Some (m, q) \<Rightarrow> let ds = nat_to_dec (nat m) in (strip_zeros ds, int (length ds) - q))"

section \<open>Formats\<close>

text \<open>The digits \<open>ds\<close> with the point after \<open>dp\<close> of them, in positional and in exponent notation.\<close>

definition frac_part :: "string \<Rightarrow> string" where
  "frac_part f = (if f = [] then [] else CHR ''.'' # f)"

definition fmtF :: "string \<Rightarrow> int \<Rightarrow> string" where
  "fmtF ds dp =
     (if dp \<le> 0 then ''0'' @ frac_part (replicate (nat (- dp)) (CHR ''0'') @ ds)
      else take (nat dp) ds @ replicate (nat dp - length ds) (CHR ''0'') @ frac_part (drop (nat dp) ds))"

definition fmtE :: "string \<Rightarrow> int \<Rightarrow> string" where
  "fmtE ds dp =
     take 1 ds @ frac_part (drop 1 ds) @ ''e'' @ (if dp - 1 < 0 then ''-'' else ''+'') @ nat_to_dec (nat \<bar>dp - 1\<bar>)"

definition float_text :: "rat \<Rightarrow> string" where
  "float_text x =
     (case shortest x of (ds, dp) \<Rightarrow>
        if f64_lt (Fin x) (fl (1 / 1000000)) \<or> 10 ^ 21 \<le> x then fmtE ds dp else fmtF ds dp)"

fun json_float :: "f64 \<Rightarrow> string option" where
  "json_float (Fin x) = Some (if x = 0 then ''0'' else if x < 0 then ''-'' @ float_text (- x) else float_text x)"
| "json_float _ = None"

text \<open>The verb \<open>%.6f\<close>.\<close>

definition fixed6 :: "nat \<Rightarrow> string" where
  "fixed6 n = nat_to_dec (n div 1000000) @ ''.'' @
     (let f = nat_to_dec (n mod 1000000) in replicate (6 - length f) (CHR ''0'') @ f)"

fun format_fixed6 :: "f64 \<Rightarrow> string" where
  "format_fixed6 (Fin x) = (if x < 0 then ''-'' else []) @ fixed6 (nat \<bar>rne (x * 1000000)\<bar>)"
| "format_fixed6 PInf = ''+Inf''"
| "format_fixed6 NInf = ''-Inf''"
| "format_fixed6 NaN = ''NaN''"

section \<open>The value of a written number\<close>

lemma digits_value_append: "digits_value (a @ b) = digits_value a * 10 ^ length b + digits_value b"
proof (induction b rule: rev_induct)
  case (snoc c b)
  have "digits_value (a @ b @ [c]) = 10 * digits_value (a @ b) + (byte c - 48)"
    using digits_value_snoc [of "a @ b" c] by simp
  then show ?case using snoc by (simp add: digits_value_snoc)
qed (simp add: digits_value_def)

lemma is_digit_facts:
  "is_digit (CHR ''0'')" "\<not> is_digit (CHR ''.'')" "\<not> is_digit (CHR ''e'')" "\<not> is_digit (CHR ''E'')"
  "\<not> is_digit (CHR ''-'')" "\<not> is_digit (CHR ''+'')"
  by code_simp+

lemma pow10_powi: "pow10 e = 10 powi e"
  by (simp add: pow10_def power_int_def field_simps)

definition mantissa :: "string \<Rightarrow> string \<Rightarrow> bool" where
  "mantissa i f \<longleftrightarrow> i \<noteq> [] \<and> list_all is_digit i \<and> list_all is_digit f"

lemma mantissa_facts:
  assumes "mantissa i f"
  shows "takeWhile (\<lambda>c. c \<noteq> CHR ''e'' \<and> c \<noteq> CHR ''E'') (i @ frac_part f) = i @ frac_part f"
    and "takeWhile (\<lambda>c. c \<noteq> CHR ''e'' \<and> c \<noteq> CHR ''E'') (i @ frac_part f @ CHR ''e'' # r) = i @ frac_part f"
    and "drop (Suc (length (takeWhile is_digit (i @ frac_part f)))) (i @ frac_part f) = f"
    and "filter is_digit (i @ frac_part f) = i @ f"
    and "\<not> prefix ''-'' (i @ frac_part f @ t)"
proof -
  have "is_digit c \<or> c = CHR ''.''" if "c \<in> set (i @ frac_part f)" for c
  proof -
    have "c \<in> set i \<or> c = CHR ''.'' \<or> c \<in> set f" using that by (cases "f = []") (simp_all add: frac_part_def disj_left_commute)
    then show ?thesis using assms unfolding mantissa_def list_all_iff by blast
  qed
  moreover have "CHR ''.'' \<noteq> CHR ''e''" "CHR ''.'' \<noteq> CHR ''E''" by simp_all
  ultimately have e: "c \<noteq> CHR ''e'' \<and> c \<noteq> CHR ''E''" if "c \<in> set (i @ frac_part f)" for c
    using that is_digit_facts(3,4) by blast
  then show "takeWhile (\<lambda>c. c \<noteq> CHR ''e'' \<and> c \<noteq> CHR ''E'') (i @ frac_part f) = i @ frac_part f"
    unfolding takeWhile_eq_all_conv by blast
  from e show "takeWhile (\<lambda>c. c \<noteq> CHR ''e'' \<and> c \<noteq> CHR ''E'') (i @ frac_part f @ CHR ''e'' # r) = i @ frac_part f"
    by (subst append_assoc [symmetric], subst takeWhile_append2) auto
  have "takeWhile is_digit (i @ frac_part f) = i"
    using assms is_digit_facts(2) by (simp add: mantissa_def list_all_iff frac_part_def)
  then show "drop (Suc (length (takeWhile is_digit (i @ frac_part f)))) (i @ frac_part f) = f"
    by (auto simp: frac_part_def)
  show "filter is_digit (i @ frac_part f) = i @ f"
    using assms is_digit_facts(2) by (auto simp: mantissa_def list_all_iff frac_part_def)
  show "\<not> prefix ''-'' (i @ frac_part f @ t)"
    using assms is_digit_facts(5) by (cases i) (auto simp: mantissa_def)
qed

lemma mag_pow10: "(if e < 0 then d / 10 ^ nat (- e) else d * 10 ^ nat e) = d * pow10 e" for d :: rat
  by (simp add: pow10_def)

lemma num_valueI:
  assumes "\<not> prefix ''-'' t" and "takeWhile (\<lambda>c. c \<noteq> CHR ''e'' \<and> c \<noteq> CHR ''E'') t = m"
    and "drop (Suc (length (takeWhile is_digit m))) m = f" and "filter is_digit m = g" and "drop (Suc (length m)) t = ex"
  shows "num_value t = of_nat (digits_value g) *
    pow10 ((if prefix ''-'' ex then - int (digits_value (tl ex))
            else int (digits_value (if prefix ''+'' ex then tl ex else ex))) - int (length f))"
  unfolding num_value_def Let_def using assms by (simp only: if_False mag_pow10 of_int_of_nat_eq)

lemma num_value_positional:
  assumes "mantissa i f"
  shows "num_value (i @ frac_part f) = of_nat (digits_value (i @ f)) * pow10 (- int (length f))"
  using num_valueI [OF _ mantissa_facts(1) [OF assms] mantissa_facts(3) [OF assms] mantissa_facts(4) [OF assms] refl]
    mantissa_facts(5) [OF assms, of "[]"] by (simp add: digits_value_def [of "[]"])

lemma num_value_exponent:
  assumes "mantissa i f"
  shows "num_value (i @ frac_part f @ ''e'' @ (if k < 0 then ''-'' else ''+'') @ nat_to_dec (nat \<bar>k\<bar>)) =
    of_nat (digits_value (i @ f)) * pow10 (k - int (length f))"
proof -
  let ?ex = "(if k < 0 then ''-'' else ''+'') @ nat_to_dec (nat \<bar>k\<bar>)"
  have "drop (Suc (length (i @ frac_part f))) (i @ frac_part f @ CHR ''e'' # ?ex) = ?ex" by simp
  from num_valueI [OF mantissa_facts(5) [OF assms] mantissa_facts(2) [OF assms] mantissa_facts(3) [OF assms]
      mantissa_facts(4) [OF assms] this]
  show ?thesis by (auto simp: digits_value_nat_to_dec)
qed

lemma num_value_neg: "\<not> prefix ''-'' t \<Longrightarrow> num_value (CHR ''-'' # t) = - num_value t"
  by (simp add: num_value_def Let_def)

lemma digits_value_0: "digits_value (CHR ''0'' # ds) = digits_value ds"
  using digits_value_append [of "''0''" ds] digits_value_zeros0 [of 1] by simp

lemma fmtF_value:
  assumes "ds \<noteq> []" and "list_all is_digit ds"
  shows "num_value (fmtF ds dp) = of_nat (digits_value ds) * pow10 (dp - int (length ds))"
proof (cases "dp \<le> 0")
  case True
  let ?f = "replicate (nat (- dp)) (CHR ''0'') @ ds"
  have "mantissa ''0'' ?f" using assms is_digit_facts(1) by (auto simp: mantissa_def list_all_iff)
  then show ?thesis using num_value_positional [of "''0''" ?f] True
    by (simp add: fmtF_def digits_value_append digits_value_0)
next
  case False
  let ?i = "take (nat dp) ds @ replicate (nat dp - length ds) (CHR ''0'')" and ?f = "drop (nat dp) ds"
  have m: "mantissa ?i ?f" using assms is_digit_facts(1) False
    by (auto simp: mantissa_def list_all_iff dest: in_set_takeD in_set_dropD)
  have v: "of_nat (digits_value (?i @ ?f)) * pow10 (- int (length ?f)) = of_nat (digits_value ds) * pow10 (dp - int (length ds))"
  proof (cases "length ds \<le> nat dp")
    case True
    then have "\<not> dp < int (length ds)" "nat dp - length ds = nat (dp - int (length ds))" using False by linarith+
    then show ?thesis using True by (simp add: digits_value_append pow10_def)
  next
    case le: False
    then show ?thesis using False by simp
  qed
  show ?thesis using num_value_positional [OF m] v False by (simp add: fmtF_def)
qed

lemma fmtE_value:
  assumes "ds \<noteq> []" and "list_all is_digit ds"
  shows "num_value (fmtE ds dp) = of_nat (digits_value ds) * pow10 (dp - int (length ds))"
proof -
  have "mantissa (take 1 ds) (drop 1 ds)" using assms by (auto simp: mantissa_def list_all_iff dest: in_set_takeD in_set_dropD)
  from num_value_exponent [OF this, of "dp - 1"] show ?thesis
    using assms(1) by (cases ds) (simp_all add: fmtE_def diff_diff_add)
qed

lemma not_minus:
  assumes "ds \<noteq> []" and "list_all is_digit ds"
  shows "\<not> prefix ''-'' (fmtF ds dp)" and "\<not> prefix ''-'' (fmtE ds dp)"
  using assms is_digit_facts(5) by (cases ds; cases "nat dp"; auto simp: fmtF_def fmtE_def)+

section \<open>The shortest decimal exists and rounds to the value\<close>

lemma decimal_at_rounds: "decimal_at x q = Some m \<Longrightarrow> fl (of_int m * pow10 (- q)) = Fin x"
  by (auto simp: decimal_at_def Let_def rne_def split: if_splits)

lemma decimal_at_integer: "f64_ok (Fin x) \<Longrightarrow> x * pow10 q = of_int n \<Longrightarrow> decimal_at x q \<noteq> None"
proof -
  assume ok: "f64_ok (Fin x)" and n: "x * pow10 q = of_int n"
  have "x = of_int n * pow10 (- q)" using n by (simp add: pow10_powi power_int_minus field_simps flip: n)
  then have "fl (of_int n * pow10 (- q)) = Fin x" using fl_ok [OF ok] by metis
  then show ?thesis unfolding decimal_at_def Let_def n floor_of_int by simp
qed

lemma shortest_from_rounds: "shortest_from n x q = Some (m, q') \<Longrightarrow> fl (of_int m * pow10 (- q')) = Fin x"
  by (induction n arbitrary: q) (auto split: option.splits dest: decimal_at_rounds)

lemma shortest_from_finds: "decimal_at x (q + int j) \<noteq> None \<Longrightarrow> j < n \<Longrightarrow> shortest_from n x q \<noteq> None"
proof (induction n arbitrary: q j)
  case (Suc n)
  show ?case
  proof (cases j)
    case 0
    then show ?thesis using Suc.prems by (auto split: option.splits)
  next
    case (Suc k)
    then show ?thesis using Suc.IH [of "q + 1" k] Suc.prems by (auto split: option.splits simp: algebra_simps)
  qed
qed simp

lemma lead_zeros_le: "lead_zeros n x \<le> n"
  by (induction n arbitrary: x) auto

lemma scaled_integer:
  assumes "- int n \<le> e"
  shows "of_int m * 2 powi e * 10 powi int n = (of_int (m * (2 ^ nat (e + int n) * 5 ^ n)) :: rat)"
proof -
  have "(10 :: rat) powi int n = 2 powi int n * 5 powi int n" by (simp flip: power_mult_distrib)
  moreover have "(2 powi e * 2 powi int n :: rat) = 2 powi int (nat (e + int n))"
    using assms by (simp add: power_int_add del: power_int_of_nat)
  ultimately have "of_int m * 2 powi e * 10 powi int n = (of_int m * (2 powi int (nat (e + int n)) * 5 powi int n) :: rat)"
    by (metis mult.assoc)
  then show ?thesis by (simp only: power_int_of_nat of_int_mult of_int_power of_int_numeral)
qed

lemma f64_scaled_integer: "f64_ok (Fin x) \<Longrightarrow> \<exists>n. x * pow10 1074 = of_int n"
proof -
  assume "f64_ok (Fin x)"
  then obtain m e where e: "- int 1074 \<le> e" and x: "x = of_int m * 2 powi e" using rnd_rep [of x] by auto
  show ?thesis using scaled_integer [OF e, of m] unfolding x pow10_powi by (metis of_nat_numeral)
qed

lemma dec_point_bounds:
  assumes "f64_ok (Fin x)"
  shows "- 400 \<le> dec_point x" and "dec_point x \<le> 400"
proof -
  show "- 400 \<le> dec_point x" using lead_zeros_le [of 400 x] by (simp add: dec_point_def)
  have "x < 10 ^ 400"
  proof (cases "0 < x")
    case True
    then have "ilog2 x + 1 \<le> 1024" using assms by auto
    then have "x < 2 powi 1024" using ilog2_bounds(2) [OF True] powi2_mono [of "ilog2 x + 1" 1024] by linarith
    also have "(2 powi 1024 :: rat) \<le> 10 ^ 400"
    proof -
      have "(2 ^ 1024 :: nat) \<le> 10 ^ 400" by simp
      then have "(of_nat (2 ^ 1024) :: rat) \<le> of_nat (10 ^ 400)" by (simp only: of_nat_le_iff)
      then show ?thesis by (simp only: of_nat_power of_nat_numeral power_int_numeral)
    qed
    finally show ?thesis .
  next
    case False
    have "(0::rat) < 10 ^ 400" by (rule zero_less_power) simp
    with False show ?thesis by linarith
  qed
  then have "of_int \<lfloor>x\<rfloor> < (of_int (10 ^ 400) :: rat)" using of_int_floor_le [of x] unfolding of_int_power of_int_numeral by linarith
  then have "\<lfloor>x\<rfloor> < 10 ^ 400" by (simp only: of_int_less_iff)
  then have "nat \<lfloor>x\<rfloor> < nat (10 ^ 400)" by (rule nat_mono_iff [THEN iffD2, rotated]) (rule zero_less_power, simp)
  also have "nat (10 ^ 400) = 10 ^ 400" by (simp only: nat_power_eq nat_numeral zero_le_numeral)
  finally have "length (nat_to_dec (nat \<lfloor>x\<rfloor>)) \<le> 400" by (rule nat_to_dec_length [rotated]) simp
  then show "dec_point x \<le> 400" by (simp add: dec_point_def)
qed

lemma shortest_from_total:
  assumes "f64_ok (Fin x)"
  shows "shortest_from 2000 x (1 - dec_point x) \<noteq> None"
proof (rule shortest_from_finds)
  let ?j = "nat (1073 + dec_point x)"
  have j: "1 - dec_point x + int ?j = 1074" using dec_point_bounds(1) [OF assms] by simp
  show "decimal_at x (1 - dec_point x + int ?j) \<noteq> None"
    unfolding j using f64_scaled_integer [OF assms] decimal_at_integer [OF assms] by blast
  show "?j < 2000" using dec_point_bounds(2) [OF assms] by linarith
qed

lemma strip_zeros_split: "\<exists>k. ds = strip_zeros ds @ replicate k (CHR ''0'')"
proof -
  have "rev ds = takeWhile (\<lambda>c. c = CHR ''0'') (rev ds) @ dropWhile (\<lambda>c. c = CHR ''0'') (rev ds)" by simp
  moreover have "takeWhile (\<lambda>c. c = CHR ''0'') (rev ds) = replicate (length (takeWhile (\<lambda>c. c = CHR ''0'') (rev ds))) (CHR ''0'')"
    by (rule replicate_eqI) (auto dest: set_takeWhileD)
  ultimately have "ds = strip_zeros ds @ rev (replicate (length (takeWhile (\<lambda>c. c = CHR ''0'') (rev ds))) (CHR ''0''))"
    unfolding strip_zeros_def by (metis rev_append rev_rev_ident)
  then show ?thesis by (metis rev_replicate)
qed

lemma shortest_rounds:
  assumes "f64_ok (Fin x)" and "0 < x" and "shortest x = (ds, dp)"
  shows "ds \<noteq> []" and "list_all is_digit ds" and "fl (of_nat (digits_value ds) * pow10 (dp - int (length ds))) = Fin x"
proof -
  obtain m q where s: "shortest_from 2000 x (1 - dec_point x) = Some (m, q)" using shortest_from_total [OF assms(1)] by auto
  have r: "fl (of_int m * pow10 (- q)) = Fin x" by (rule shortest_from_rounds [OF s])
  have "0 < rnd (of_int m * pow10 (- q))" using r assms(2) by (auto simp: fl_def Let_def split: if_splits)
  then have "0 < of_int m * pow10 (- q)" by (rule rnd_pos_iff)
  moreover have "0 < pow10 (- q)" by (simp add: pow10_powi)
  ultimately have m: "0 < m" by (simp add: zero_less_mult_iff)
  define full where "full = nat_to_dec (nat m)"
  have ds: "ds = strip_zeros full" "dp = int (length full) - q" using assms(3) s by (auto simp: shortest_def Let_def full_def)
  obtain k where k: "full = ds @ replicate k (CHR ''0'')" using strip_zeros_split [of full] ds(1) by auto
  have v: "digits_value full = nat m" by (simp add: full_def digits_value_nat_to_dec)
  have dv: "nat m = digits_value ds * 10 ^ k" using v unfolding k digits_value_append by simp
  show "ds \<noteq> []" using dv m by (auto simp: digits_value_def)
  show "list_all is_digit ds" using nat_to_dec_digits [of "nat m"] k unfolding full_def [symmetric] by simp
  have "of_nat (digits_value ds) * pow10 (dp - int (length ds)) = of_nat (digits_value ds) * (10 ^ k * pow10 (- q))"
  proof -
    have "dp - int (length ds) = int k + - q" using k ds(2) by simp
    moreover have "(10 :: rat) powi (int k + - q) = 10 ^ k * 10 powi - q" by (subst power_int_add) simp_all
    ultimately show ?thesis by (simp only: pow10_powi)
  qed
  also have "\<dots> = of_int m * pow10 (- q)"
  proof -
    have "of_int m = (of_nat (nat m) :: rat)" using m by simp
    then show ?thesis by (simp only: dv of_nat_mult of_nat_power of_nat_numeral mult.assoc)
  qed
  finally show "fl (of_nat (digits_value ds) * pow10 (dp - int (length ds))) = Fin x" using r by simp
qed

lemma float_text_value:
  assumes "f64_ok (Fin x)" and "0 < x"
  shows "fl (num_value (float_text x)) = Fin x" and "\<not> prefix ''-'' (float_text x)"
proof -
  obtain ds dp where s: "shortest x = (ds, dp)" by fastforce
  note d = shortest_rounds [OF assms s]
  show "fl (num_value (float_text x)) = Fin x" using d by (simp add: float_text_def s fmtE_value fmtF_value)
  show "\<not> prefix ''-'' (float_text x)" using d(1,2) by (simp add: float_text_def s not_minus)
qed

lemma fl_neg: "fl (- x) = f64_neg (fl x)"
  by (auto simp: fl_def Let_def rnd_neg)

theorem json_float_round_trip:
  assumes "f64_ok (Fin x)"
  shows "\<exists>t. json_float (Fin x) = Some t \<and> ParseFloat t = Some (Fin x)"
proof (cases x "0 :: rat" rule: linorder_cases)
  case less
  then have "f64_ok (Fin (- x))" using assms by (simp add: rnd_neg)
  then show ?thesis using float_text_value [of "- x"] less by (simp add: ParseFloat_def num_value_neg fl_neg)
next
  case equal
  have "num_value ''0'' = 0" by code_simp
  then show ?thesis using equal by (simp add: ParseFloat_def)
next
  case greater
  then show ?thesis using float_text_value [OF assms] by (simp add: ParseFloat_def)
qed

end
