(* ===== verification/GoTime.thy ===== *)
theory GoTime
  imports GoStd
begin

text \<open>
  The part of package \<open>time\<close> that formats and parses instants: the civil date of an instant in UTC,
  \<open>Format("2006-01-02")\<close>, and the layout \<open>time.RFC3339Nano\<close> in both directions. Parsing follows the
  package's own parser for RFC 3339 (four-digit years, two-digit fields in range, an optional fraction of a
  second, \<open>Z\<close> or a numeric zone).

  The lemmas: a date determines its day, so different days have different names, and parsing a formatted
  instant gives the instant back.
\<close>

section \<open>Dates\<close>

definition nanos_per_second :: int where "nanos_per_second = 1000000000"
definition seconds_per_day :: int where "seconds_per_day = 86400"

text \<open>The number of the day of an instant; day \<open>0\<close> is January 1, year 1.\<close>

definition day_number :: "time \<Rightarrow> int" where
  "day_number t = t div (seconds_per_day * nanos_per_second)"

text \<open>
  Year, month and day of a day's number, with years that start in March and cycles of 400 years of 146097 days.
\<close>

definition civil :: "int \<Rightarrow> int \<times> int \<times> int" where
  "civil n =
     (let z = n + 306;
          era = z div 146097;
          doe = z mod 146097;
          c = min 3 (doe div 36524);
          q = (doe - 36524 * c) div 1461;
          r = (doe - 36524 * c) mod 1461;
          a = min 3 (r div 365);
          yoe = 100 * c + 4 * q + a;
          doy = r - 365 * a;
          mp = (5 * doy + 2) div 153;
          d = doy - (153 * mp + 2) div 5 + 1;
          m = (if mp < 10 then mp + 3 else mp - 9);
          y = yoe + era * 400 + (if m \<le> 2 then 1 else 0)
      in (y, m, d))"

definition from_civil :: "int \<Rightarrow> int \<Rightarrow> int \<Rightarrow> int" where
  "from_civil y m d =
     (let y' = (if m \<le> 2 then y - 1 else y);
          era = y' div 400;
          yoe = y' mod 400;
          mp = (if m \<le> 2 then m + 9 else m - 3);
          doy = (153 * mp + 2) div 5 + d - 1;
          doe = yoe * 365 + yoe div 4 - yoe div 100 + doy
      in era * 146097 + doe - 306)"

section \<open>Formatting\<close>

definition pad :: "nat \<Rightarrow> int \<Rightarrow> string" where
  "pad w n = (let s = nat_to_dec (nat \<bar>n\<bar>) in (if n < 0 then ''-'' else []) @ replicate (w - length s) (CHR ''0'') @ s)"

definition format_date :: "int \<Rightarrow> string" where
  "format_date n = (case civil n of (y, m, d) \<Rightarrow> pad 4 y @ ''-'' @ pad 2 m @ ''-'' @ pad 2 d)"

text \<open>\<open>Format("2006-01-02")\<close> of an instant in UTC.\<close>

definition Format_day :: "time \<Rightarrow> string" where
  "Format_day t = format_date (day_number t)"

text \<open>The fraction of a second: nine digits without the zeros at the end, nothing for a whole second.\<close>

definition format_frac :: "int \<Rightarrow> string" where
  "format_frac ns = (let ds = TrimRight (CHR ''0'') (pad 9 ns) in if ds = [] then [] else CHR ''.'' # ds)"

text \<open>\<open>Format(time.RFC3339Nano)\<close> of an instant in UTC.\<close>

definition Format_RFC3339Nano :: "time \<Rightarrow> string" where
  "Format_RFC3339Nano t =
     (let s = t div nanos_per_second mod seconds_per_day
      in Format_day t @ ''T'' @ pad 2 (s div 3600) @ '':'' @ pad 2 (s div 60 mod 60) @ '':'' @ pad 2 (s mod 60)
           @ format_frac (t mod nanos_per_second) @ ''Z'')"

section \<open>Parsing\<close>

text \<open>A field of exactly \<open>w\<close> digits with a value between \<open>lo\<close> and \<open>hi\<close>, and the rest.\<close>

definition parse_field :: "nat \<Rightarrow> int \<Rightarrow> int \<Rightarrow> string \<Rightarrow> (int \<times> string) option" where
  "parse_field w lo hi s =
     (let ds = take w s; v = int (digits_value ds)
      in if length ds = w \<and> list_all is_digit ds \<and> lo \<le> v \<and> v \<le> hi then Some (v, drop w s) else None)"

definition days_in :: "int \<Rightarrow> int \<Rightarrow> int" where
  "days_in y m =
     (if m = 2 then if y mod 4 = 0 \<and> (y mod 100 \<noteq> 0 \<or> y mod 400 = 0) then 29 else 28
      else if m \<in> {4, 6, 9, 11} then 30 else 31)"

text \<open>An optional fraction; digits after the ninth are dropped.\<close>

definition parse_nanos :: "string \<Rightarrow> int \<times> string" where
  "parse_nanos s =
     (case s of
        c # ds \<Rightarrow>
          if c = CHR ''.'' \<and> takeWhile is_digit ds \<noteq> [] then
            (let f = take 9 (takeWhile is_digit ds)
             in (int (digits_value (f @ replicate (9 - length f) (CHR ''0''))), dropWhile is_digit ds))
          else (0, s)
      | [] \<Rightarrow> (0, s))"

text \<open>The zone: \<open>Z\<close>, or a sign, hours and minutes; the value is the offset in seconds.\<close>

definition parse_zone :: "string \<Rightarrow> int option" where
  "parse_zone s =
     (if s = ''Z'' then Some 0
      else if length s = 6 \<and> (hd s = CHR ''+'' \<or> hd s = CHR ''-'') \<and> s ! 3 = CHR '':'' then
        (case (parse_field 2 0 24 (take 2 (drop 1 s)), parse_field 2 0 60 (drop 4 s)) of
           (Some (h, _), Some (m, _)) \<Rightarrow> Some ((if hd s = CHR ''-'' then - 1 else 1) * (h * 60 + m) * 60)
         | _ \<Rightarrow> None)
      else None)"

definition expect :: "char \<Rightarrow> string \<Rightarrow> string option" where
  "expect c s = (case s of [] \<Rightarrow> None | d # ds \<Rightarrow> if d = c then Some ds else None)"

definition Parse_RFC3339Nano :: "string \<Rightarrow> time option" where
  "Parse_RFC3339Nano s0 =
     (case parse_field 4 0 9999 s0 of None \<Rightarrow> None | Some (y, s1) \<Rightarrow>
      (case Option.bind (expect (CHR ''-'') s1) (parse_field 2 1 12) of None \<Rightarrow> None | Some (m, s2) \<Rightarrow>
      (case Option.bind (expect (CHR ''-'') s2) (parse_field 2 1 (days_in y m)) of None \<Rightarrow> None | Some (d, s3) \<Rightarrow>
      (case Option.bind (expect (CHR ''T'') s3) (parse_field 2 0 23) of None \<Rightarrow> None | Some (hh, s4) \<Rightarrow>
      (case Option.bind (expect (CHR '':'') s4) (parse_field 2 0 59) of None \<Rightarrow> None | Some (mi, s5) \<Rightarrow>
      (case Option.bind (expect (CHR '':'') s5) (parse_field 2 0 59) of None \<Rightarrow> None | Some (ss, s6) \<Rightarrow>
      (case parse_nanos s6 of (ns, s7) \<Rightarrow>
      (case parse_zone s7 of None \<Rightarrow> None | Some off \<Rightarrow>
         Some ((from_civil y m d * seconds_per_day + hh * 3600 + mi * 60 + ss - off) * nanos_per_second + ns)))))))))"

section \<open>A date determines its day\<close>

text \<open>The parts of a day's number within its cycle of 400 years.\<close>

lemma cycle_parts:
  assumes doe: "0 \<le> doe" "doe < (146097 :: int)"
    and c: "c = min 3 (doe div 36524)"
    and q: "q = (doe - 36524 * c) div 1461" and r: "r = (doe - 36524 * c) mod 1461"
    and a: "a = min 3 (r div 365)" and yoe: "yoe = 100 * c + 4 * q + a" and doy: "doy = r - 365 * a"
  shows "0 \<le> yoe" "yoe < 400" "yoe * 365 + yoe div 4 - yoe div 100 + doy = doe" "0 \<le> doy" "doy < 366"
    "doy = 365 \<Longrightarrow> (yoe + 1) mod 4 = 0 \<and> ((yoe + 1) mod 100 \<noteq> 0 \<or> (yoe + 1) mod 400 = 0)"
proof -
  have c03: "0 \<le> c" "c \<le> 3" using doe c by auto
  have "c \<le> doe div 36524" using c by simp
  then have lo: "0 \<le> doe - 36524 * c" using mult_div_mod_eq [of 36524 doe] pos_mod_sign [of 36524 doe] by linarith
  have hi: "doe - 36524 * c \<le> 36524" "c < 3 \<Longrightarrow> doe - 36524 * c < 36524"
  proof -
    show low: "doe - 36524 * c < 36524" if "c < 3"
    proof -
      have "c = doe div 36524" using c that by (auto simp: min_def split: if_splits)
      then show ?thesis using mult_div_mod_eq [of 36524 doe] pos_mod_bound [of 36524 doe] by linarith
    qed
    show "doe - 36524 * c \<le> 36524" using doe low c03 by (cases "c < 3") auto
  qed
  have split: "doe - 36524 * c = 1461 * q + r" unfolding q r by simp
  have rb: "0 \<le> r" "r < 1461" unfolding r by simp_all
  have q0: "0 \<le> q" unfolding q using lo by (simp add: pos_imp_zdiv_nonneg_iff)
  have q24: "q \<le> 24" using hi(1) split rb by linarith
  have a03: "0 \<le> a" "a \<le> 3" using rb a by auto
  have rdiv: "365 * (r div 365) + r mod 365 = r" "0 \<le> r mod 365" "r mod 365 < 365" by simp_all
  have small: "doy < 365" if "a < 3" using that rdiv unfolding doy a by (auto simp: min_def split: if_splits)
  have big: "doy = r - 1095" if "\<not> a < 3" using that a03 unfolding doy by simp
  have "365 * a \<le> 365 * (r div 365)" unfolding a by simp
  then have doyb: "0 \<le> doy" "doy < 366" using rdiv small big rb unfolding doy by (linarith, cases "a < 3") auto
  have full: "a = 3 \<and> r = 1460" if "doy = 365" using small big a03 that by (cases "a < 3") auto
  show "0 \<le> yoe" "yoe < 400" using c03 q0 q24 a03 yoe by linarith+
  show "0 \<le> doy" "doy < 366" by (fact doyb)+
  have "yoe div 4 = 25 * c + q" by (rule int_div_pos_eq [of _ _ _ a]) (use yoe a03 in auto)
  moreover have "yoe div 100 = c" by (rule int_div_pos_eq [of _ _ _ "4 * q + a"]) (use yoe a03 q0 q24 in auto)
  ultimately show "yoe * 365 + yoe div 4 - yoe div 100 + doy = doe"
    using split yoe doy by linarith
  assume "doy = 365"
  with full have a3: "a = 3" and r1460: "r = 1460" by auto
  have y1: "yoe + 1 = 100 * c + 4 * (q + 1)" using yoe a3 by simp
  show "(yoe + 1) mod 4 = 0 \<and> ((yoe + 1) mod 100 \<noteq> 0 \<or> (yoe + 1) mod 400 = 0)"
  proof (cases "q = 24")
    case True
    then have "doe - 36524 * c = 36524" using split r1460 by simp
    then have "c = 3" using hi(2) c03 by linarith
    then show ?thesis using y1 True by simp
  next
    case False
    then have "(yoe + 1) mod 100 = 4 * (q + 1)" by (intro int_mod_pos_eq [of _ _ c]) (use y1 q0 q24 in auto)
    moreover have "(yoe + 1) mod 4 = 0" by (intro int_mod_pos_eq [of _ _ "25 * c + q + 1"]) (use y1 in auto)
    ultimately show ?thesis using q0 by simp
  qed
qed

lemma month_parts:
  assumes "0 \<le> doy" "doy < (366::int)" and mp: "mp = (5 * doy + 2) div 153"
  shows "0 \<le> mp" "mp \<le> 11" "1 \<le> doy - (153 * mp + 2) div 5 + 1"
    "doy - (153 * mp + 2) div 5 + 1 \<le> (if mp \<in> {1, 3, 6, 8} then 30 else if mp = 11 then 29 else 31)"
    "mp = 11 \<Longrightarrow> doy - (153 * mp + 2) div 5 + 1 = 29 \<Longrightarrow> doy = 365"
    "153 * mp \<le> 5 * doy + 2"
proof -
  have "153 * mp + (5 * doy + 2) mod 153 = 5 * doy + 2" unfolding mp by simp
  then have rng: "153 * mp \<le> 5 * doy + 2" "5 * doy + 2 < 153 * mp + 153"
    using pos_mod_sign [of 153 "5 * doy + 2"] pos_mod_bound [of 153 "5 * doy + 2"] by linarith+
  show "153 * mp \<le> 5 * doy + 2" by (fact rng)
  show b: "0 \<le> mp" "mp \<le> 11" using rng assms(1,2) by linarith+
  have cases: "mp = 0 \<or> mp = 1 \<or> mp = 2 \<or> mp = 3 \<or> mp = 4 \<or> mp = 5 \<or> mp = 6 \<or> mp = 7 \<or> mp = 8 \<or> mp = 9 \<or> mp = 10 \<or> mp = 11"
    using b by presburger
  show "1 \<le> doy - (153 * mp + 2) div 5 + 1" using cases rng by (elim disjE) simp_all
  show "doy - (153 * mp + 2) div 5 + 1 \<le> (if mp \<in> {1, 3, 6, 8} then 30 else if mp = 11 then 29 else 31)"
    using cases rng assms(2) by (elim disjE) simp_all
  show "mp = 11 \<Longrightarrow> doy - (153 * mp + 2) div 5 + 1 = 29 \<Longrightarrow> doy = 365" by simp
qed

text \<open>Everything about the date of a day: it is a calendar date and leads back to the day.\<close>

lemma civil_date:
  assumes "civil n = (y, m, d)"
  shows "1 \<le> m" "m \<le> 12" "1 \<le> d" "d \<le> days_in y m" "from_civil y m d = n"
    "0 \<le> n \<Longrightarrow> 0 \<le> y" "n < 3652059 \<Longrightarrow> y \<le> 9999"
proof -
  define z where "z = n + 306"
  define era where "era = z div 146097"
  define doe where "doe = z mod 146097"
  define c where "c = min 3 (doe div 36524)"
  define q where "q = (doe - 36524 * c) div 1461"
  define r where "r = (doe - 36524 * c) mod 1461"
  define a where "a = min 3 (r div 365)"
  define yoe where "yoe = 100 * c + 4 * q + a"
  define doy where "doy = r - 365 * a"
  define mp where "mp = (5 * doy + 2) div 153"
  have doe: "0 \<le> doe" "doe < 146097" by (simp_all add: doe_def)
  note cy = cycle_parts [OF doe c_def q_def r_def a_def yoe_def doy_def]
  note mo = month_parts [OF cy(4,5) mp_def]
  have m: "m = (if mp < 10 then mp + 3 else mp - 9)" and d: "d = doy - (153 * mp + 2) div 5 + 1"
    and y: "y = yoe + era * 400 + (if m \<le> 2 then 1 else 0)"
    using assms unfolding civil_def Let_def z_def [symmetric] era_def [symmetric] doe_def [symmetric] c_def [symmetric]
      q_def [symmetric] r_def [symmetric] a_def [symmetric] yoe_def [symmetric] doy_def [symmetric] mp_def [symmetric]
    by auto
  show "1 \<le> m" "m \<le> 12" using mo(1,2) m by (auto split: if_splits)
  show "1 \<le> d" using mo(3) d by simp
  have z: "z = 146097 * era + doe" by (simp add: era_def doe_def)
  show "0 \<le> y" if "0 \<le> n"
  proof -
    have "0 \<le> era" unfolding era_def z_def using that by (simp add: pos_imp_zdiv_nonneg_iff)
    then show ?thesis using cy(1) y by simp
  qed
  show "y \<le> 9999" if "n < 3652059"
  proof -
    have "era \<le> 24" using that doe z unfolding z_def by linarith
    moreover have "yoe \<noteq> 399" if "era = 24" "m \<le> 2"
    proof
      assume "yoe = 399"
      then have "doe = 145731 + doy" using cy(3) by simp
      moreover have "10 \<le> mp" using m that(2) mo(1) by (auto split: if_splits)
      then have "1530 \<le> 5 * doy + 2" using mo(6) by linarith
      ultimately show False using z that(1) \<open>n < 3652059\<close> unfolding z_def by linarith
    qed
    ultimately show ?thesis using cy(2) y by (cases "era = 24"; cases "m \<le> 2") auto
  qed
  have month: "(if m \<le> 2 then m + 9 else m - 3) = mp" using mo(1,2) m by (auto split: if_splits)
  have y': "(if m \<le> 2 then y - 1 else y) = yoe + era * 400" using y by simp
  have "(yoe + era * 400) div 400 = era" "(yoe + era * 400) mod 400 = yoe" using cy(1,2) by simp_all
  moreover have "era * 146097 + doe = z" using z by simp
  moreover have "(153 * mp + 2) div 5 + d - 1 = doy" using d by simp
  ultimately show "from_civil y m d = n"
    using cy(3) unfolding from_civil_def Let_def month y' by (simp add: z_def)
  show "d \<le> days_in y m"
  proof (cases "m = 2")
    case True
    then have mp11: "mp = 11" using m mo(1,2) by (auto split: if_splits)
    then have "d \<le> 29" using mo(4) d by simp
    moreover have "days_in y m = 29" if "d = 29"
    proof -
      have "doy = 365" using mo(5) mp11 that d by simp
      from cy(6) [OF this] have leap: "(yoe + 1) mod 4 = 0 \<and> ((yoe + 1) mod 100 \<noteq> 0 \<or> (yoe + 1) mod 400 = 0)" .
      have "y = yoe + 1 + 400 * era" using y True by simp
      then have "y = yoe + 1 + 4 * (100 * era)" "y = yoe + 1 + 100 * (4 * era)" "y = yoe + 1 + 400 * era" by simp_all
      then have "y mod 4 = (yoe + 1) mod 4" "y mod 100 = (yoe + 1) mod 100" "y mod 400 = (yoe + 1) mod 400"
        by (metis mod_mult_self2)+
      then show ?thesis using leap by (simp add: days_in_def True)
    qed
    moreover have "28 \<le> days_in y m" by (simp add: days_in_def True)
    ultimately show ?thesis by linarith
  next
    case False
    then have "mp \<noteq> 11" using m by auto
    have "mp \<in> {1, 3, 6, 8} \<longleftrightarrow> m \<in> {4, 6, 9, 11}" using m mo(1,2) by (auto split: if_splits)
    then show ?thesis using mo(4) d False \<open>mp \<noteq> 11\<close> by (simp add: days_in_def split: if_splits)
  qed
qed

section \<open>Different days have different names\<close>

lemma is_digit_zero: "is_digit (CHR ''0'')"
  by (simp add: is_digit_def between_def byte_def)

lemma pad_digits:
  assumes "0 \<le> n"
  shows "list_all is_digit (pad w n)" "int (digits_value (pad w n)) = n" "pad w n \<noteq> []"
  using assms nat_to_dec_digits [of "nat n"] is_digit_zero
  by (auto simp: pad_def Let_def digits_value_zeros digits_value_nat_to_dec list_all_iff)

lemma pad_length: "0 \<le> n \<Longrightarrow> n < 10 ^ w \<Longrightarrow> 0 < w \<Longrightarrow> length (pad w n) = w"
  using nat_to_dec_length [of w "nat n"] by (simp add: pad_def Let_def nat_less_iff)

lemma digit_not_dash: "list_all is_digit ds \<Longrightarrow> CHR ''-'' \<notin> set ds"
proof -
  have "\<not> is_digit (CHR ''-'')" by (simp add: is_digit_def between_def byte_def)
  then show "list_all is_digit ds \<Longrightarrow> CHR ''-'' \<notin> set ds" by (auto simp: list_all_iff)
qed

lemma format_date_inject:
  assumes "format_date n = format_date n'" and "0 \<le> n" "0 \<le> n'"
  shows "n = n'"
proof -
  obtain y m d where c: "civil n = (y, m, d)" by (cases "civil n")
  obtain y' m' d' where c': "civil n' = (y', m', d')" by (cases "civil n'")
  note f = civil_date [OF c] and f' = civil_date [OF c']
  have nn: "0 \<le> y" "0 \<le> y'" "0 \<le> m" "0 \<le> m'" "0 \<le> d" "0 \<le> d'" using f f' assms by auto
  have "pad 4 y @ CHR ''-'' # (pad 2 m @ CHR ''-'' # pad 2 d) = pad 4 y' @ CHR ''-'' # (pad 2 m' @ CHR ''-'' # pad 2 d')"
    using assms(1) by (simp add: format_date_def c c')
  from first_split_unique [OF this] have py: "pad 4 y = pad 4 y'"
    and "pad 2 m @ CHR ''-'' # pad 2 d = pad 2 m' @ CHR ''-'' # pad 2 d'"
    using pad_digits(1) nn digit_not_dash by auto
  from first_split_unique [OF this(2)] have "pad 2 m = pad 2 m'" "pad 2 d = pad 2 d'"
    using pad_digits(1) nn digit_not_dash by auto
  with py have "y = y'" "m = m'" "d = d'" using pad_digits(2) nn by metis+
  then show ?thesis using f(5) f'(5) by simp
qed

lemma Format_day_inject: "0 \<le> t \<Longrightarrow> 0 \<le> u \<Longrightarrow> Format_day t = Format_day u \<longleftrightarrow> day_number t = day_number u"
  unfolding Format_day_def by (metis format_date_inject day_number_def nanos_per_second_def seconds_per_day_def
      pos_imp_zdiv_nonneg_iff mult_pos_pos zero_less_numeral)

section \<open>Parsing what was formatted\<close>

lemma parse_field_pad:
  assumes "0 \<le> lo" "lo \<le> v" "v \<le> hi" "v < 10 ^ w" "0 < w"
  shows "parse_field w lo hi (pad w v @ r) = Some (v, r)"
  using assms pad_length [of v w] pad_digits [of v w] by (simp add: parse_field_def Let_def)

lemma expect_same [simp]: "expect c (c # s) = Some s"
  by (simp add: expect_def)

lemma TrimRight_zeros: "\<exists>k. ds = TrimRight c ds @ replicate k c"
proof (induction ds rule: rev_induct)
  case Nil
  then show ?case by (simp add: TrimRight_def)
next
  case (snoc d ds)
  then obtain k where k: "ds = TrimRight c ds @ replicate k c" by blast
  show ?case
  proof (cases "d = c")
    case True
    then have "ds @ [d] = TrimRight c (ds @ [d]) @ replicate (Suc k) c"
      using k by (simp add: TrimRight_def replicate_append_same [symmetric])
    then show ?thesis by blast
  next
    case False
    then show ?thesis by (intro exI [of _ 0]) (simp add: TrimRight_def)
  qed
qed

lemma parse_nanos_frac:
  assumes "0 \<le> ns" "ns < 1000000000"
  shows "parse_nanos (format_frac ns @ ''Z'') = (ns, ''Z'')"
proof -
  define f where "f = TrimRight (CHR ''0'') (pad 9 ns)"
  obtain k where k: "pad 9 ns = f @ replicate k (CHR ''0'')" using TrimRight_zeros unfolding f_def by blast
  have len: "length (pad 9 ns) = 9" using pad_length [of ns 9] assms by simp
  have dig: "list_all is_digit f" using pad_digits(1) [OF assms(1), of 9] k by simp
  have val: "int (digits_value (f @ replicate k (CHR ''0''))) = ns" using pad_digits(2) [OF assms(1), of 9] k by simp
  have lf: "length f + k = 9" using k len by simp
  have notZ: "\<not> is_digit (CHR ''Z'')" by (simp add: is_digit_def between_def byte_def)
  show ?thesis
  proof (cases "f = []")
    case True
    then have "ns = 0" using val digits_value_zeros [of k "[]"] by (simp add: digits_value_def)
    moreover have "format_frac ns = []" using True by (simp add: format_frac_def f_def [symmetric])
    ultimately show ?thesis by (simp add: parse_nanos_def)
  next
    case False
    have "takeWhile is_digit (f @ ''Z'') = f" "dropWhile is_digit (f @ ''Z'') = ''Z''"
      using dig notZ by (simp_all add: list_all_iff)
    moreover have "format_frac ns = CHR ''.'' # f" using False by (simp add: format_frac_def f_def [symmetric])
    moreover have "take 9 f = f" "9 - length f = k" using lf by simp_all
    ultimately show ?thesis using False val by (simp add: parse_nanos_def Let_def)
  qed
qed

lemma Parse_Format:
  assumes "0 \<le> t" and "t < 3652059 * (seconds_per_day * nanos_per_second)"
  shows "Parse_RFC3339Nano (Format_RFC3339Nano t) = Some t"
proof -
  define s where "s = t div nanos_per_second mod seconds_per_day"
  obtain y m d where c: "civil (day_number t) = (y, m, d)" by (cases "civil (day_number t)")
  have n: "0 \<le> day_number t" "day_number t < 3652059"
    using assms by (simp_all add: day_number_def seconds_per_day_def nanos_per_second_def)
  note f = civil_date [OF c]
  have dd: "d \<le> 31" using f(4) by (auto simp: days_in_def split: if_splits)
  have s: "0 \<le> s" "s < 86400" by (simp_all add: s_def seconds_per_day_def)
  have hms: "x + s div 3600 * 3600 + s div 60 mod 60 * 60 + s mod 60 = x + s" for x
  proof -
    have "s div 3600 = s div 60 div 60" using zdiv_zmult2_eq [of 60 s 60] by simp
    moreover have "60 * (s div 60) + s mod 60 = s" "60 * (s div 60 div 60) + s div 60 mod 60 = s div 60"
      by (rule mult_div_mod_eq)+
    ultimately show ?thesis by linarith
  qed
  have ns: "0 \<le> t mod nanos_per_second" "t mod nanos_per_second < 1000000000" by (simp_all add: nanos_per_second_def)
  have whole: "(day_number t * seconds_per_day + s) * nanos_per_second + t mod nanos_per_second = t"
  proof -
    have "t div nanos_per_second = day_number t * seconds_per_day + s"
      using zdiv_zmult2_eq [of seconds_per_day t nanos_per_second]
      by (simp add: day_number_def s_def mult.commute seconds_per_day_def nanos_per_second_def)
    then show ?thesis by (metis div_mult_mod_eq)
  qed
  define h mi ss where "h = s div 3600" and "mi = s div 60 mod 60" and "ss = s mod 60"
  have b: "0 \<le> h" "h \<le> 23" "0 \<le> mi" "mi \<le> 59" "0 \<le> ss" "ss \<le> 59"
    using s by (simp_all add: h_def mi_def ss_def)
  have sum: "x + h * 3600 + mi * 60 + ss = x + s" for x using hms [of x] by (simp only: h_def mi_def ss_def)
  have e: "Format_RFC3339Nano t = pad 4 y @ CHR ''-'' # (pad 2 m @ CHR ''-'' # (pad 2 d @ CHR ''T'' #
      (pad 2 (h) @ CHR '':'' # (pad 2 (mi) @ CHR '':'' # (pad 2 (ss) @
        (format_frac (t mod nanos_per_second) @ ''Z''))))))"
    by (simp add: Format_RFC3339Nano_def Let_def Format_day_def format_date_def c s_def h_def mi_def ss_def)
  have yb: "0 \<le> y" "y \<le> 9999" using f(6,7) n by blast+
  have fields: "parse_field 4 0 9999 (pad 4 y @ x) = Some (y, x)" "parse_field 2 1 12 (pad 2 m @ x) = Some (m, x)"
    "parse_field 2 1 (days_in y m) (pad 2 d @ x) = Some (d, x)" "parse_field 2 0 23 (pad 2 (h) @ x) = Some (h, x)"
    "parse_field 2 0 59 (pad 2 (mi) @ x) = Some (mi, x)"
    "parse_field 2 0 59 (pad 2 (ss) @ x) = Some (ss, x)" for x
    by (rule parse_field_pad; use yb f(1-4) dd b in simp)+
  have "parse_zone ''Z'' = Some 0" by (simp add: parse_zone_def)
  then show ?thesis
    unfolding Parse_RFC3339Nano_def e
    by (simp only: fields expect_same bind.bind_lunit option.case prod.case parse_nanos_frac [OF ns] f(5) diff_0_right sum whole)
qed

end
