(* ===== verification/Provider.thy ===== *)
theory Provider
  imports Llm GoUrl GoFloat GoTime Config
begin

text \<open>
  Package \<open>internal/provider\<close>: the router and the adapters of the three kinds of upstream API. A provider is
  shared by all requests and keeps a key counter; it is named by its position in the router, and an operation
  returns the provider it leaves behind. The HTTP client is a parameter: a function from an outgoing request to
  the response or the text of an error. An operation of type \<open>'a option\<close> ends in \<open>None\<close> when the Go code panics.

  Here are the definitions; the theorems are in \<open>Upstream\<close>.
\<close>

section \<open>Router (router.go)\<close>

record Provider =
  pv_baseURL :: url
  pv_timeout :: duration
  pv_keys :: "string list"
  pv_models :: "string list"
  pv_Name :: string
  pv_Type :: ProviderType
  pv_nextKey :: "64 word"

type_synonym Router = "Provider list"

fun NewRouter :: "ProviderConfig list \<Rightarrow> duration \<Rightarrow> Router result" where
  "NewRouter [] timeout = Inr []"
| "NewRouter (cfg # cfgs) timeout =
     (case url_Parse (pc_BaseURL cfg) of
        Inl e \<Rightarrow> Inl (''parse provider '' @ pc_Name cfg @ '' base url: '' @ e)
      | Inr parsed \<Rightarrow>
          (case NewRouter cfgs timeout of
             Inl e \<Rightarrow> Inl e
           | Inr providers \<Rightarrow>
               Inr (\<lparr>pv_baseURL = parsed, pv_timeout = timeout, pv_keys = pc_APIKeys cfg,
                     pv_models = remdups (pc_Models cfg), pv_Name = pc_Name cfg, pv_Type = pc_Type cfg,
                     pv_nextKey = 0\<rparr> # providers)))"

text \<open>The candidates, as positions in the router.\<close>

definition Candidates :: "Router \<Rightarrow> string \<Rightarrow> nat list" where
  "Candidates r model =
     (let matches = filter (\<lambda>i. pv_models (r ! i) \<noteq> [] \<and> model \<in> set (pv_models (r ! i))) [0..<length r];
          fallback = filter (\<lambda>i. pv_models (r ! i) = []) [0..<length r]
      in if matches \<noteq> [] then matches else fallback)"

definition Endpoint :: "Provider \<Rightarrow> string \<Rightarrow> string" where
  "Endpoint p path = TrimRight (CHR ''/'') (url_String (pv_baseURL p)) @ path"

text \<open>
  The counter is unsigned, the index signed: \<open>int(idx)-1\<close> is the wrapped difference of the reinterpreted word,
  and a negative remainder is an index out of range.
\<close>

definition NextKey :: "Provider \<Rightarrow> string option \<times> Provider" where
  "NextKey p =
     (if pv_keys p = [] then (Some [], p)
      else let idx = pv_nextKey p + 1;
               i = go_mod (wrap64 (sint idx - 1)) (int (length (pv_keys p)));
               p' = p\<lparr>pv_nextKey := idx\<rparr>
           in if i < 0 then (None, p') else (Some (pv_keys p ! nat i), p'))"

section \<open>Requests and responses (adapters.go)\<close>

record http_request =
  hq_Method :: string
  hq_URL :: url
  hq_Header :: header
  hq_Body :: string

text \<open>A response: its body is the bytes that arrive and the read error, if any, that follows them.\<close>

record http_response =
  hs_StatusCode :: int
  hs_Header :: header
  hs_Body :: "string \<times> string option"

type_synonym http_client = "duration \<Rightarrow> http_request \<Rightarrow> http_response result"

record UpstreamResponse =
  ur_Header :: header
  ur_Body :: string
  ur_Stream :: "string \<times> string option"
  ur_Provider :: string
  ur_Status :: int
  ur_Streaming :: bool

text \<open>\<open>http.NewRequest\<close> parses the URL and drops an empty port.\<close>

definition removeEmptyPort :: "string \<Rightarrow> string" where
  "removeEmptyPort host =
     (if suffix '':'' host then butlast host else host)"

definition NewRequest :: "string \<Rightarrow> string \<Rightarrow> string \<Rightarrow> http_request result" where
  "NewRequest method url body =
     (case url_Parse url of
        Inl e \<Rightarrow> Inl e
      | Inr u \<Rightarrow> Inr \<lparr>hq_Method = method, hq_URL = u\<lparr>url_Host := removeEmptyPort (url_Host u)\<rparr>, hq_Header = [], hq_Body = body\<rparr>)"

definition set_header :: "string \<Rightarrow> string \<Rightarrow> http_request \<Rightarrow> http_request" where
  "set_header k v req = req\<lparr>hq_Header := Header_Set (hq_Header req) k v\<rparr>"

definition readAndClose :: "string \<times> string option \<Rightarrow> string result" where
  "readAndClose body = (case snd body of Some e \<Rightarrow> Inl e | None \<Rightarrow> Inr (fst body))"

definition jsonHeader :: header where
  "jsonHeader = Header_Set [] ''Content-Type'' ''application/json''"

definition plain_response :: "header \<Rightarrow> string \<Rightarrow> string \<Rightarrow> int \<Rightarrow> UpstreamResponse" where
  "plain_response header body name status =
     \<lparr>ur_Header = header, ur_Body = body, ur_Stream = ([], None), ur_Provider = name, ur_Status = status, ur_Streaming = False\<rparr>"

section \<open>OpenAI (openai.go, openai_response.go)\<close>

definition openAI :: "http_client \<Rightarrow> ChatCompletionRequest \<Rightarrow> string \<Rightarrow> Provider \<Rightarrow> UpstreamResponse result option \<times> Provider" where
  "openAI client chat rawBody p =
     (case NewRequest ''POST'' (Endpoint p ''/chat/completions'') rawBody of
        Inl e \<Rightarrow> (Some (Inl (''build openai request: '' @ e)), p)
      | Inr req \<Rightarrow>
          let req = set_header ''Content-Type'' ''application/json'' req
          in case NextKey p of
            (None, p') \<Rightarrow> (None, p')
          | (Some key, p') \<Rightarrow>
              let req = (if key \<noteq> [] then set_header ''Authorization'' (''Bearer '' @ key) req else req)
              in (Some
                   (case client (pv_timeout p') req of
                      Inl e \<Rightarrow> Inl (''call provider '' @ pv_Name p' @ '': '' @ e)
                    | Inr resp \<Rightarrow>
                        if ch_Stream chat \<and> hs_StatusCode resp < 500 \<and> hs_StatusCode resp \<noteq> 429
                        then Inr \<lparr>ur_Header = hs_Header resp, ur_Body = [], ur_Stream = hs_Body resp,
                                  ur_Provider = pv_Name p', ur_Status = hs_StatusCode resp, ur_Streaming = True\<rparr>
                        else (case readAndClose (hs_Body resp) of
                                Inl e \<Rightarrow> Inl (''read provider '' @ pv_Name p' @ '' response: '' @ e)
                              | Inr body \<Rightarrow> Inr (plain_response (hs_Header resp) body (pv_Name p') (hs_StatusCode resp)))), p'))"

text \<open>\<open>time.Now().Unix()\<close> and \<open>UnixNano()\<close> of an instant counted from the year 1.\<close>

definition Unix :: "time \<Rightarrow> int" where
  "Unix t = t div nanos_per_second - 62135596800"

definition UnixNano :: "time \<Rightarrow> int" where
  "UnixNano t = wrap64 (t - 62135596800 * nanos_per_second)"

record openAIUsage =
  ou_PromptTokens :: int
  ou_CompletionTokens :: int
  ou_TotalTokens :: int

record openAIMessage =
  om_Role :: string
  om_Content :: string

record openAIChoice =
  och_Index :: int
  och_Message :: openAIMessage
  och_FinishReason :: string

record openAIChatCompletion =
  oa_ID :: string
  oa_Object :: string
  oa_Created :: int
  oa_Model :: string
  oa_Choices :: "openAIChoice list"
  oa_Usage :: openAIUsage

definition enc_choice :: "openAIChoice \<Rightarrow> json" where
  "enc_choice c = JObj
     [(''index'', JInt (och_Index c)),
      (''message'', JObj [(''role'', JStr (om_Role (och_Message c))), (''content'', JStr (om_Content (och_Message c)))]),
      (''finish_reason'', JStr (och_FinishReason c))]"

definition enc_completion :: "openAIChatCompletion \<Rightarrow> json" where
  "enc_completion r = JObj
     [(''id'', JStr (oa_ID r)), (''object'', JStr (oa_Object r)), (''created'', JInt (oa_Created r)),
      (''model'', JStr (oa_Model r)), (''choices'', JArr (map enc_choice (oa_Choices r))),
      (''usage'', JObj
         [(''prompt_tokens'', JInt (ou_PromptTokens (oa_Usage r))),
          (''completion_tokens'', JInt (ou_CompletionTokens (oa_Usage r))),
          (''total_tokens'', JInt (ou_TotalTokens (oa_Usage r)))])]"

definition marshalOpenAIResponse :: "time \<Rightarrow> string \<Rightarrow> string \<Rightarrow> string \<Rightarrow> int \<Rightarrow> int \<Rightarrow> string" where
  "marshalOpenAIResponse now rid model txt promptTokens completionTokens =
     json_Marshal (enc_completion
       \<lparr>oa_ID = rid, oa_Object = ''chat.completion'', oa_Created = Unix now, oa_Model = model,
        oa_Choices = [\<lparr>och_Index = 0, och_Message = \<lparr>om_Role = ''assistant'', om_Content = txt\<rparr>, och_FinishReason = ''stop''\<rparr>],
        oa_Usage = \<lparr>ou_PromptTokens = promptTokens, ou_CompletionTokens = completionTokens,
                    ou_TotalTokens = wrap64 (promptTokens + completionTokens)\<rparr>\<rparr>)"

section \<open>Anthropic (anthropic.go)\<close>

record anthropicMessage =
  am_Role :: string
  am_Content :: string

record anthropicRequest =
  an_Model :: string
  an_MaxTokens :: int
  an_System :: string
  an_Messages :: "anthropicMessage list"

definition is_system :: "ChatMessage \<Rightarrow> bool" where
  "is_system m \<longleftrightarrow> cm_Role m = ''system'' \<or> cm_Role m = ''developer''"

definition newAnthropicRequest :: "ChatCompletionRequest \<Rightarrow> anthropicRequest" where
  "newAnthropicRequest chat =
     (let system = map Text (filter is_system (chat_messages chat));
          messages = map (\<lambda>m. \<lparr>am_Role = (if cm_Role m = ''assistant'' then ''assistant'' else ''user''), am_Content = Text m\<rparr>)
                       (filter (\<lambda>m. \<not> is_system m) (chat_messages chat))
      in \<lparr>an_Model = ch_Model chat, an_MaxTokens = (if ch_MaxTokens chat \<le> 0 then 1024 else ch_MaxTokens chat),
          an_System = Join system [CHR 0x0A], an_Messages = messages\<rparr>)"

definition enc_anthropic :: "anthropicRequest \<Rightarrow> json" where
  "enc_anthropic r = JObj
     ([(''model'', JStr (an_Model r)), (''max_tokens'', JInt (an_MaxTokens r))] @
      (if an_System r = [] then [] else [(''system'', JStr (an_System r))]) @
      [(''messages'', JArr (map (\<lambda>m. JObj [(''role'', JStr (am_Role m)), (''content'', JStr (am_Content m))]) (an_Messages r)))])"

record text_part =
  tp_Text :: string

record anthropic_usage =
  au_InputTokens :: int
  au_OutputTokens :: int

record anthropic_res =
  ar_ID :: string
  ar_Model :: string
  ar_Content :: "text_part slice"
  ar_Usage :: anthropic_usage

definition dec_text :: "text_part dec" where
  "dec_text = dec_struct [(''text'', field tp_Text tp_Text_update dec_string)]"

definition dec_anthropic :: "anthropic_res dec" where
  "dec_anthropic = dec_struct
     [(''id'', field ar_ID ar_ID_update dec_string),
      (''model'', field ar_Model ar_Model_update dec_string),
      (''content'', field ar_Content ar_Content_update (dec_slice dec_text \<lparr>tp_Text = []\<rparr>)),
      (''usage'', field ar_Usage ar_Usage_update (dec_struct
         [(''input_tokens'', field au_InputTokens au_InputTokens_update dec_int),
          (''output_tokens'', field au_OutputTokens au_OutputTokens_update dec_int)]))]"

definition zero_anthropic :: anthropic_res where
  "zero_anthropic = \<lparr>ar_ID = [], ar_Model = [], ar_Content = ([], 0), ar_Usage = \<lparr>au_InputTokens = 0, au_OutputTokens = 0\<rparr>\<rparr>"

definition anthropicToOpenAI :: "(string \<Rightarrow> string) \<Rightarrow> time \<Rightarrow> string \<Rightarrow> string \<Rightarrow> string result" where
  "anthropicToOpenAI jerr now raw fallbackModel =
     (case json_Unmarshal dec_anthropic zero_anthropic raw of
        None \<Rightarrow> Inl (''decode anthropic response: '' @ jerr raw)
      | Some res \<Rightarrow>
          Inr (marshalOpenAIResponse now (ar_ID res) (if ar_Model res = [] then fallbackModel else ar_Model res)
                 (Join (map tp_Text (slice_list (ar_Content res))) [])
                 (au_InputTokens (ar_Usage res)) (au_OutputTokens (ar_Usage res))))"

text \<open>
  What follows the call for both translated APIs: read the body, pass an error status on as it is, translate
  the rest. The names in the messages differ.
\<close>

definition translated :: "string \<Rightarrow> (string \<Rightarrow> string result) \<Rightarrow> string \<Rightarrow> http_response result \<Rightarrow> UpstreamResponse result" where
  "translated what translate name outcome =
     (case outcome of
        Inl e \<Rightarrow> Inl (''call provider '' @ name @ '': '' @ e)
      | Inr resp \<Rightarrow>
          (case readAndClose (hs_Body resp) of
             Inl e \<Rightarrow> Inl (''read '' @ what @ '' response: '' @ e)
           | Inr raw \<Rightarrow>
               if 400 \<le> hs_StatusCode resp then Inr (plain_response (hs_Header resp) raw name (hs_StatusCode resp))
               else (case translate raw of
                       Inl e \<Rightarrow> Inl e
                     | Inr transformed \<Rightarrow> Inr (plain_response jsonHeader transformed name (hs_StatusCode resp)))))"

definition anthropic :: "(string \<Rightarrow> string) \<Rightarrow> http_client \<Rightarrow> time \<Rightarrow> ChatCompletionRequest \<Rightarrow> Provider \<Rightarrow> UpstreamResponse result option \<times> Provider" where
  "anthropic jerr client now chat p =
     (if ch_Stream chat
      then (Some (Inl (''provider '' @ pv_Name p @ '': anthropic streaming adapter is not enabled in v0.1'')), p)
      else case NewRequest ''POST'' (Endpoint p ''/messages'') (json_Marshal (enc_anthropic (newAnthropicRequest chat))) of
        Inl e \<Rightarrow> (Some (Inl (''build anthropic request: '' @ e)), p)
      | Inr req \<Rightarrow>
          let req = set_header ''Anthropic-Version'' ''2023-06-01'' (set_header ''Content-Type'' ''application/json'' req)
          in case NextKey p of
            (None, p') \<Rightarrow> (None, p')
          | (Some key, p') \<Rightarrow>
              let req = (if key \<noteq> [] then set_header ''X-API-Key'' key req else req)
              in (Some (translated ''anthropic'' (\<lambda>raw. anthropicToOpenAI jerr now raw (ch_Model chat)) (pv_Name p')
                    (client (pv_timeout p') req)), p'))"

section \<open>Google (google.go)\<close>

record googleContent =
  gc_Role :: string
  gc_Parts :: "string list"

record googleRequest =
  gr_Contents :: "googleContent list"
  gr_SystemInstruction :: "googleContent option"
  gr_MaxOutputTokens :: int
  gr_Temperature :: "f64 option"

definition newGoogleRequest :: "ChatCompletionRequest \<Rightarrow> googleRequest" where
  "newGoogleRequest chat =
     (let system = map Text (filter is_system (chat_messages chat));
          contents = map (\<lambda>m. \<lparr>gc_Role = (if cm_Role m = ''assistant'' then ''model'' else ''user''), gc_Parts = [Text m]\<rparr>)
                       (filter (\<lambda>m. \<not> is_system m) (chat_messages chat))
      in \<lparr>gr_Contents = contents,
          gr_SystemInstruction = (if system = [] then None else Some \<lparr>gc_Role = [], gc_Parts = system\<rparr>),
          gr_MaxOutputTokens = ch_MaxTokens chat, gr_Temperature = ch_Temperature chat\<rparr>)"

definition enc_content :: "googleContent \<Rightarrow> json" where
  "enc_content c = JObj
     ((if gc_Role c = [] then [] else [(''role'', JStr (gc_Role c))]) @
      [(''parts'', JArr (map (\<lambda>t. JObj [(''text'', JStr t)]) (gc_Parts c)))])"

text \<open>A temperature that is no number is refused by the encoder.\<close>

definition enc_google :: "googleRequest \<Rightarrow> json result" where
  "enc_google r =
     (case (case gr_Temperature r of
              None \<Rightarrow> Inr []
            | Some t \<Rightarrow> (case json_float t of
                          None \<Rightarrow> Inl (''json: unsupported value: '' @ format_fixed6 t)
                        | Some x \<Rightarrow> Inr [(''temperature'', JNum x)])) of
        Inl e \<Rightarrow> Inl e
      | Inr temperature \<Rightarrow>
          Inr (JObj
            ([(''contents'', JArr (map enc_content (gr_Contents r)))] @
             (case gr_SystemInstruction r of None \<Rightarrow> [] | Some c \<Rightarrow> [(''systemInstruction'', enc_content c)]) @
             [(''generationConfig'', JObj
                ((if gr_MaxOutputTokens r = 0 then [] else [(''maxOutputTokens'', JInt (gr_MaxOutputTokens r))]) @ temperature))])))"

text \<open>The key is taken after the URL is parsed, and sent as the parameter \<open>key\<close>.\<close>

definition googleEndpoint :: "string \<Rightarrow> Provider \<Rightarrow> string result option \<times> Provider" where
  "googleEndpoint model p =
     (case url_Parse (Endpoint p (''/models/'' @ PathEscape model @ '':generateContent'')) of
        Inl e \<Rightarrow> (Some (Inl (''build google endpoint: '' @ e)), p)
      | Inr parsed \<Rightarrow>
          (case NextKey p of
             (None, p') \<Rightarrow> (None, p')
           | (Some key, p') \<Rightarrow>
               (Some (Inr (url_String
                  (if key = [] then parsed
                   else parsed\<lparr>url_RawQuery := Values_Encode (Values_Set (url_Query parsed) ''key'' key)\<rparr>))), p')))"

record google_content = gg_Parts :: "text_part slice"
record google_candidate = gg_Content :: google_content
record google_usage =
  gu_PromptTokens :: int
  gu_CompletionTokens :: int
record google_res =
  ge_Candidates :: "google_candidate slice"
  ge_Usage :: google_usage

definition zero_candidate :: google_candidate where
  "zero_candidate = \<lparr>gg_Content = \<lparr>gg_Parts = ([], 0)\<rparr>\<rparr>"

definition zero_google :: google_res where
  "zero_google = \<lparr>ge_Candidates = ([], 0), ge_Usage = \<lparr>gu_PromptTokens = 0, gu_CompletionTokens = 0\<rparr>\<rparr>"

definition dec_candidate :: "google_candidate dec" where
  "dec_candidate = dec_struct
     [(''content'', field gg_Content gg_Content_update (dec_struct
         [(''parts'', field gg_Parts gg_Parts_update (dec_slice dec_text \<lparr>tp_Text = []\<rparr>))]))]"

definition dec_google :: "google_res dec" where
  "dec_google = dec_struct
     [(''candidates'', field ge_Candidates ge_Candidates_update (dec_slice dec_candidate zero_candidate)),
      (''usageMetadata'', field ge_Usage ge_Usage_update (dec_struct
         [(''promptTokenCount'', field gu_PromptTokens gu_PromptTokens_update dec_int),
          (''candidatesTokenCount'', field gu_CompletionTokens gu_CompletionTokens_update dec_int)]))]"

definition googleToOpenAI :: "(string \<Rightarrow> string) \<Rightarrow> time \<Rightarrow> time \<Rightarrow> string \<Rightarrow> string \<Rightarrow> string result" where
  "googleToOpenAI jerr now1 now2 raw fallbackModel =
     (case json_Unmarshal dec_google zero_google raw of
        None \<Rightarrow> Inl (''decode google response: '' @ jerr raw)
      | Some res \<Rightarrow>
          let texts = (case slice_list (ge_Candidates res) of
                         [] \<Rightarrow> []
                       | c # _ \<Rightarrow> map tp_Text (slice_list (gg_Parts (gg_Content c))))
          in Inr (marshalOpenAIResponse now2 (''chatcmpl-google-'' @ Itoa (UnixNano now1)) fallbackModel (Join texts [])
                    (gu_PromptTokens (ge_Usage res)) (gu_CompletionTokens (ge_Usage res))))"

definition google :: "(string \<Rightarrow> string) \<Rightarrow> http_client \<Rightarrow> time \<Rightarrow> time \<Rightarrow> ChatCompletionRequest \<Rightarrow> Provider \<Rightarrow> UpstreamResponse result option \<times> Provider" where
  "google jerr client now1 now2 chat p =
     (if ch_Stream chat
      then (Some (Inl (''provider '' @ pv_Name p @ '': google streaming adapter is not enabled in v0.1'')), p)
      else case enc_google (newGoogleRequest chat) of
        Inl e \<Rightarrow> (Some (Inl (''encode google request: '' @ e)), p)
      | Inr v \<Rightarrow>
          (case googleEndpoint (ch_Model chat) p of
             (None, p') \<Rightarrow> (None, p')
           | (Some (Inl e), p') \<Rightarrow> (Some (Inl e), p')
           | (Some (Inr endpoint), p') \<Rightarrow>
               (case NewRequest ''POST'' endpoint (json_Marshal v) of
                  Inl e \<Rightarrow> (Some (Inl (''build google request: '' @ e)), p')
                | Inr req \<Rightarrow>
                    (Some (translated ''google'' (\<lambda>raw. googleToOpenAI jerr now1 now2 raw (ch_Model chat)) (pv_Name p')
                       (client (pv_timeout p') (set_header ''Content-Type'' ''application/json'' req))), p'))))"

section \<open>Dispatch (adapters.go)\<close>

text \<open>The outside world during one call: the client, the clock readings of the translation, the decoder's words.\<close>

record upstream_env =
  ue_client :: http_client
  ue_now1 :: time
  ue_now2 :: time
  ue_jerr :: "string \<Rightarrow> string"

definition ChatCompletions :: "upstream_env \<Rightarrow> ChatCompletionRequest \<Rightarrow> string \<Rightarrow> Provider \<Rightarrow> UpstreamResponse result option \<times> Provider" where
  "ChatCompletions env chat rawBody p =
     (case pv_Type p of
        ProviderOpenAI \<Rightarrow> openAI (ue_client env) chat rawBody p
      | ProviderOpenAICompatible \<Rightarrow> openAI (ue_client env) chat rawBody p
      | ProviderAnthropic \<Rightarrow> anthropic (ue_jerr env) (ue_client env) (ue_now2 env) chat p
      | ProviderGoogle \<Rightarrow> google (ue_jerr env) (ue_client env) (ue_now1 env) (ue_now2 env) chat p
      | ProviderOther t \<Rightarrow> (Some (Inl (''provider '' @ pv_Name p @ '' has unsupported type '' @ Quote t)), p))"

end
