(* ===== verification/Metrics.thy ===== *)
theory Metrics
  imports GoFloat
begin

text \<open>
  Package \<open>internal/metrics\<close>: four atomic counters of 64 bits and their text in the Prometheus format. An atomic
  addition is one step on the registry.

  The lemmas: what each counter adds up to over any sequence of recordings (with the wrap-around), how far the
  cost counter may be from the recorded costs, and that the text shows counters below \<open>2^53\<close> exactly.
\<close>

record Registry =
  rg_requests :: "64 word"
  rg_blocked :: "64 word"
  rg_failovers :: "64 word"
  rg_costMicro :: "64 word"

definition NewRegistry :: Registry where
  "NewRegistry = \<lparr>rg_requests = 0, rg_blocked = 0, rg_failovers = 0, rg_costMicro = 0\<rparr>"

definition RecordRequest :: "Registry \<Rightarrow> Registry" where
  "RecordRequest r = r\<lparr>rg_requests := rg_requests r + 1\<rparr>"

definition RecordBlocked :: "Registry \<Rightarrow> Registry" where
  "RecordBlocked r = r\<lparr>rg_blocked := rg_blocked r + 1\<rparr>"

definition RecordFailover :: "Registry \<Rightarrow> Registry" where
  "RecordFailover r = r\<lparr>rg_failovers := rg_failovers r + 1\<rparr>"

definition micros :: "f64 \<Rightarrow> int" where
  "micros costUSD = f64_to_int (f64_mul costUSD (Fin 1000000))"

definition RecordCost :: "f64 \<Rightarrow> Registry \<Rightarrow> Registry" where
  "RecordCost costUSD r = r\<lparr>rg_costMicro := rg_costMicro r + word_of_int (micros costUSD)\<rparr>"

definition writeMetric :: "string \<Rightarrow> string \<Rightarrow> f64 \<Rightarrow> string" where
  "writeMetric name help value =
     ''# HELP '' @ name @ '' '' @ help @ [CHR 0x0A] @
     ''# TYPE '' @ name @ '' counter'' @ [CHR 0x0A] @
     name @ '' '' @ format_fixed6 value @ [CHR 0x0A]"

definition Prometheus :: "Registry \<Rightarrow> string" where
  "Prometheus r =
     writeMetric ''guardrail_requests_total'' ''Total chat completion requests.'' (f64_of_int (sint (rg_requests r))) @
     writeMetric ''guardrail_blocked_requests_total'' ''Requests blocked by security or budget guardrails.''
       (f64_of_int (sint (rg_blocked r))) @
     writeMetric ''guardrail_provider_failovers_total'' ''Provider failover attempts.''
       (f64_of_int (sint (rg_failovers r))) @
     writeMetric ''guardrail_estimated_cost_usd_total'' ''Estimated total LLM spend in USD.''
       (f64_div (f64_of_int (sint (rg_costMicro r))) (Fin 1000000))"

section \<open>What the counters count\<close>

datatype recording = Requested | Blocked | FailedOver | Spent f64

fun record_metric :: "recording \<Rightarrow> Registry \<Rightarrow> Registry" where
  "record_metric Requested r = RecordRequest r"
| "record_metric Blocked r = RecordBlocked r"
| "record_metric FailedOver r = RecordFailover r"
| "record_metric (Spent c) r = RecordCost c r"

fun spent_micros :: "recording \<Rightarrow> int" where
  "spent_micros (Spent c) = micros c"
| "spent_micros _ = 0"

lemma record_metric_counters:
  "rg_requests (record_metric e r) = rg_requests r + (if e = Requested then 1 else 0)"
  "rg_blocked (record_metric e r) = rg_blocked r + (if e = Blocked then 1 else 0)"
  "rg_failovers (record_metric e r) = rg_failovers r + (if e = FailedOver then 1 else 0)"
  "rg_costMicro (record_metric e r) = rg_costMicro r + word_of_int (spent_micros e)"
  by (cases e; simp add: RecordRequest_def RecordBlocked_def RecordFailover_def RecordCost_def)+

lemma counters_fold:
  "rg_requests (fold record_metric rs r) = rg_requests r + of_nat (count_list rs Requested)"
  "rg_blocked (fold record_metric rs r) = rg_blocked r + of_nat (count_list rs Blocked)"
  "rg_failovers (fold record_metric rs r) = rg_failovers r + of_nat (count_list rs FailedOver)"
  "rg_costMicro (fold record_metric rs r) = rg_costMicro r + word_of_int (sum_list (map spent_micros rs))"
  by (induction rs arbitrary: r) (simp_all add: record_metric_counters)

lemma sint_of_nat_small:
  assumes "n < 2 ^ 63"
  shows "sint (of_nat n :: 64 word) = int n"
proof -
  have "int n < 2 ^ 63" using assms by (metis of_nat_less_iff of_nat_numeral of_nat_power)
  then show ?thesis using sint_sbintrunc' [of "int n", where 'a = 64] by (simp add: signed_take_bit_int_eq_self)
qed

lemma rne_int_mult: "rne (of_int n * 1000000) = n * 1000000"
  using rne_of_int [of "n * 1000000"] by simp

lemma five_zeros: "replicate 5 (CHR ''0'') = ''00000''"
  by (simp add: numeral_eq_Suc)

lemma format_counter:
  assumes "n \<le> 2 ^ 53"
  shows "format_fixed6 (f64_of_int (int n)) = nat_to_dec n @ ''.000000''"
proof -
  have "\<bar>int n\<bar> \<le> 2 ^ 53" using assms by (metis abs_of_nat of_nat_le_iff of_nat_numeral of_nat_power)
  then have "f64_of_int (int n) = Fin (of_int (int n))" by (rule f64_of_int_exact)
  moreover have "nat \<bar>rne (of_int (int n) * 1000000)\<bar> = n * 1000000" unfolding rne_int_mult by (simp add: nat_mult_distrib)
  ultimately show ?thesis by (simp add: fixed6_def nat_to_dec_0 five_zeros)
qed

text \<open>A recorded cost loses less than one micro-dollar, apart from the rounding of the product: a cost between 0 and
  a billion dollars adds to the counter the integer part of its binary64 product with a million.\<close>

lemma micros_floor:
  assumes "0 \<le> x" and "x \<le> 1000000000"
  shows "micros (Fin x) = \<lfloor>rnd (x * 1000000)\<rfloor>"
proof -
  have r0: "0 \<le> rnd (x * 1000000)" using assms by (intro rnd_nonneg) simp
  have "rnd (x * 1000000) \<le> rnd (of_int 1000000000000000)" using assms by (intro rnd_mono) simp
  also have "\<dots> = of_int 1000000000000000" by (rule rnd_of_int) simp
  finally have r1: "rnd (x * 1000000) \<le> of_int 1000000000000000" .
  have "fl (x * 1000000) = Fin (rnd (x * 1000000))" using assms by (intro fl_finite_small) (simp add: abs_mult)
  moreover have "in_int64 (trunc_rat (rnd (x * 1000000)))"
    using r0 r1 floor_mono [OF r1] by (simp add: in_int64_def trunc_rat_def)
  ultimately show ?thesis using r0 by (simp add: micros_def trunc_rat_def)
qed

text \<open>The lines of a counter that shows \<open>n\<close>.\<close>

definition counter_text :: "string \<Rightarrow> string \<Rightarrow> nat \<Rightarrow> string" where
  "counter_text name help n =
     ''# HELP '' @ name @ '' '' @ help @ [CHR 0x0A] @ ''# TYPE '' @ name @ '' counter'' @ [CHR 0x0A] @
     name @ '' '' @ nat_to_dec n @ ''.000000'' @ [CHR 0x0A]"

lemma writeMetric_counter:
  "n \<le> 2 ^ 53 \<Longrightarrow> writeMetric name help (f64_of_int (int n)) = counter_text name help n"
  by (simp add: writeMetric_def counter_text_def format_counter)

text \<open>C31: the metrics page counts. After any sequence of recordings on a new registry (fewer than \<open>2^53\<close>), the page shows
  for each counter exactly the number of its recordings, and for the cost the sum of the recorded costs in
  micro-dollars, each rounded towards zero, modulo \<open>2^64\<close>.\<close>

theorem metrics_count:
  assumes "length rs < 2 ^ 53"
  shows "Prometheus (fold record_metric rs NewRegistry) =
    counter_text ''guardrail_requests_total'' ''Total chat completion requests.'' (count_list rs Requested) @
    counter_text ''guardrail_blocked_requests_total'' ''Requests blocked by security or budget guardrails.'' (count_list rs Blocked) @
    counter_text ''guardrail_provider_failovers_total'' ''Provider failover attempts.'' (count_list rs FailedOver) @
    writeMetric ''guardrail_estimated_cost_usd_total'' ''Estimated total LLM spend in USD.''
      (f64_div (f64_of_int (sint (word_of_int (sum_list (map spent_micros rs)) :: 64 word))) (Fin 1000000))"
proof -
  have le: "count_list rs x \<le> 2 ^ 53" for x using count_le_length [of rs x] assms by linarith
  then have s: "sint (of_nat (count_list rs x) :: 64 word) = int (count_list rs x)" for x
    using le [of x] power_strict_increasing [of 53 63 "2 :: nat"] by (intro sint_of_nat_small) linarith
  show ?thesis
    by (simp add: Prometheus_def counters_fold NewRegistry_def s writeMetric_counter [OF le])
qed

theorem metrics_count_witness:
  "Prometheus (fold record_metric [Requested, Blocked, Requested, Spent (Fin 2)] NewRegistry) =
    counter_text ''guardrail_requests_total'' ''Total chat completion requests.'' 2 @
    counter_text ''guardrail_blocked_requests_total'' ''Requests blocked by security or budget guardrails.'' 1 @
    counter_text ''guardrail_provider_failovers_total'' ''Provider failover attempts.'' 0 @
    writeMetric ''guardrail_estimated_cost_usd_total'' ''Estimated total LLM spend in USD.''
      (f64_div (f64_of_int (sint (word_of_int (micros (Fin 2)) :: 64 word))) (Fin 1000000))"
  using metrics_count [of "[Requested, Blocked, Requested, Spent (Fin 2)]"] by (simp flip: numeral_2_eq_2)

end
