(* ===== verification/Regex.thy ===== *)
theory Regex
  imports GoStd
begin

text \<open>
  The part of package \<open>regexp\<close> that the security guard uses. A compiled expression is a syntax tree
  over bytes (a code point outside ASCII is the sequence of its bytes in UTF-8). \<open>match_ends\<close> lists
  the places where a match that starts here can end, the one the leftmost-first rule of Go prefers
  first: alternatives in order, the longer repetition first for a greedy star and the shorter first
  for a lazy one. \<open>doExecute\<close>, \<open>FindString\<close>, \<open>FindAllString\<close> and \<open>ReplaceAllString\<close> follow the loops of
  the package, with its rules for empty matches.

  The lemmas: the matcher finds exactly the matches of the declarative relation \<open>Mt\<close>; a search that
  returns nothing means that no match starts at a rune; replacing removes every occurrence of a
  language whose words the replacement text cannot form, and never creates one.
\<close>

section \<open>Expressions and their matches\<close>

type_synonym cls = "(nat \<times> nat) list"

datatype re =
    Eps
  | Cls cls
  | Seq re re
  | Alt re re
  | Star bool re
  | Look "char option \<Rightarrow> char option \<Rightarrow> bool"

definition in_cls :: "cls \<Rightarrow> char \<Rightarrow> bool" where
  "in_cls rs c \<longleftrightarrow> list_ex (\<lambda>(lo, hi). between lo hi c) rs"

definition first_of :: "string \<Rightarrow> char option" where
  "first_of s = (case s of [] \<Rightarrow> None | c # _ \<Rightarrow> Some c)"

definition last_of :: "char option \<Rightarrow> string \<Rightarrow> char option" where
  "last_of p u = (if u = [] then p else Some (last u))"

text \<open>\<open>Mt r p u t\<close>: between the byte \<open>p\<close> and the rest \<open>t\<close> of the text, the expression matches \<open>u\<close>.\<close>

inductive Mt :: "re \<Rightarrow> char option \<Rightarrow> string \<Rightarrow> string \<Rightarrow> bool" where
  Mt_Eps: "Mt Eps p [] t"
| Mt_Cls: "in_cls rs c \<Longrightarrow> Mt (Cls rs) p [c] t"
| Mt_Seq: "Mt r1 p u (v @ t) \<Longrightarrow> Mt r2 (last_of p u) v t \<Longrightarrow> Mt (Seq r1 r2) p (u @ v) t"
| Mt_AltL: "Mt r1 p u t \<Longrightarrow> Mt (Alt r1 r2) p u t"
| Mt_AltR: "Mt r2 p u t \<Longrightarrow> Mt (Alt r1 r2) p u t"
| Mt_Star0: "Mt (Star g r) p [] t"
| Mt_StarS: "Mt r p u (v @ t) \<Longrightarrow> Mt (Star g r) (last_of p u) v t \<Longrightarrow> Mt (Star g r) p (u @ v) t"
| Mt_Look: "f p (first_of t) \<Longrightarrow> Mt (Look f) p [] t"

inductive_cases Mt_EpsE: "Mt Eps p u t"
inductive_cases Mt_ClsE: "Mt (Cls rs) p u t"
inductive_cases Mt_SeqE: "Mt (Seq r1 r2) p u t"
inductive_cases Mt_AltE: "Mt (Alt r1 r2) p u t"
inductive_cases Mt_LookE: "Mt (Look f) p u t"

section \<open>The matcher\<close>

type_synonym matcher = "char option \<Rightarrow> string \<Rightarrow> (char option \<times> string) list"

text \<open>
  A repetition tries another round only where the last one consumed something, so the number of
  rounds is bounded by the length of the text.
\<close>

fun star_ends :: "bool \<Rightarrow> matcher \<Rightarrow> nat \<Rightarrow> matcher" where
  "star_ends g f 0 p s = [(p, s)]"
| "star_ends g f (Suc n) p s =
     (let more = concat (map (\<lambda>(p', s'). star_ends g f n p' s')
                   (filter (\<lambda>(p', s'). length s' < length s) (f p s)))
      in if g then more @ [(p, s)] else (p, s) # more)"

primrec match_ends :: "re \<Rightarrow> matcher" where
  "match_ends Eps = (\<lambda>p s. [(p, s)])"
| "match_ends (Cls rs) = (\<lambda>p s. case s of [] \<Rightarrow> [] | c # cs \<Rightarrow> if in_cls rs c then [(Some c, cs)] else [])"
| "match_ends (Seq r1 r2) = (\<lambda>p s. concat (map (\<lambda>(p', s'). match_ends r2 p' s') (match_ends r1 p s)))"
| "match_ends (Alt r1 r2) = (\<lambda>p s. match_ends r1 p s @ match_ends r2 p s)"
| "match_ends (Star g r) = (\<lambda>p s. star_ends g (match_ends r) (length s) p s)"
| "match_ends (Look f) = (\<lambda>p s. if f p (first_of s) then [(p, s)] else [])"

text \<open>The leftmost match that starts at a rune of \<open>s\<close>; \<open>i\<close> is the offset of \<open>s\<close> in the whole text.\<close>

function find_from :: "re \<Rightarrow> char option \<Rightarrow> string \<Rightarrow> nat \<Rightarrow> (nat \<times> nat) option" where
  "find_from r p s i =
     (case match_ends r p s of
        (p', s') # _ \<Rightarrow> Some (i, i + (length s - length s'))
      | [] \<Rightarrow>
          if s = [] then None
          else
            (let w = rune_width s
             in find_from r (last_of p (take w s)) (drop w s) (i + w)))"
  by pat_completeness auto
termination
  using rune_width_pos by (relation "measure (\<lambda>(r, p, s, i). length s)") (auto simp: Suc_le_eq)

declare find_from.simps [simp del]

definition doExecute :: "re \<Rightarrow> string \<Rightarrow> nat \<Rightarrow> (nat \<times> nat) option" where
  "doExecute r s pos = find_from r (last_of None (take pos s)) (drop pos s) pos"

definition substring :: "string \<Rightarrow> nat \<Rightarrow> nat \<Rightarrow> string" where
  "substring s a b = take (b - a) (drop a s)"

definition FindString :: "re \<Rightarrow> string \<Rightarrow> string" where
  "FindString r s = (case doExecute r s 0 of None \<Rightarrow> [] | Some (a, b) \<Rightarrow> substring s a b)"

text \<open>
  \<open>FindAllString(s, -1)\<close>: the loop of \<open>allMatches\<close>. An empty match at the search position moves on by
  one rune and is dropped where it touches the match before it.
\<close>

lemma find_from_bounds: "find_from r p s i = Some (a, b) \<Longrightarrow> i \<le> a \<and> a \<le> b \<and> b \<le> i + length s"
proof (induction r p s i rule: find_from.induct)
  case (1 r p s i)
  show ?case
  proof (cases "match_ends r p s")
    case Nil
    with "1.prems" have "s \<noteq> []"
      and "find_from r (last_of p (take (rune_width s) s)) (drop (rune_width s) s) (i + rune_width s) = Some (a, b)"
      by (simp_all add: find_from.simps [of r p s i] Let_def split: if_splits)
    with "1.IH" [OF Nil \<open>s \<noteq> []\<close> refl] show ?thesis using rune_width_le [of s] by auto
  next
    case (Cons e es)
    obtain p' s' where "e = (p', s')" by (cases e)
    with "1.prems" Cons show ?thesis by (auto simp: find_from.simps [of r p s i])
  qed
qed

lemma doExecute_bounds:
  "doExecute r s pos = Some (a, b) \<Longrightarrow> pos \<le> length s \<Longrightarrow> pos \<le> a \<and> a \<le> b \<and> b \<le> length s"
  by (auto simp: doExecute_def dest!: find_from_bounds)

function all_matches :: "re \<Rightarrow> string \<Rightarrow> nat \<Rightarrow> nat option \<Rightarrow> string list" where
  "all_matches r s pos prevEnd =
     (if length s < pos then []
      else case doExecute r s pos of
        None \<Rightarrow> []
      | Some (a, b) \<Rightarrow>
          (let accept = \<not> (b = pos \<and> prevEnd = Some a);
               w = rune_width (drop pos s);
               pos' = (if b = pos then if 0 < w then pos + w else length s + 1 else b);
               rest = all_matches r s pos' (Some b)
           in if accept then substring s a b # rest else rest))"
  by pat_completeness auto
termination
  by (relation "measure (\<lambda>(r, s, pos, q). Suc (length s) - pos)") (auto dest: doExecute_bounds)

declare all_matches.simps [simp del]

definition FindAllString :: "re \<Rightarrow> string \<Rightarrow> string list" where
  "FindAllString r s = all_matches r s 0 None"

text \<open>
  \<open>ReplaceAllString\<close> with a replacement text free of \<open>$\<close>: the loop of \<open>replaceAll\<close>, which always moves
  on by at least one rune and inserts nothing for an empty match right after another match.
\<close>

definition next_search :: "string \<Rightarrow> nat \<Rightarrow> nat \<Rightarrow> nat" where
  "next_search s pos b =
     (let w = rune_width (drop pos s)
      in if b < pos + w then pos + w else if b < pos + 1 then pos + 1 else b)"

lemma next_search_gt: "pos \<le> b \<Longrightarrow> pos < next_search s pos b \<and> b \<le> next_search s pos b"
  by (auto simp: next_search_def Let_def)

function replace_loop :: "re \<Rightarrow> string \<Rightarrow> string \<Rightarrow> nat \<Rightarrow> nat \<Rightarrow> string" where
  "replace_loop r repl s lastEnd pos =
     (if length s < pos then drop lastEnd s
      else case doExecute r s pos of
        None \<Rightarrow> drop lastEnd s
      | Some (a, b) \<Rightarrow>
          substring s lastEnd a @ (if lastEnd < b \<or> a = 0 then repl else [])
          @ replace_loop r repl s b (next_search s pos b))"
  by pat_completeness auto
termination
  by (relation "measure (\<lambda>(r, repl, s, lastEnd, pos). Suc (length s) - pos)")
    (auto dest!: doExecute_bounds intro!: diff_less_mono2 next_search_gt [THEN conjunct1])

declare replace_loop.simps [simp del]

definition ReplaceAllString :: "re \<Rightarrow> string \<Rightarrow> string \<Rightarrow> string" where
  "ReplaceAllString r s repl = replace_loop r repl s 0 0"

section \<open>What the matcher finds\<close>

lemma last_of_Nil [simp]: "last_of p [] = p"
  by (simp add: last_of_def)

lemma last_of_append [simp]: "last_of (last_of p u) v = last_of p (u @ v)"
  by (simp add: last_of_def)

lemma last_of_single [simp]: "last_of p [c] = Some c"
  by (simp add: last_of_def)

lemma star_ends_sound:
  assumes f: "\<And>p s p' s'. (p', s') \<in> set (f p s) \<Longrightarrow> \<exists>u. s = u @ s' \<and> p' = last_of p u \<and> Mt r p u s'"
  shows "(p', s') \<in> set (star_ends g f n p s) \<Longrightarrow>
    \<exists>u. s = u @ s' \<and> p' = last_of p u \<and> Mt (Star g r) p u s'"
proof (induction n arbitrary: p s)
  case 0
  then show ?case by (auto intro: Mt_Star0)
next
  case (Suc n)
  consider "p' = p" "s' = s"
    | q t where "(q, t) \<in> set (f p s)" "(p', s') \<in> set (star_ends g f n q t)"
    using Suc.prems by (auto simp: Let_def split: if_splits)
  then show ?case
  proof cases
    case 1
    then show ?thesis by (auto intro: Mt_Star0)
  next
    case 2
    obtain u where u: "s = u @ t" "q = last_of p u" "Mt r p u t" using f 2(1) by blast
    obtain v where v: "t = v @ s'" "p' = last_of q v" "Mt (Star g r) q v s'" using Suc.IH 2(2) by blast
    have "Mt (Star g r) p (u @ v) s'" using Mt_StarS u v by simp
    then show ?thesis using u v by (intro exI [of _ "u @ v"]) simp
  qed
qed

lemma match_ends_sound:
  "(p', s') \<in> set (match_ends r p s) \<Longrightarrow> \<exists>u. s = u @ s' \<and> p' = last_of p u \<and> Mt r p u s'"
proof (induction r arbitrary: p s p' s')
  case (Cls rs)
  then show ?case by (auto split: list.splits if_splits intro: Mt_Cls)
next
  case (Seq r1 r2)
  then obtain q t where qt: "(q, t) \<in> set (match_ends r1 p s)" "(p', s') \<in> set (match_ends r2 q t)"
    by auto
  obtain u where u: "s = u @ t" "q = last_of p u" "Mt r1 p u t" using Seq.IH(1) qt(1) by blast
  obtain v where v: "t = v @ s'" "p' = last_of q v" "Mt r2 q v s'" using Seq.IH(2) qt(2) by blast
  have "Mt (Seq r1 r2) p (u @ v) s'" using Mt_Seq u v by simp
  then show ?case using u v by (intro exI [of _ "u @ v"]) simp
next
  case (Alt r1 r2)
  then show ?case by (auto intro: Mt_AltL Mt_AltR dest!: Alt.IH)
next
  case (Star g r)
  then show ?case using star_ends_sound [of "match_ends r" r] by auto
qed (auto intro: Mt_Eps Mt_Look split: if_splits)

lemma star_ends_complete:
  assumes f: "\<And>p u t. Mt r p u t \<Longrightarrow> (last_of p u, t) \<in> set (f p (u @ t))"
  shows "Mt (Star g r) p u t \<Longrightarrow> length (u @ t) \<le> n \<Longrightarrow> (last_of p u, t) \<in> set (star_ends g f n p (u @ t))"
proof (induction "Star g r" p u t arbitrary: n rule: Mt.induct)
  case (Mt_Star0 p t)
  then show ?case by (cases n) (auto simp: Let_def)
next
  case (Mt_StarS p u v t)
  show ?case
  proof (cases "u = []")
    case True
    then show ?thesis using Mt_StarS by simp
  next
    case False
    with Mt_StarS.prems obtain k where k: "n = Suc k" "length (v @ t) \<le> k" by (cases n; cases u) auto
    have "(last_of p u, v @ t) \<in> set (f p (u @ v @ t))" using f [OF Mt_StarS.hyps(1)] by simp
    moreover have "(last_of p (u @ v), t) \<in> set (star_ends g f k (last_of p u) (v @ t))"
      using Mt_StarS.hyps(4) [OF k(2)] by simp
    ultimately show ?thesis using False by (force simp: k Let_def)
  qed
qed

lemma match_ends_complete: "Mt r p u t \<Longrightarrow> (last_of p u, t) \<in> set (match_ends r p (u @ t))"
proof (induction r arbitrary: p u t)
  case (Seq r1 r2)
  from Seq.prems obtain v w where "u = v @ w" "Mt r1 p v (w @ t)" "Mt r2 (last_of p v) w t"
    by (rule Mt_SeqE)
  with Seq.IH(1) [of p v "w @ t"] Seq.IH(2) [of "last_of p v" w t] show ?case by force
next
  case (Star g r)
  then show ?case using star_ends_complete [of r "match_ends r"] by simp
qed (auto elim: Mt_EpsE Mt_ClsE Mt_AltE Mt_LookE)


lemma match_ends_Nil_iff: "match_ends r p s = [] \<longleftrightarrow> (\<nexists>u t. s = u @ t \<and> Mt r p u t)"
proof
  assume "match_ends r p s = []"
  then show "\<nexists>u t. s = u @ t \<and> Mt r p u t"
    using match_ends_complete [of r p] by fastforce
next
  assume "\<nexists>u t. s = u @ t \<and> Mt r p u t"
  then show "match_ends r p s = []"
    using match_ends_sound by (metis list.set_intros(1) neq_Nil_conv surj_pair)
qed

section \<open>Searching\<close>

lemma find_from_Some:
  "find_from r p s i = Some (a, b) \<Longrightarrow>
   \<exists>v u t. s = v @ u @ t \<and> a = i + length v \<and> b = a + length u \<and> Mt r (last_of p v) u t"
proof (induction r p s i rule: find_from.induct)
  case (1 r p s i)
  show ?case
  proof (cases "match_ends r p s")
    case Nil
    define w where "w = rune_width s"
    have s: "s \<noteq> []" and step: "find_from r (last_of p (take w s)) (drop w s) (i + w) = Some (a, b)"
      using "1.prems" Nil by (simp_all add: find_from.simps [of r p s i] w_def Let_def split: if_splits)
    from "1.IH" [OF Nil s, of w] step obtain v u t where
      vut: "drop w s = v @ u @ t" "a = i + w + length v" "b = a + length u"
        "Mt r (last_of (last_of p (take w s)) v) u t" unfolding w_def by blast
    have "s = (take w s @ v) @ u @ t" using vut(1) append_take_drop_id [of w s] by simp
    moreover have "length (take w s) = w" using rune_width_le [of s] by (simp add: w_def)
    ultimately show ?thesis using vut by (intro exI [of _ "take w s @ v"] exI [of _ u] exI [of _ t]) simp
  next
    case (Cons e es)
    obtain p' s' where e: "e = (p', s')" by (cases e)
    with Cons obtain u where "s = u @ s'" "Mt r p u s'" using match_ends_sound [of p' s' r p s] by auto
    moreover have "a = i" "b = i + (length s - length s')"
      using "1.prems" Cons e by (simp_all add: find_from.simps [of r p s i])
    ultimately show ?thesis by (intro exI [of _ "[]"] exI [of _ u] exI [of _ s']) simp
  qed
qed

text \<open>No match that starts with an ASCII byte is missed, and none starts before the one found.\<close>

lemma find_from_leftmost:
  assumes "Mt r (last_of p v) u t" and "u \<noteq> []" and "byte (hd u) < 128"
  shows "s = v @ u @ t \<Longrightarrow> \<exists>a b. find_from r p s i = Some (a, b) \<and> a \<le> i + length v"
  using assms
proof (induction r p s i arbitrary: v rule: find_from.induct)
  case (1 r p s i)
  show ?case
  proof (cases "match_ends r p s")
    case Nil
    define w where "w = rune_width s"
    have s: "s \<noteq> []" and "v \<noteq> []" using "1.prems" Nil by (auto simp: match_ends_Nil_iff)
    have "w \<le> length v"
    proof (rule ccontr)
      assume "\<not> w \<le> length v"
      then have "128 \<le> byte (s ! length v)" using rune_width_cont [of "length v" s] \<open>v \<noteq> []\<close> by (simp add: w_def)
      then show False using "1.prems" by (simp add: nth_append hd_conv_nth)
    qed
    then have d: "drop w s = drop w v @ u @ t" "take w s = take w v" using "1.prems"(1) by simp_all
    have "Mt r (last_of (last_of p (take w s)) (drop w v)) u t" using "1.prems"(2) d(2) by simp
    from "1.IH" [OF Nil s w_def [symmetric, THEN sym] d(1) this "1.prems"(3,4)]
    obtain a b where "find_from r (last_of p (take w s)) (drop w s) (i + w) = Some (a, b)"
      "a \<le> i + w + length (drop w v)" by blast
    then show ?thesis using Nil s \<open>w \<le> length v\<close> by (simp add: find_from.simps [of r p s i] w_def Let_def)
  next
    case (Cons e es)
    then show ?thesis by (cases e) (simp add: find_from.simps [of r p s i])
  qed
qed

section \<open>Expressions without assertions\<close>

primrec look_free :: "re \<Rightarrow> bool" where
  "look_free Eps = True"
| "look_free (Cls rs) = True"
| "look_free (Seq r1 r2) = (look_free r1 \<and> look_free r2)"
| "look_free (Alt r1 r2) = (look_free r1 \<and> look_free r2)"
| "look_free (Star g r) = look_free r"
| "look_free (Look f) = False"

definition words :: "re \<Rightarrow> string set" where
  "words r = {u. Mt r None u []}"

lemma Mt_look_free: "Mt r p u t \<Longrightarrow> look_free r \<Longrightarrow> Mt r q u t'"
proof (induction arbitrary: q t' rule: Mt.induct)
  case (Mt_Cls rs c p t)
  then show ?case by (simp add: Mt.Mt_Cls)
qed (auto intro: Mt.intros)

lemma Mt_words: "look_free r \<Longrightarrow> Mt r p u t \<longleftrightarrow> u \<in> words r"
  using Mt_look_free unfolding words_def by blast

text \<open>
  The shape of the expressions that search and replacement treat exactly: no assertion, and each
  match starts with an ASCII byte.
\<close>

definition plain :: "re \<Rightarrow> bool" where
  "plain r \<longleftrightarrow> look_free r \<and> (\<forall>u \<in> words r. u \<noteq> [] \<and> byte (hd u) < 128)"

lemma doExecute_Some_plain:
  assumes "plain r" and "doExecute r s pos = Some (a, b)" and "pos \<le> length s"
  shows "substring s a b \<in> words r \<and> pos \<le> a \<and> a < b \<and> b \<le> length s"
proof -
  obtain v u t where d: "drop pos s = v @ u @ t" "a = pos + length v" "b = a + length u"
    and m: "Mt r (last_of (last_of None (take pos s)) v) u t"
    using find_from_Some [OF assms(2) [unfolded doExecute_def]] by blast
  have "u \<in> words r" using m assms(1) by (auto simp: plain_def Mt_words)
  moreover have "drop a s = drop (length v) (drop pos s)" by (simp add: d(2) add.commute)
  then have "drop a s = u @ t" by (simp add: d(1))
  moreover have "u \<noteq> []" using \<open>u \<in> words r\<close> assms(1) by (auto simp: plain_def)
  moreover have "substring s a b = u" using \<open>drop a s = u @ t\<close> by (simp add: substring_def d(3))
  moreover have "a < b" using \<open>u \<noteq> []\<close> by (simp add: d(3))
  ultimately show ?thesis using doExecute_bounds [OF assms(2,3)] by simp
qed

lemma doExecute_leftmost_plain:
  assumes r: "plain r" and u: "u \<in> words r" and s: "s = x @ u @ y" and pos: "pos \<le> length x"
  shows "\<exists>a b. doExecute r s pos = Some (a, b) \<and> a \<le> length x"
proof -
  have "drop pos s = drop pos x @ u @ y" using s pos by simp
  moreover have "Mt r (last_of (last_of None (take pos s)) (drop pos x)) u y"
    using r u by (simp add: plain_def Mt_words)
  ultimately obtain a b where "find_from r (last_of None (take pos s)) (drop pos s) pos = Some (a, b)"
    and "a \<le> pos + length (drop pos x)"
    using find_from_leftmost [of r "last_of None (take pos s)" "drop pos x" u y "drop pos s" pos] r u
    by (auto simp: plain_def)
  then show ?thesis using pos by (simp add: doExecute_def)
qed

definition clean :: "string set \<Rightarrow> string \<Rightarrow> bool" where
  "clean L s \<longleftrightarrow> (\<forall>u \<in> L. \<not> sublist u s)"

lemma clean_sublist: "clean L s \<Longrightarrow> sublist t s \<Longrightarrow> clean L t"
  unfolding clean_def by (meson sublist_order.order_trans)

lemma FindString_plain: "plain r \<Longrightarrow> FindString r s = [] \<longleftrightarrow> clean (words r) s"
proof
  assume r: "plain r" and f: "FindString r s = []"
  show "clean (words r) s"
    unfolding clean_def
  proof (intro ballI notI)
    fix u assume u: "u \<in> words r" "sublist u s"
    then obtain x y where "s = x @ u @ y" by (auto simp: sublist_def)
    with doExecute_leftmost_plain [OF r u(1) this, of 0] obtain a b where
      ab: "doExecute r s 0 = Some (a, b)" by auto
    with doExecute_Some_plain [OF r ab] f r show False by (auto simp: FindString_def substring_def)
  qed
next
  assume r: "plain r" and c: "clean (words r) s"
  show "FindString r s = []"
  proof (cases "doExecute r s 0")
    case None
    then show ?thesis by (simp add: FindString_def)
  next
    case (Some ab)
    obtain a b where "ab = (a, b)" by (cases ab)
    with Some doExecute_Some_plain [OF r, of s 0 a b] have "substring s a b \<in> words r" by simp
    moreover have "sublist (substring s a b) s"
      by (auto simp: substring_def intro: sublist_order.order_trans sublist_take sublist_drop)
    ultimately show ?thesis using c by (auto simp: clean_def)
  qed
qed

section \<open>Replacing\<close>

lemma clean_separator:
  assumes "\<forall>u \<in> L. c \<notin> set u" and x: "clean L x" and y: "clean L y"
  shows "clean L (x @ c # y)"
  unfolding clean_def
proof (intro ballI notI)
  fix u assume u: "u \<in> L" and sub: "sublist u (x @ c # y)"
  from u assms have c: "c \<notin> set u" and nx: "\<not> sublist u x" and ny: "\<not> sublist u y"
    by (auto simp: clean_def)
  have pre: "v = []" if "prefix v (c # y)" "c \<notin> set v" for v using that by (cases v) auto
  from sub nx consider "sublist u (c # y)"
    | u1 u2 where "u = u1 @ u2" "suffix u1 x" "prefix u2 (c # y)"
    by (auto simp: sublist_append)
  then show False
  proof cases
    case 1
    then show ?thesis using pre c ny nx by (auto simp: sublist_Cons_right)
  next
    case 2
    then have "u2 = []" using pre c by auto
    then show ?thesis using 2 nx by (auto simp: suffix_imp_sublist)
  qed
qed

text \<open>A bracketed marker whose inside has no word of the language separates two clean texts.\<close>

definition marker :: "string \<Rightarrow> string" where
  "marker name = ''['' @ name @ '']''"

definition avoids :: "string set \<Rightarrow> string \<Rightarrow> bool" where
  "avoids L name \<longleftrightarrow> (\<forall>u \<in> L. CHR ''['' \<notin> set u \<and> CHR '']'' \<notin> set u) \<and> clean L name"

lemma clean_marker: "avoids L name \<Longrightarrow> clean L x \<Longrightarrow> clean L y \<Longrightarrow> clean L (x @ marker name @ y)"
  using clean_separator [of L "CHR ''[''" x "name @ CHR '']'' # y"] clean_separator [of L "CHR '']''" name y]
  by (simp add: avoids_def marker_def)

lemma clean_substring: "clean L s \<Longrightarrow> clean L (substring s a b)"
  unfolding substring_def
  by (erule clean_sublist) (meson sublist_order.order_trans sublist_take sublist_drop)

lemma clean_replace_other:
  assumes "avoids L name"
  shows "clean L s \<Longrightarrow> lastEnd \<le> pos \<Longrightarrow> clean L (replace_loop r (marker name) s lastEnd pos)"
proof (induction r "marker name" s lastEnd pos rule: replace_loop.induct)
  case (1 r s lastEnd pos)
  have tail: "clean L (drop lastEnd s)" using "1.prems"(1) by (rule clean_sublist) simp
  show ?case
  proof (cases "length s < pos \<or> doExecute r s pos = None")
    case True
    then show ?thesis using tail by (auto simp: replace_loop.simps [of r _ s lastEnd pos])
  next
    case False
    then obtain a b where ab: "\<not> length s < pos" "doExecute r s pos = Some (a, b)" by auto
    then have bd: "pos \<le> a" "a \<le> b" "b \<le> length s" using doExecute_bounds [OF ab(2)] by auto
    have IH: "clean L (replace_loop r (marker name) s b (next_search s pos b))"
      using "1.hyps" [OF ab refl] "1.prems" next_search_gt [of pos b s] bd by auto
    show ?thesis
    proof (cases "lastEnd < b \<or> a = 0")
      case True
      then show ?thesis using clean_marker [OF assms clean_substring [OF "1.prems"(1), of lastEnd a] IH] ab
        by (simp add: replace_loop.simps [of r _ s lastEnd pos])
    next
      case False
      then have "substring s lastEnd a = []" using bd "1.prems" by (simp add: substring_def)
      then show ?thesis using False IH ab by (simp add: replace_loop.simps [of r _ s lastEnd pos])
    qed
  qed
qed

lemma find_from_skip: "find_from r p s i = Some (a, b) \<Longrightarrow> a = i \<or> i + rune_width s \<le> a"
  by (subst (asm) find_from.simps)
    (auto simp: Let_def split: list.splits if_splits dest!: find_from_bounds)

lemma next_search_plain:
  assumes "plain r" and "doExecute r s pos = Some (a, b)" and "pos \<le> length s"
  shows "next_search s pos b = b"
proof -
  from doExecute_Some_plain [OF assms] have ab: "substring s a b \<in> words r" "pos \<le> a" "a < b" "b \<le> length s"
    by auto
  then have "substring s a b \<noteq> []" "byte (hd (substring s a b)) < 128"
    using assms(1) by (auto simp: plain_def)
  then have first: "drop a s \<noteq> []" "byte (hd (drop a s)) < 128"
    by (auto simp: substring_def hd_take)
  have "a = pos \<or> pos + rune_width (drop pos s) \<le> a"
    using assms(2) find_from_skip by (simp add: doExecute_def)
  then have "pos + rune_width (drop pos s) \<le> b" using rune_width_ascii first ab by auto
  then show ?thesis using ab by (auto simp: next_search_def Let_def)
qed

lemma clean_replace_same:
  assumes r: "plain r" and "avoids (words r) name"
  shows "lastEnd = pos \<Longrightarrow> pos \<le> length s \<Longrightarrow> clean (words r) (replace_loop r (marker name) s lastEnd pos)"
proof (induction r\<equiv>r "marker name" s lastEnd pos rule: replace_loop.induct)
  case (1 s lastEnd pos)
  have before: "clean (words r) (substring s pos e)"
    if "\<And>a b. doExecute r s pos = Some (a, b) \<Longrightarrow> e \<le> a" "pos \<le> e" "e \<le> length s" for e
    unfolding clean_def
  proof (intro ballI notI)
    fix u assume u: "u \<in> words r" "sublist u (substring s pos e)"
    then obtain x y where xy: "substring s pos e = x @ u @ y" by (auto simp: sublist_def)
    have "s = take pos s @ substring s pos e @ drop e s"
      using that(2,3) by (simp add: substring_def) (metis append_take_drop_id drop_drop le_add_diff_inverse2)
    then have "s = (take pos s @ x) @ u @ (y @ drop e s)" by (simp add: xy)
    moreover have len: "length (take pos s @ x) = pos + length x" using "1.prems" by simp
    ultimately obtain a b where ab: "doExecute r s pos = Some (a, b)" "a \<le> pos + length x"
      using doExecute_leftmost_plain [OF r u(1), of s "take pos s @ x" "y @ drop e s" pos] by auto
    have "length (substring s pos e) \<le> e - pos" by (simp add: substring_def)
    moreover have "u \<noteq> []" using r u(1) by (auto simp: plain_def)
    ultimately have "pos + length x < e" using that(2) by (cases u) (auto simp: xy)
    then show False using ab that(1) by fastforce
  qed
  show ?case
  proof (cases "doExecute r s pos")
    case None
    then show ?thesis using "1.prems" before [of "length s"]
      by (simp add: replace_loop.simps [of r _ s pos pos] substring_def)
  next
    case (Some ab)
    obtain a b where ab: "doExecute r s pos = Some (a, b)" using Some by (cases ab) auto
    from doExecute_Some_plain [OF r ab "1.prems"(2)] have bd: "pos \<le> a" "a < b" "b \<le> length s" by auto
    have "clean (words r) (replace_loop r (marker name) s b (next_search s pos b))"
      using "1.hyps" [OF _ ab refl] next_search_plain [OF r ab "1.prems"(2)] "1.prems" bd by simp
    then show ?thesis
      using clean_marker [OF assms(2) before [of a]] ab bd "1.prems"
      by (simp add: replace_loop.simps [of r _ s pos pos])
  qed
qed

lemma ReplaceAllString_same:
  "plain r \<Longrightarrow> avoids (words r) name \<Longrightarrow> clean (words r) (ReplaceAllString r s (marker name))"
  by (simp add: ReplaceAllString_def clean_replace_same)

lemma ReplaceAllString_other:
  "avoids L name \<Longrightarrow> clean L s \<Longrightarrow> clean L (ReplaceAllString r s (marker name))"
  by (simp add: ReplaceAllString_def clean_replace_other)

end
