(* ===== verification/Security.thy ===== *)
theory Security
  imports Config Regex
begin

text \<open>
  Package \<open>internal/security\<close>: the guard that inspects prompts and redacts request bodies. The nine
  built-in expressions are written as syntax trees beside their source text; compiling the extra
  patterns of the configuration is the parameter \<open>compile\<close>, \<open>None\<close> being a pattern that does not
  compile. \<open>Inspect\<close> and \<open>Redact\<close> do not change the guard.

  The lemmas: the action of a decision is the strongest that a matching rule's mode asks for; every
  finding quotes the text; text with an e-mail address or an OpenAI key is always reported and never
  survives redaction, whatever extra patterns there are; redaction without findings changes nothing.
\<close>

section \<open>Writing expressions\<close>

definition seqs :: "re list \<Rightarrow> re" where
  "seqs rs = foldr Seq rs Eps"

fun alts :: "re list \<Rightarrow> re" where
  "alts [] = Cls []"
| "alts [r] = r"
| "alts (r # rs) = Alt r (alts rs)"

definition opt :: "re \<Rightarrow> re" where
  "opt r = Alt r Eps"

definition one_or_more :: "re \<Rightarrow> re" where
  "one_or_more r = Seq r (Star True r)"

primrec exactly :: "nat \<Rightarrow> re \<Rightarrow> re" where
  "exactly 0 r = Eps"
| "exactly (Suc n) r = Seq r (exactly n r)"

primrec up_to :: "nat \<Rightarrow> re \<Rightarrow> re" where
  "up_to 0 r = Eps"
| "up_to (Suc n) r = opt (Seq r (up_to n r))"

text \<open>\<open>r{n,}\<close> and \<open>r{n,m}\<close>.\<close>

definition at_least :: "nat \<Rightarrow> re \<Rightarrow> re" where
  "at_least n r = Seq (exactly n r) (Star True r)"

definition repeat :: "nat \<Rightarrow> nat \<Rightarrow> re \<Rightarrow> re" where
  "repeat n m r = Seq (exactly n r) (up_to (m - n) r)"

definition lit :: "string \<Rightarrow> re" where
  "lit s = seqs (map (\<lambda>c. Cls [(byte c, byte c)]) s)"

text \<open>
  Under \<open>(?i)\<close> a letter also matches the code points that fold to it: U+212A for \<open>k\<close> and U+017F for
  \<open>s\<close>, besides the two cases of ASCII.
\<close>

definition kelvin :: re where
  "kelvin = lit [CHR 0xE2, CHR 0x84, CHR 0xAA]"

definition long_s :: re where
  "long_s = lit [CHR 0xC5, CHR 0xBF]"

definition folded :: "char \<Rightarrow> re" where
  "folded c =
     (let both = Cls [(byte (lower c), byte (lower c)), (byte (upper c), byte (upper c))]
      in if lower c = CHR ''k'' then Alt both kelvin else if lower c = CHR ''s'' then Alt both long_s else both)"

definition lit_i :: "string \<Rightarrow> re" where
  "lit_i s = seqs (map folded s)"

definition is_word :: "char option \<Rightarrow> bool" where
  "is_word p = (case p of None \<Rightarrow> False
     | Some c \<Rightarrow> in_cls [(0x30, 0x39), (0x41, 0x5A), (0x5F, 0x5F), (0x61, 0x7A)] c)"

definition word_boundary :: re where
  "word_boundary = Look (\<lambda>p n. is_word p \<noteq> is_word n)"

text \<open>\<open>\s\<close> and \<open>\d\<close>.\<close>

definition space :: re where
  "space = Cls [(0x09, 0x0A), (0x0C, 0x0D), (0x20, 0x20)]"

definition digit :: re where
  "digit = Cls [(0x30, 0x39)]"

section \<open>Types (security.go)\<close>

datatype Action = ActionAllow | ActionWarn | ActionBlock | ActionRedact

primrec action_string :: "Action \<Rightarrow> string" where
  "action_string ActionAllow = ''allow''"
| "action_string ActionWarn = ''warn''"
| "action_string ActionBlock = ''block''"
| "action_string ActionRedact = ''redact''"

record Finding =
  fi_Kind :: string
  fi_Rule :: string
  fi_Match :: string

record SecDecision =
  sd_Action :: Action
  sd_Findings :: "Finding list"

text \<open>A compiled expression: its source text, which \<open>String\<close> returns, and its syntax tree.\<close>

record regexp =
  rx_String :: string
  rx_re :: re

record piiRule =
  pii_name :: string
  pii_re :: re

record Guard =
  g_promptMode :: string
  g_piiMode :: string
  g_prompt :: "regexp list"
  g_pii :: "piiRule list"

section \<open>Operations\<close>

definition normalizeMode :: "string \<Rightarrow> string \<Rightarrow> string" where
  "normalizeMode mode fallback =
     (if ToLower (TrimSpace mode) \<in> {''off'', ''warn'', ''redact'', ''block''}
      then ToLower (TrimSpace mode) else fallback)"

definition promptRules :: "regexp list" where
  "promptRules =
    [\<lparr>rx_String = ''(?i)'' @ [CHR 0x5C] @ ''bignore (all )?(previous|prior|above) instructions'' @ [CHR 0x5C] @ ''b'',
      rx_re = seqs [word_boundary, lit_i ''ignore '', opt (lit_i ''all ''),
        alts [lit_i ''previous'', lit_i ''prior'', lit_i ''above''], lit_i '' instructions'', word_boundary]\<rparr>,
     \<lparr>rx_String = ''(?i)'' @ [CHR 0x5C] @ ''bdeveloper mode'' @ [CHR 0x5C] @ ''b'',
      rx_re = seqs [word_boundary, lit_i ''developer mode'', word_boundary]\<rparr>,
     \<lparr>rx_String = ''(?i)'' @ [CHR 0x5C] @ ''breveal (the )?(system|developer) prompt'' @ [CHR 0x5C] @ ''b'',
      rx_re = seqs [word_boundary, lit_i ''reveal '', opt (lit_i ''the ''),
        alts [lit_i ''system'', lit_i ''developer''], lit_i '' prompt'', word_boundary]\<rparr>,
     \<lparr>rx_String = ''(?i)'' @ [CHR 0x5C] @ ''bdisregard (the )?(policy|rules|instructions)'' @ [CHR 0x5C] @ ''b'',
      rx_re = seqs [word_boundary, lit_i ''disregard '', opt (lit_i ''the ''),
        alts [lit_i ''policy'', lit_i ''rules'', lit_i ''instructions''], word_boundary]\<rparr>,
     \<lparr>rx_String = ''(?i)<'' @ [CHR 0x5C] @ ''s*/?'' @ [CHR 0x5C] @ ''s*(system|assistant|developer)'' @ [CHR 0x5C] @ ''s*>'',
      rx_re = seqs [lit ''<'', Star True space, opt (lit ''/''), Star True space,
        alts [lit_i ''system'', lit_i ''assistant'', lit_i ''developer''], Star True space, lit ''>'']\<rparr>]"

text \<open>\<open>[A-Za-z0-9._%+\-]+@[A-Za-z0-9.\-]+\.[A-Za-z]{2,}\<close>\<close>

definition email_local :: cls where
  "email_local = [(0x41, 0x5A), (0x61, 0x7A), (0x30, 0x39), (0x2E, 0x2E), (0x5F, 0x5F), (0x25, 0x25), (0x2B, 0x2B), (0x2D, 0x2D)]"

definition email_domain :: cls where
  "email_domain = [(0x41, 0x5A), (0x61, 0x7A), (0x30, 0x39), (0x2E, 0x2E), (0x2D, 0x2D)]"

definition letters :: cls where
  "letters = [(0x41, 0x5A), (0x61, 0x7A)]"

definition email_re :: re where
  "email_re = seqs [one_or_more (Cls email_local), lit ''@'', one_or_more (Cls email_domain), lit ''.'', at_least 2 (Cls letters)]"

text \<open>\<open>\b(?:\d[ -]*?){13,19}\b\<close>\<close>

definition credit_card_re :: re where
  "credit_card_re =
     seqs [word_boundary, repeat 13 19 (Seq digit (Star False (Cls [(0x20, 0x20), (0x2D, 0x2D)]))), word_boundary]"

text \<open>\<open>sk-[A-Za-z0-9_\-]{20,}\<close>\<close>

definition key_chars :: cls where
  "key_chars = [(0x41, 0x5A), (0x61, 0x7A), (0x30, 0x39), (0x5F, 0x5F), (0x2D, 0x2D)]"

definition openai_key_re :: re where
  "openai_key_re = seqs [lit ''sk-'', at_least 20 (Cls key_chars)]"

text \<open>\<open>(?i)\b(api[_-]?key|token|secret)\s*[:=]\s*["']?[A-Za-z0-9_\-]{16,}\<close>\<close>

definition generic_api_key_re :: re where
  "generic_api_key_re =
     seqs [word_boundary,
       alts [seqs [lit_i ''api'', opt (Cls [(0x5F, 0x5F), (0x2D, 0x2D)]), lit_i ''key''], lit_i ''token'', lit_i ''secret''],
       Star True space, Cls [(0x3A, 0x3A), (0x3D, 0x3D)], Star True space, opt (Cls [(0x22, 0x22), (0x27, 0x27)]),
       at_least 16 (alts [Cls key_chars, kelvin, long_s])]"

definition piiRules :: "piiRule list" where
  "piiRules =
    [\<lparr>pii_name = ''email'', pii_re = email_re\<rparr>,
     \<lparr>pii_name = ''credit_card'', pii_re = credit_card_re\<rparr>,
     \<lparr>pii_name = ''openai_key'', pii_re = openai_key_re\<rparr>,
     \<lparr>pii_name = ''generic_api_key'', pii_re = generic_api_key_re\<rparr>]"

text \<open>The loop over the extra patterns, \<open>i\<close> being the index of the first.\<close>

fun add_custom :: "(string \<Rightarrow> re option) \<Rightarrow> nat \<Rightarrow> string list \<Rightarrow> piiRule list \<Rightarrow> piiRule list" where
  "add_custom compile i [] rules = rules"
| "add_custom compile i (pattern # ps) rules =
     add_custom compile (Suc i) ps
       (case compile pattern of
          None \<Rightarrow> rules
        | Some compiled \<Rightarrow> rules @ [\<lparr>pii_name = ''custom_'' @ Itoa (int i + 1), pii_re = compiled\<rparr>])"

definition NewGuard :: "(string \<Rightarrow> re option) \<Rightarrow> SecurityConfig \<Rightarrow> Guard" where
  "NewGuard compile cfg =
     \<lparr>g_promptMode = normalizeMode (sec_PromptInjectionMode cfg) ''warn'',
      g_piiMode = normalizeMode (sec_PIIMode cfg) ''redact'',
      g_prompt = promptRules,
      g_pii = add_custom compile 0 (sec_ExtraPIIPatterns cfg) piiRules\<rparr>"

definition actionFromMode :: "string \<Rightarrow> Action" where
  "actionFromMode mode =
     (if mode = ''block'' then ActionBlock else if mode = ''redact'' then ActionRedact
      else if mode = ''warn'' then ActionWarn else ActionAllow)"

primrec rank :: "Action \<Rightarrow> nat" where
  "rank ActionAllow = 0"
| "rank ActionWarn = 1"
| "rank ActionRedact = 2"
| "rank ActionBlock = 3"

definition strongest :: "Action \<Rightarrow> Action \<Rightarrow> Action" where
  "strongest left right = (if rank left < rank right then right else left)"

definition actionFor :: "Guard \<Rightarrow> Finding list \<Rightarrow> Action" where
  "actionFor g findings =
     foldl (\<lambda>action finding.
        if fi_Kind finding = ''prompt_injection'' then strongest action (actionFromMode (g_promptMode g))
        else if fi_Kind finding = ''pii'' then strongest action (actionFromMode (g_piiMode g))
        else action) ActionAllow findings"

definition Inspect :: "Guard \<Rightarrow> string \<Rightarrow> SecDecision" where
  "Inspect g prompt =
     (let findings =
        concat (map (\<lambda>rule. let match = FindString (rx_re rule) prompt in
            if match \<noteq> [] then [\<lparr>fi_Kind = ''prompt_injection'', fi_Rule = rx_String rule, fi_Match = match\<rparr>] else [])
          (g_prompt g)) @
        concat (map (\<lambda>rule. let match = FindString (pii_re rule) prompt in
            if match \<noteq> [] then [\<lparr>fi_Kind = ''pii'', fi_Rule = pii_name rule, fi_Match = match\<rparr>] else [])
          (g_pii g))
      in \<lparr>sd_Action = actionFor g findings, sd_Findings = findings\<rparr>)"

fun redact_rules :: "piiRule list \<Rightarrow> string \<Rightarrow> Finding list \<Rightarrow> string \<times> Finding list" where
  "redact_rules [] redacted findings = (redacted, findings)"
| "redact_rules (rule # rules) redacted findings =
     redact_rules rules
       (ReplaceAllString (pii_re rule) redacted (''[REDACTED_'' @ ToUpper (pii_name rule) @ '']''))
       (findings @ map (\<lambda>match. \<lparr>fi_Kind = ''pii'', fi_Rule = pii_name rule, fi_Match = match\<rparr>)
          (FindAllString (pii_re rule) redacted))"

definition Redact :: "Guard \<Rightarrow> string \<Rightarrow> string \<times> Finding list" where
  "Redact g text = redact_rules (g_pii g) text []"

section \<open>The words of the built-in expressions\<close>

text \<open>What the expressions for e-mail addresses and OpenAI keys are meant to describe.\<close>

definition email_shape :: "string \<Rightarrow> bool" where
  "email_shape u \<longleftrightarrow>
     (\<exists>l d t. u = l @ ''@'' @ d @ ''.'' @ t \<and> l \<noteq> [] \<and> list_all (in_cls email_local) l
        \<and> d \<noteq> [] \<and> list_all (in_cls email_domain) d \<and> 2 \<le> length t \<and> list_all (in_cls letters) t)"

definition key_shape :: "string \<Rightarrow> bool" where
  "key_shape u \<longleftrightarrow> (\<exists>k. u = ''sk-'' @ k \<and> 20 \<le> length k \<and> list_all (in_cls key_chars) k)"

lemma words_Eps: "words Eps = {[]}"
  by (auto simp: words_def intro: Mt_Eps elim: Mt_EpsE)

lemma words_Cls: "words (Cls rs) = {[c] |c. in_cls rs c}"
  by (auto simp: words_def intro: Mt_Cls elim: Mt_ClsE)

lemma words_Seq:
  "look_free r1 \<Longrightarrow> look_free r2 \<Longrightarrow> words (Seq r1 r2) = {u @ v |u v. u \<in> words r1 \<and> v \<in> words r2}"
  by (auto simp: words_def Mt_words [symmetric] intro!: Mt_Seq elim!: Mt_SeqE dest: Mt_look_free)

lemma words_Seq_Cls:
  "look_free r \<Longrightarrow> words (Seq (Cls rs) r) = {c # v |c v. in_cls rs c \<and> v \<in> words r}"
  by (simp add: words_Seq words_Cls set_eq_iff) (metis append_Cons append_Nil)

lemma Mt_Star_Cls: "Mt (Star g (Cls rs)) p u t \<longleftrightarrow> list_all (in_cls rs) u"
proof
  show "Mt (Star g (Cls rs)) p u t \<Longrightarrow> list_all (in_cls rs) u"
    by (induction "Star g (Cls rs)" p u t rule: Mt.induct) (auto elim: Mt_ClsE)
next
  show "list_all (in_cls rs) u \<Longrightarrow> Mt (Star g (Cls rs)) p u t"
  proof (induction u arbitrary: p)
    case Nil
    then show ?case by (simp add: Mt_Star0)
  next
    case (Cons c u)
    then have "Mt (Cls rs) p [c] (u @ t)" and "Mt (Star g (Cls rs)) (last_of p [c]) u t"
      by (auto intro: Mt_Cls)
    then show ?case using Mt_StarS [of "Cls rs" p "[c]" u t g] by simp
  qed
qed

lemma words_Star_Cls: "words (Star g (Cls rs)) = {u. list_all (in_cls rs) u}"
  by (simp add: words_def Mt_Star_Cls)

lemma look_free_exactly: "look_free r \<Longrightarrow> look_free (exactly n r)"
  by (induction n) auto

lemma words_exactly_Cls: "words (exactly n (Cls rs)) = {u. length u = n \<and> list_all (in_cls rs) u}"
proof (induction n)
  case 0
  then show ?case by (auto simp: words_Eps)
next
  case (Suc n)
  have "words (exactly (Suc n) (Cls rs)) = {c # v |c v. in_cls rs c \<and> length v = n \<and> list_all (in_cls rs) v}"
    using Suc by (simp add: words_Seq_Cls look_free_exactly)
  also have "\<dots> = {u. length u = Suc n \<and> list_all (in_cls rs) u}"
    by (auto simp: length_Suc_conv)
  finally show ?case .
qed

lemma words_one_or_more_Cls: "words (one_or_more (Cls rs)) = {u. u \<noteq> [] \<and> list_all (in_cls rs) u}"
  by (auto simp: one_or_more_def words_Seq_Cls words_Star_Cls neq_Nil_conv)

lemma words_at_least_Cls: "words (at_least n (Cls rs)) = {u. n \<le> length u \<and> list_all (in_cls rs) u}"
proof -
  have "u \<in> words (at_least n (Cls rs))" if "n \<le> length u" "list_all (in_cls rs) u" for u
  proof -
    have "u = take n u @ drop n u" by simp
    moreover have "list_all (in_cls rs) (take n u)" "list_all (in_cls rs) (drop n u)"
      using that(2) by (metis append_take_drop_id list_all_append)+
    moreover have "length (take n u) = n" using that(1) by simp
    ultimately have "\<exists>v w. u = v @ w \<and> (length v = n \<and> list_all (in_cls rs) v) \<and> list_all (in_cls rs) w"
      by blast
    then show ?thesis
      by (simp add: at_least_def words_Seq look_free_exactly words_exactly_Cls words_Star_Cls)
  qed
  then show ?thesis
    by (auto simp: at_least_def words_Seq look_free_exactly words_exactly_Cls words_Star_Cls)
qed

lemma look_free_seqs: "look_free (seqs rs) \<longleftrightarrow> list_all look_free rs"
  by (induction rs) (auto simp: seqs_def)

lemma words_seqs_Cons:
  "look_free r \<Longrightarrow> list_all look_free rs \<Longrightarrow>
   words (seqs (r # rs)) = {u @ v |u v. u \<in> words r \<and> v \<in> words (seqs rs)}"
  using words_Seq [of r "seqs rs"] by (simp add: look_free_seqs) (simp add: seqs_def)

lemma words_seqs_Nil: "words (seqs []) = {[]}"
  by (simp add: seqs_def words_Eps)

lemma look_free_lit: "look_free (lit s)"
  by (simp add: lit_def look_free_seqs list_all_iff)

lemma in_cls_single: "in_cls [(byte c, byte c)] d \<longleftrightarrow> d = c"
  by (auto simp: in_cls_def between_def byte_def)

lemma words_lit: "words (lit s) = {s}"
proof (induction s)
  case Nil
  then show ?case by (simp add: lit_def words_seqs_Nil)
next
  case (Cons c s)
  have "words (lit (c # s)) = {u @ v |u v. u \<in> words (Cls [(byte c, byte c)]) \<and> v \<in> words (lit s)}"
    using words_seqs_Cons [of "Cls [(byte c, byte c)]" "map (\<lambda>c. Cls [(byte c, byte c)]) s"]
    by (simp add: lit_def list_all_iff)
  then show ?case by (auto simp: Cons words_Cls in_cls_single)
qed

lemmas words_re = words_seqs_Cons words_seqs_Nil words_one_or_more_Cls words_at_least_Cls words_lit

lemma email_look_free: "list_all look_free
    [one_or_more (Cls email_local), lit ''@'', one_or_more (Cls email_domain), lit ''.'', at_least 2 (Cls letters)]"
  by (simp add: one_or_more_def at_least_def look_free_exactly look_free_lit)

lemma words_email: "words email_re = {u. email_shape u}"
  using email_look_free unfolding email_re_def email_shape_def
  by (simp add: words_re) blast

lemma words_openai_key: "words openai_key_re = {u. key_shape u}"
  unfolding openai_key_re_def key_shape_def
  by (simp add: words_re at_least_def look_free_exactly look_free_lit) (auto simp: words_re at_least_def [symmetric])

text \<open>Both expressions match only ASCII text without brackets.\<close>

lemma in_cls_ascii:
  "in_cls email_local c \<or> in_cls email_domain c \<or> in_cls letters c \<or> in_cls key_chars c \<Longrightarrow>
   byte c < 128 \<and> c \<noteq> CHR ''['' \<and> c \<noteq> CHR '']''"
  by (auto simp: in_cls_def email_local_def email_domain_def letters_def key_chars_def between_def byte_def)

lemma email_shape_facts:
  assumes "email_shape u"
  shows "u \<noteq> [] \<and> byte (hd u) < 128 \<and> CHR ''['' \<notin> set u \<and> CHR '']'' \<notin> set u \<and> CHR ''@'' \<in> set u"
proof -
  obtain l d t where u: "u = l @ ''@'' @ d @ ''.'' @ t" and l: "l \<noteq> []"
    and "list_all (in_cls email_local) l" "list_all (in_cls email_domain) d" "list_all (in_cls letters) t"
    using assms unfolding email_shape_def by blast
  then have "\<forall>c \<in> set l \<union> set d \<union> set t. byte c < 128 \<and> c \<noteq> CHR ''['' \<and> c \<noteq> CHR '']''"
    using in_cls_ascii unfolding list_all_iff by blast
  with u l show ?thesis by (cases l) auto
qed

lemma key_shape_facts:
  assumes "key_shape u"
  shows "u \<noteq> [] \<and> byte (hd u) < 128 \<and> CHR ''['' \<notin> set u \<and> CHR '']'' \<notin> set u \<and> CHR ''s'' \<in> set u"
proof -
  obtain k where u: "u = ''sk-'' @ k" and "list_all (in_cls key_chars) k"
    using assms unfolding key_shape_def by blast
  then have "\<forall>c \<in> set k. c \<noteq> CHR ''['' \<and> c \<noteq> CHR '']''" using in_cls_ascii unfolding list_all_iff by blast
  with u show ?thesis by (auto simp: byte_def)
qed

lemma plain_email: "plain email_re"
  unfolding plain_def words_email using email_look_free email_shape_facts
  by (auto simp: email_re_def look_free_seqs)

lemma plain_openai_key: "plain openai_key_re"
  unfolding plain_def words_openai_key using key_shape_facts
  by (auto simp: openai_key_re_def look_free_seqs look_free_lit at_least_def look_free_exactly)

section \<open>The marker a rule leaves\<close>

lemma clean_without: "(\<forall>u \<in> L. d \<in> set u) \<Longrightarrow> d \<notin> set name \<Longrightarrow> clean L name"
  by (auto simp: clean_def sublist_def)

lemma upper_neq: "upper c \<noteq> CHR ''s''"
proof
  assume "upper c = CHR ''s''"
  then have "byte (upper c) = 115" by (simp add: byte_def)
  then show False by (auto simp: upper_def between_def byte_def split: if_splits)
qed

lemma upper_at: "upper c = CHR ''@'' \<longleftrightarrow> c = CHR ''@''"
proof -
  have "byte (upper c) = 64 \<longleftrightarrow> byte c = 64" by (auto simp: upper_def between_def byte_def)
  moreover have "c = CHR ''@'' \<longleftrightarrow> byte c = byte (CHR ''@'')" for c :: char by (simp only: byte_eq_iff)
  moreover have "byte (CHR ''@'') = 64" by (simp add: byte_def)
  ultimately show ?thesis by simp
qed

lemma marker_avoids:
  assumes "CHR ''@'' \<notin> set name"
  shows "avoids (words email_re) (''REDACTED_'' @ ToUpper name) \<and>
         avoids (words openai_key_re) (''REDACTED_'' @ ToUpper name)"
proof -
  have "CHR ''@'' \<notin> set (''REDACTED_'' @ ToUpper name)" and "CHR ''s'' \<notin> set (''REDACTED_'' @ ToUpper name)"
    using assms upper_neq upper_at by (auto simp: ToUpper_def image_iff eq_commute [of "CHR ''@''"] eq_commute [of "CHR ''s''"])
  then have "clean (words email_re) (''REDACTED_'' @ ToUpper name)"
    and "clean (words openai_key_re) (''REDACTED_'' @ ToUpper name)"
    using email_shape_facts key_shape_facts unfolding words_email words_openai_key
    by (metis clean_without mem_Collect_eq)+
  then show ?thesis using email_shape_facts key_shape_facts
    unfolding avoids_def words_email words_openai_key by blast
qed


section \<open>Redaction\<close>

lemma redact_rules_clean:
  assumes "\<forall>rule \<in> set rules. CHR ''@'' \<notin> set (pii_name rule)" and "L = words email_re \<or> L = words openai_key_re"
  shows "clean L body \<Longrightarrow> clean L (fst (redact_rules rules body fs))"
  using assms
proof (induction rules body fs rule: redact_rules.induct)
  case (2 rule rules body fs)
  have "clean L (ReplaceAllString (pii_re rule) body (marker (''REDACTED_'' @ ToUpper (pii_name rule))))"
    using "2.prems" marker_avoids [of "pii_name rule"] by (intro ReplaceAllString_other) auto
  then show ?case using 2 by (simp add: marker_def)
qed simp

lemma redact_rules_removes:
  assumes "\<forall>rule \<in> set rules. CHR ''@'' \<notin> set (pii_name rule)"
    and "rule \<in> set rules" and "pii_re rule = email_re \<or> pii_re rule = openai_key_re"
  shows "clean (words (pii_re rule)) (fst (redact_rules rules body fs))"
  using assms
proof (induction rules body fs rule: redact_rules.induct)
  case (2 rule' rules body fs)
  show ?case
  proof (cases "rule = rule'")
    case True
    have "clean (words (pii_re rule)) (ReplaceAllString (pii_re rule) body (marker (''REDACTED_'' @ ToUpper (pii_name rule))))"
      using "2.prems" marker_avoids [of "pii_name rule"] plain_email plain_openai_key
      by (intro ReplaceAllString_same) auto
    then have "clean (words (pii_re rule)) (fst (redact_rules rules
        (ReplaceAllString (pii_re rule) body (marker (''REDACTED_'' @ ToUpper (pii_name rule)))) fs'))" for fs'
      using "2.prems" by (intro redact_rules_clean) auto
    then show ?thesis by (simp add: True marker_def)
  next
    case False
    then show ?thesis using 2 by simp
  qed
qed simp

lemma Itoa_no_at: "CHR ''@'' \<notin> set (Itoa i)"
proof -
  have d: "digit_char (n mod 10) \<noteq> CHR ''@''" for n
  proof -
    have "48 + n mod 10 < 58" by simp
    then have "of_char (digit_char (n mod 10)) < (58::nat)" unfolding digit_char_def by simp
    then show ?thesis by auto
  qed
  have "CHR ''@'' \<notin> set (nat_to_dec n)" for n
  proof (induction n rule: nat_to_dec.induct)
    case (1 n)
    then show ?case using d [of n] by (subst nat_to_dec.simps) auto
  qed
  then show ?thesis by (simp add: Itoa_def)
qed

lemma add_custom_prefix: "\<exists>ext. add_custom compile i ps rules = rules @ ext"
  by (induction compile i ps rules rule: add_custom.induct) (auto split: option.splits)

lemma add_custom_names:
  "\<forall>rule \<in> set rules. CHR ''@'' \<notin> set (pii_name rule) \<Longrightarrow>
   rule \<in> set (add_custom compile i ps rules) \<Longrightarrow> CHR ''@'' \<notin> set (pii_name rule)"
  by (induction compile i ps rules rule: add_custom.induct) (auto split: option.splits simp: Itoa_no_at)

lemma NewGuard_names: "rule \<in> set (g_pii (NewGuard compile cfg)) \<Longrightarrow> CHR ''@'' \<notin> set (pii_name rule)"
  by (rule add_custom_names [of piiRules]) (auto simp: NewGuard_def piiRules_def)

lemma piiRules_kept: "rule \<in> set piiRules \<Longrightarrow> rule \<in> set (g_pii (NewGuard compile cfg))"
  using add_custom_prefix [of compile 0 "sec_ExtraPIIPatterns cfg" piiRules] by (auto simp: NewGuard_def)

lemma Redact_clean:
  "clean (words email_re) (fst (Redact (NewGuard compile cfg) body)) \<and>
   clean (words openai_key_re) (fst (Redact (NewGuard compile cfg) body))"
  using redact_rules_removes [of "g_pii (NewGuard compile cfg)" "\<lparr>pii_name = ''email'', pii_re = email_re\<rparr>" body "[]"]
    redact_rules_removes [of "g_pii (NewGuard compile cfg)" "\<lparr>pii_name = ''openai_key'', pii_re = openai_key_re\<rparr>" body "[]"]
    NewGuard_names piiRules_kept
  by (simp add: Redact_def piiRules_def)

text \<open>C3: redaction is complete for e-mail addresses and OpenAI keys. Whatever the configuration and
  its extra patterns are, no part of the text that \<open>Redact\<close> returns has the shape of an e-mail address
  (\<open>local@domain.tld\<close> over the characters of the rule) or of an OpenAI key (\<open>sk-\<close> and twenty or more key
  characters): later replacements never bring one back.\<close>

theorem redact_complete:
  "\<nexists>u. sublist u (fst (Redact (NewGuard compile cfg) body)) \<and> (email_shape u \<or> key_shape u)"
  using Redact_clean [of compile cfg body] unfolding clean_def words_email words_openai_key by blast

section \<open>Inspection\<close>

lemma strongest_rank: "rank (strongest a b) = max (rank a) (rank b)"
  by (simp add: strongest_def max_def)

lemma rank_inject [simp]: "rank a = rank b \<longleftrightarrow> a = b"
  by (cases a; cases b) auto

lemma strongest_assoc: "strongest (strongest a b) c = strongest a (strongest b c)"
  by (simp add: rank_inject [symmetric] strongest_rank max.assoc del: rank_inject)

lemma strongest_comm: "strongest a b = strongest b a"
  by (simp add: rank_inject [symmetric] strongest_rank max.commute del: rank_inject)

lemma strongest_left_comm: "strongest a (strongest b c) = strongest b (strongest a c)"
  by (simp add: rank_inject [symmetric] strongest_rank max.left_commute del: rank_inject)

lemma strongest_idem [simp]: "strongest a a = a" "strongest a (strongest a b) = strongest a b"
  by (simp_all add: rank_inject [symmetric] strongest_rank del: rank_inject)

lemma strongest_allow [simp]: "strongest ActionAllow a = a" "strongest a ActionAllow = a"
  by (simp_all add: rank_inject [symmetric] strongest_rank del: rank_inject)

lemma actionFor_eq:
  "actionFor g fs =
     strongest
       (if list_ex (\<lambda>f. fi_Kind f = ''prompt_injection'') fs then actionFromMode (g_promptMode g) else ActionAllow)
       (if list_ex (\<lambda>f. fi_Kind f = ''pii'') fs then actionFromMode (g_piiMode g) else ActionAllow)"
proof (induction fs rule: rev_induct)
  case Nil
  then show ?case by (simp add: actionFor_def)
next
  case (snoc f fs)
  have "actionFor g (fs @ [f]) =
      (if fi_Kind f = ''prompt_injection'' then strongest (actionFor g fs) (actionFromMode (g_promptMode g))
       else if fi_Kind f = ''pii'' then strongest (actionFor g fs) (actionFromMode (g_piiMode g))
       else actionFor g fs)"
    by (simp add: actionFor_def)
  then show ?case using snoc by (auto simp: strongest_assoc strongest_comm strongest_left_comm)
qed

lemma list_ex_concat_map: "list_ex P (concat (map f xs)) \<longleftrightarrow> list_ex (\<lambda>x. list_ex P (f x)) xs"
  by (induction xs) auto

lemma list_ex_False: "\<not> list_ex (\<lambda>x. False) xs"
  by (induction xs) auto

lemma list_ex_single: "list_ex P (if c then [x] else []) \<longleftrightarrow> c \<and> P x"
  by simp

lemma Inspect_kinds:
  "list_ex (\<lambda>f. fi_Kind f = ''prompt_injection'') (sd_Findings (Inspect g prompt)) \<longleftrightarrow>
     list_ex (\<lambda>rule. FindString (rx_re rule) prompt \<noteq> []) (g_prompt g)"
  "list_ex (\<lambda>f. fi_Kind f = ''pii'') (sd_Findings (Inspect g prompt)) \<longleftrightarrow>
     list_ex (\<lambda>rule. FindString (pii_re rule) prompt \<noteq> []) (g_pii g)"
  by (simp_all add: Inspect_def Let_def list_ex_concat_map list_ex_single list_ex_False)

lemma Inspect_action: "sd_Action (Inspect g prompt) = actionFor g (sd_Findings (Inspect g prompt))"
  by (simp add: Inspect_def Let_def)

text \<open>The mode \<open>mode\<close> is asked for by a kind of rule that matches the prompt.\<close>

definition mode_asked :: "Guard \<Rightarrow> string \<Rightarrow> string \<Rightarrow> bool" where
  "mode_asked g prompt mode \<longleftrightarrow>
     g_promptMode g = mode \<and> list_ex (\<lambda>rule. FindString (rx_re rule) prompt \<noteq> []) (g_prompt g) \<or>
     g_piiMode g = mode \<and> list_ex (\<lambda>rule. FindString (pii_re rule) prompt \<noteq> []) (g_pii g)"

text \<open>C25: the action of an inspection. The prompt-injection mode counts exactly when some prompt rule matches and the PII
  mode exactly when some PII rule matches. The prompt is blocked if a mode that counts is \<open>block\<close>; otherwise redacted if one
  is \<open>redact\<close>; otherwise let through with a warning if one is \<open>warn\<close>; and otherwise simply let through.\<close>

theorem inspect_action_strongest:
  "sd_Action (Inspect g prompt) =
     (if mode_asked g prompt ''block'' then ActionBlock
      else if mode_asked g prompt ''redact'' then ActionRedact
      else if mode_asked g prompt ''warn'' then ActionWarn
      else ActionAllow)"
proof -
  define a b where "a \<longleftrightarrow> list_ex (\<lambda>rule. FindString (rx_re rule) prompt \<noteq> []) (g_prompt g)"
    and "b \<longleftrightarrow> list_ex (\<lambda>rule. FindString (pii_re rule) prompt \<noteq> []) (g_pii g)"
  show ?thesis
    unfolding Inspect_action actionFor_eq Inspect_kinds mode_asked_def a_def [symmetric] b_def [symmetric]
    by (cases a; cases b) (simp_all add: actionFromMode_def strongest_def)
qed

lemma add_custom_name:
  "rule \<in> set (add_custom compile i ps rules) \<Longrightarrow> rule \<in> set rules \<or> (\<exists>n. pii_name rule = ''custom_'' @ n)"
  by (induction compile i ps rules rule: add_custom.induct) (auto split: option.splits)

lemma NewGuard_rule:
  "\<lparr>pii_name = n, pii_re = r\<rparr> \<in> set piiRules \<Longrightarrow> rule \<in> set (g_pii (NewGuard compile cfg)) \<Longrightarrow>
   pii_name rule = n \<Longrightarrow> rule = \<lparr>pii_name = n, pii_re = r\<rparr>"
  using add_custom_name [of rule compile 0 "sec_ExtraPIIPatterns cfg" piiRules]
  by (auto simp: NewGuard_def piiRules_def)

lemma Inspect_pii:
  "(\<exists>m. \<lparr>fi_Kind = ''pii'', fi_Rule = n, fi_Match = m\<rparr> \<in> set (sd_Findings (Inspect g prompt))) \<longleftrightarrow>
   (\<exists>rule \<in> set (g_pii g). pii_name rule = n \<and> FindString (pii_re rule) prompt \<noteq> [])"
  by (auto simp: Inspect_def Let_def split: if_splits)

lemma Inspect_builtin:
  assumes "\<lparr>pii_name = n, pii_re = r\<rparr> \<in> set piiRules"
  shows "(\<exists>m. \<lparr>fi_Kind = ''pii'', fi_Rule = n, fi_Match = m\<rparr>
            \<in> set (sd_Findings (Inspect (NewGuard compile cfg) prompt))) \<longleftrightarrow> FindString r prompt \<noteq> []"
proof -
  have "rule \<in> set (g_pii (NewGuard compile cfg)) \<and> pii_name rule = n \<longleftrightarrow> rule = \<lparr>pii_name = n, pii_re = r\<rparr>" for rule
    using NewGuard_rule [OF assms] piiRules_kept [OF assms] by (metis piiRule.select_convs(1))
  then show ?thesis unfolding Inspect_pii Bex_def by (metis piiRule.select_convs(2))
qed

text \<open>C8: inspection reports e-mail addresses and OpenAI keys exactly. The guard of any configuration has
  a finding of the rule \<open>email\<close> if and only if some part of the prompt has the shape of an e-mail address,
  and one of the rule \<open>openai_key\<close> if and only if some part has the shape of a key.\<close>

theorem inspect_exact:
  "((\<exists>m. \<lparr>fi_Kind = ''pii'', fi_Rule = ''email'', fi_Match = m\<rparr>
        \<in> set (sd_Findings (Inspect (NewGuard compile cfg) prompt))) \<longleftrightarrow> (\<exists>u. sublist u prompt \<and> email_shape u)) \<and>
   ((\<exists>m. \<lparr>fi_Kind = ''pii'', fi_Rule = ''openai_key'', fi_Match = m\<rparr>
        \<in> set (sd_Findings (Inspect (NewGuard compile cfg) prompt))) \<longleftrightarrow> (\<exists>u. sublist u prompt \<and> key_shape u))"
proof -
  have "\<lparr>pii_name = ''email'', pii_re = email_re\<rparr> \<in> set piiRules"
    and "\<lparr>pii_name = ''openai_key'', pii_re = openai_key_re\<rparr> \<in> set piiRules" by (simp_all add: piiRules_def)
  note builtin = this [THEN Inspect_builtin]
  show ?thesis
    unfolding builtin FindString_plain [OF plain_email] FindString_plain [OF plain_openai_key]
      clean_def words_email words_openai_key by blast
qed

lemma FindString_sublist: "sublist (FindString r s) s"
  by (auto simp: FindString_def substring_def split: option.splits intro: sublist_order.order_trans [OF sublist_take])

text \<open>Every finding of an inspection quotes a non-empty part of the inspected prompt.\<close>

lemma findings_quote_prompt:
  "list_all (\<lambda>f. fi_Match f \<noteq> [] \<and> sublist (fi_Match f) prompt) (sd_Findings (Inspect g prompt))"
  by (auto simp: Inspect_def Let_def list_all_iff FindString_sublist)

lemma FindAllString_Nil: "FindAllString r s = [] \<Longrightarrow> ReplaceAllString r s repl = s"
  by (auto simp: FindAllString_def ReplaceAllString_def all_matches.simps [of r s 0] replace_loop.simps [of r repl s 0 0]
      Let_def split: option.splits prod.splits if_splits)

lemma redact_rules_findings: "\<exists>more. snd (redact_rules rules body fs) = fs @ more"
  by (induction rules body fs rule: redact_rules.induct) auto

lemma redact_rules_silent: "snd (redact_rules rules body fs) = fs \<Longrightarrow> fst (redact_rules rules body fs) = body"
proof (induction rules body fs rule: redact_rules.induct)
  case (2 rule rules body fs)
  define found where "found = map (\<lambda>match. \<lparr>fi_Kind = ''pii'', fi_Rule = pii_name rule, fi_Match = match\<rparr>)
    (FindAllString (pii_re rule) body)"
  obtain more where "snd (redact_rules (rule # rules) body fs) = (fs @ found) @ more"
    using redact_rules_findings [of rules _ "fs @ found"] by (auto simp: found_def)
  with "2.prems" have "FindAllString (pii_re rule) body = []" by (simp add: found_def)
  then show ?case using 2 by (simp add: FindAllString_Nil)
qed simp

text \<open>Redaction that reports nothing changes nothing.\<close>

lemma redact_silent: "snd (Redact g body) = [] \<Longrightarrow> fst (Redact g body) = body"
  unfolding Redact_def by (rule redact_rules_silent)

end
