(* ===== verification/Pricing.thy ===== *)
theory Pricing
  imports Json Config
begin

text \<open>
  The pricing half of package \<open>internal/cost\<close>: token estimates (\<open>tokens.go\<close>), the built-in prices
  (\<open>static_pricing.go\<close>, \<open>defaultPrices\<close>) and the price table with its refresh from a feed (\<open>pricing.go\<close>).
  Prices and costs are binary64 values; a product and a sum are two roundings, as on amd64. What the HTTP
  client returns for the feed is an argument.

  The lemmas: the bounds of the token estimate; prices grow with both token counts and are not negative when
  the table has no negative price; a refresh either fails and keeps the table or installs the defaults
  overridden by the feed; when the refreshing goroutine returns, and with what.
\<close>

section \<open>Tokens (tokens.go)\<close>

definition EstimateTokens :: "string \<Rightarrow> int" where
  "EstimateTokens s =
     (let runes = int (rune_count s)
      in if runes = 0 then 0 else go_div (runes + 3) 4)"

record usage_payload =
  up_CompletionTokens :: int

record completion_payload =
  pl_Usage :: usage_payload

definition dec_completion :: "completion_payload dec" where
  "dec_completion = dec_struct
     [(''usage'', field pl_Usage pl_Usage_update (dec_struct
         [(''completion_tokens'', field up_CompletionTokens up_CompletionTokens_update dec_int)]))]"

definition CompletionTokensFromOpenAI :: "string \<Rightarrow> int" where
  "CompletionTokensFromOpenAI body =
     (case json_Unmarshal dec_completion \<lparr>pl_Usage = \<lparr>up_CompletionTokens = 0\<rparr>\<rparr> body of
        None \<Rightarrow> EstimateTokens body
      | Some payload \<Rightarrow>
          if 0 < up_CompletionTokens (pl_Usage payload) then up_CompletionTokens (pl_Usage payload)
          else EstimateTokens body)"

section \<open>Prices (static_pricing.go, pricing.go)\<close>

record modelPrice =
  mp_inputPerMTok :: f64
  mp_outputPerMTok :: f64

definition usd_price :: "rat \<Rightarrow> rat \<Rightarrow> modelPrice" where
  "usd_price i out = \<lparr>mp_inputPerMTok = fl i, mp_outputPerMTok = fl out\<rparr>"

definition defaultPrices :: "(string \<times> modelPrice) list" where
  "defaultPrices =
     [(''gpt-4o'', usd_price (250/100) (1000/100)),
      (''gpt-4o-mini'', usd_price (15/100) (60/100)),
      (''gpt-4.1'', usd_price (200/100) (800/100)),
      (''gpt-4.1-mini'', usd_price (40/100) (160/100)),
      (''claude-3-5-sonnet'', usd_price (300/100) (1500/100)),
      (''claude-3-5-haiku'', usd_price (80/100) (400/100)),
      (''gemini-1.5-pro'', usd_price (125/100) (500/100)),
      (''gemini-1.5-flash'', usd_price (75/1000) (30/100)),
      (''gemini-2.0-flash'', usd_price (10/100) (40/100)),
      (''gemini-2.5-flash-lite'', usd_price (10/100) (40/100)),
      (''gemini-2.5-pro'', usd_price (125/100) (1000/100))]"

definition fallback_price :: modelPrice where
  "fallback_price = usd_price 1 3"

definition priceForModel :: "string \<Rightarrow> modelPrice" where
  "priceForModel model = (case map_of defaultPrices model of Some price \<Rightarrow> price | None \<Rightarrow> fallback_price)"

text \<open>The expression that both pricers compute.\<close>

definition token_cost :: "modelPrice \<Rightarrow> int \<Rightarrow> int \<Rightarrow> f64" where
  "token_cost price promptTokens completionTokens =
     f64_div (f64_add (f64_mul (f64_of_int promptTokens) (mp_inputPerMTok price))
                      (f64_mul (f64_of_int completionTokens) (mp_outputPerMTok price)))
       (Fin 1000000)"

definition StaticPricer_Price :: "string \<Rightarrow> int \<Rightarrow> int \<Rightarrow> f64" where
  "StaticPricer_Price model promptTokens completionTokens =
     token_cost (priceForModel model) promptTokens completionTokens"

definition Price :: "string \<Rightarrow> int \<Rightarrow> int \<Rightarrow> f64" where
  "Price model promptTokens completionTokens = StaticPricer_Price model promptTokens completionTokens"

record PriceTable =
  pt_url :: string
  pt_prices :: "(string \<times> modelPrice) list"

definition NewPriceTable :: "PricingConfig \<Rightarrow> PriceTable" where
  "NewPriceTable cfg = \<lparr>pt_url = prc_URL cfg, pt_prices = defaultPrices\<rparr>"

definition PriceTable_Price :: "PriceTable \<Rightarrow> string \<Rightarrow> int \<Rightarrow> int \<Rightarrow> f64" where
  "PriceTable_Price p model promptTokens completionTokens =
     (let price = (case map_of (pt_prices p) model of Some price \<Rightarrow> price | None \<Rightarrow> fallback_price)
      in token_cost price promptTokens completionTokens)"

text \<open>The feed: \<open>PriceFeed\<close> and \<open>ModelPrice\<close> with their JSON names.\<close>

record PriceFeed =
  pf_Models :: "(string \<times> modelPrice) list"

definition zero_price :: modelPrice where
  "zero_price = \<lparr>mp_inputPerMTok = Fin 0, mp_outputPerMTok = Fin 0\<rparr>"

definition dec_feed :: "PriceFeed dec" where
  "dec_feed = dec_struct
     [(''models'', field pf_Models pf_Models_update (dec_map (dec_struct
         [(''input_per_mtok'', field mp_inputPerMTok mp_inputPerMTok_update dec_float),
          (''output_per_mtok'', field mp_outputPerMTok mp_outputPerMTok_update dec_float)]) zero_price))]"

text \<open>
  What the client returns: a status and a body, which may break off with a read error. \<open>Decoder.Decode\<close> reads
  the first value of the body; a read error counts only when the value is not complete before it.
\<close>

record feed_response =
  fr_StatusCode :: int
  fr_Body :: string

definition apply_feed :: "(string \<times> modelPrice) list \<Rightarrow> (string \<times> modelPrice) list" where
  "apply_feed models = foldl (\<lambda>next (model, price). (model, price) # next) defaultPrices models"

definition PriceTable_Refresh :: "(string \<Rightarrow> string) \<Rightarrow> (string \<Rightarrow> feed_response result) \<Rightarrow> PriceTable \<Rightarrow> string option \<times> PriceTable" where
  "PriceTable_Refresh jerr get p =
     (if pt_url p = [] then (None, p)
      else case url_Parse (pt_url p) of
        Inl e \<Rightarrow> (Some (''build pricing request: '' @ e), p)
      | Inr _ \<Rightarrow>
          (case get (pt_url p) of
             Inl e \<Rightarrow> (Some (''fetch pricing table: '' @ e), p)
           | Inr resp \<Rightarrow>
               if fr_StatusCode resp < 200 \<or> 300 \<le> fr_StatusCode resp
               then (Some (''fetch pricing table: status '' @ Itoa (fr_StatusCode resp)), p)
               else
                 (case Option.bind (json_First (fr_Body resp)) (\<lambda>(v, _). dec_feed v \<lparr>pf_Models = []\<rparr>) of
                    None \<Rightarrow> (Some (''decode pricing table: '' @ jerr (fr_Body resp)), p)
                  | Some feed \<Rightarrow>
                      if pf_Models feed = [] then (Some ''decode pricing table: no models'', p)
                      else (None, p\<lparr>pt_prices := apply_feed (pf_Models feed)\<rparr>))))"

text \<open>
  The loop of \<open>RunAutoRefresh\<close>. What its \<open>select\<close> receives next is the \<open>n\<close>-th event: a tick, with what the client
  would return then, or the end of the context. The ticker never stops on its own, so the sequence of events is
  endless, and so may be the loop: not returning is \<open>None\<close>. It returns the errors it has reported and the table.
\<close>

datatype refresh_event = Done | Tick "string \<Rightarrow> feed_response result"

partial_function (option) refresh_loop ::
  "(string \<Rightarrow> string) \<Rightarrow> (nat \<Rightarrow> refresh_event) \<Rightarrow> nat \<Rightarrow> string list \<Rightarrow> PriceTable \<Rightarrow> (string list \<times> PriceTable) option" where
  "refresh_loop jerr events n errs p =
     (case events n of
        Done \<Rightarrow> Some (errs, p)
      | Tick get \<Rightarrow>
          (case PriceTable_Refresh jerr get p of
             (Some e, p') \<Rightarrow> refresh_loop jerr events (Suc n) (errs @ [e]) p'
           | (None, p') \<Rightarrow> refresh_loop jerr events (Suc n) errs p'))"

definition RunAutoRefresh :: "(string \<Rightarrow> string) \<Rightarrow> duration \<Rightarrow> (nat \<Rightarrow> refresh_event) \<Rightarrow> PriceTable \<Rightarrow> (string list \<times> PriceTable) option" where
  "RunAutoRefresh jerr interval events p =
     (if pt_url p = [] \<or> interval \<le> 0 then Some ([], p) else refresh_loop jerr events 0 [] p)"

text \<open>The interface \<open>Pricer\<close> and its two implementations.\<close>

datatype Pricer = StaticPricer | TablePricer PriceTable

fun Pricer_Price :: "Pricer \<Rightarrow> string \<Rightarrow> int \<Rightarrow> int \<Rightarrow> f64" where
  "Pricer_Price StaticPricer model pt ct = StaticPricer_Price model pt ct"
| "Pricer_Price (TablePricer p) model pt ct = PriceTable_Price p model pt ct"

section \<open>Token estimates\<close>

text \<open>C33: a token estimate counts four code points as one token, rounding up: it is the least number of tokens
  that covers all runes of the text, \<open>0\<close> only for the empty text.\<close>

theorem estimate_bounds:
  "int (rune_count s) \<le> 4 * EstimateTokens s \<and> 4 * EstimateTokens s < int (rune_count s) + 4 \<and>
   (EstimateTokens s = 0 \<longleftrightarrow> s = [])"
proof -
  define r where "r = int (rune_count s)"
  have r: "0 \<le> r" "r = 0 \<longleftrightarrow> s = []" using rune_count_pos [of s] by (cases "s = []"; simp add: r_def)+
  have e: "EstimateTokens s = (if r = 0 then 0 else (r + 3) div 4)"
    using r(1) by (simp add: EstimateTokens_def r_def [symmetric] Let_def go_div_nonneg)
  show ?thesis using r unfolding e r_def [symmetric] by auto
qed

lemma EstimateTokens_nonneg: "0 \<le> EstimateTokens s"
proof -
  have "0 \<le> (int (rune_count s) + 3) div 4" by simp
  then show ?thesis by (simp add: EstimateTokens_def Let_def go_div_nonneg)
qed

section \<open>The contract of a pricer\<close>

text \<open>
  What the budget check relies on: more tokens never cost less, and nothing costs nothing. The token counts are
  Go integers.
\<close>

locale pricer =
  fixes price :: "string \<Rightarrow> int \<Rightarrow> int \<Rightarrow> f64"
  assumes price_zero: "price m 0 0 = Fin 0"
    and price_mono: "0 \<le> pt \<Longrightarrow> pt \<le> pt' \<Longrightarrow> 0 \<le> ct \<Longrightarrow> ct \<le> ct' \<Longrightarrow> in_int64 pt' \<Longrightarrow> in_int64 ct' \<Longrightarrow>
      f64_le (price m pt ct) (price m pt' ct')"
begin

lemma price_nonneg: "0 \<le> pt \<Longrightarrow> 0 \<le> ct \<Longrightarrow> in_int64 pt \<Longrightarrow> in_int64 ct \<Longrightarrow> f64_le (Fin 0) (price m pt ct)"
  using price_mono [of 0 pt 0 ct m] price_zero by simp

end

text \<open>Finite prices that are not negative.\<close>

fun nonneg_finite :: "f64 \<Rightarrow> bool" where
  "nonneg_finite (Fin x) \<longleftrightarrow> 0 \<le> x"
| "nonneg_finite _ \<longleftrightarrow> False"

definition price_ok :: "modelPrice \<Rightarrow> bool" where
  "price_ok p \<longleftrightarrow> nonneg_finite (mp_inputPerMTok p) \<and> nonneg_finite (mp_outputPerMTok p)"

lemma f64_of_int_finite: "in_int64 n \<Longrightarrow> \<exists>x. f64_of_int n = Fin x"
proof -
  assume "in_int64 n"
  then have "\<bar>n\<bar> \<le> 2 ^ 64" by (auto simp: in_int64_def)
  then have "\<bar>of_int n :: rat\<bar> \<le> 2 ^ 64" by (metis of_int_abs of_int_le_iff of_int_power of_int_numeral)
  then show ?thesis by (auto simp: f64_of_int_def fl_finite_small)
qed

lemma mul_price:
  assumes "in_int64 n" "nonneg_finite p"
  shows "f64_mul (f64_of_int n) p \<noteq> NaN"
    and "0 \<le> n \<Longrightarrow> f64_le (Fin 0) (f64_mul (f64_of_int n) p)"
    and "m \<le> n \<Longrightarrow> in_int64 m \<Longrightarrow> f64_le (f64_mul (f64_of_int m) p) (f64_mul (f64_of_int n) p)"
proof -
  have nn: "f64_mul (f64_of_int k) p \<noteq> NaN" if "in_int64 k" for k
    using assms(2) f64_of_int_finite [OF that] by (cases p) auto
  have p0: "f64_le (Fin 0) p" using assms(2) by (cases p) auto
  show "f64_mul (f64_of_int n) p \<noteq> NaN" using nn assms by simp
  show "0 \<le> n \<Longrightarrow> f64_le (Fin 0) (f64_mul (f64_of_int n) p)"
    using f64_mul_nonneg f64_of_int_nonneg nn assms p0 by simp
  show "m \<le> n \<Longrightarrow> in_int64 m \<Longrightarrow> f64_le (f64_mul (f64_of_int m) p) (f64_mul (f64_of_int n) p)"
    using f64_mul_mono_left f64_of_int_mono nn assms p0 by simp
qed

lemma f64_add_mono2:
  assumes "f64_le (Fin 0) a" "f64_le a b" "f64_le (Fin 0) c" "f64_le c d"
  shows "f64_le (f64_add a c) (f64_add b d)"
proof -
  have b: "f64_le (Fin 0) b" "f64_le (Fin 0) d" using assms f64_le_trans by blast+
  have nn: "f64_add x y \<noteq> NaN" if "f64_le (Fin 0) x" "f64_le (Fin 0) y" for x y
    using f64_add_nonneg [OF that] by auto
  show ?thesis using f64_add_mono [OF assms(2), of c] f64_add_mono_right [OF assms(4), of b] nn b assms f64_le_trans by blast
qed

lemma token_cost_mono:
  assumes "price_ok p" "0 \<le> pt" "pt \<le> pt'" "0 \<le> ct" "ct \<le> ct'" "in_int64 pt'" "in_int64 ct'"
  shows "f64_le (token_cost p pt ct) (token_cost p pt' ct')"
proof -
  have i: "in_int64 pt" "in_int64 ct" using assms by (auto simp: in_int64_def)
  have "f64_le (Fin 0) (f64_mul (f64_of_int pt) (mp_inputPerMTok p))" "f64_le (Fin 0) (f64_mul (f64_of_int ct) (mp_outputPerMTok p))"
    "f64_le (f64_mul (f64_of_int pt) (mp_inputPerMTok p)) (f64_mul (f64_of_int pt') (mp_inputPerMTok p))"
    "f64_le (f64_mul (f64_of_int ct) (mp_outputPerMTok p)) (f64_mul (f64_of_int ct') (mp_outputPerMTok p))"
    using mul_price assms i by (auto simp: price_ok_def)
  then have "f64_le
      (f64_add (f64_mul (f64_of_int pt) (mp_inputPerMTok p)) (f64_mul (f64_of_int ct) (mp_outputPerMTok p)))
      (f64_add (f64_mul (f64_of_int pt') (mp_inputPerMTok p)) (f64_mul (f64_of_int ct') (mp_outputPerMTok p)))"
    by (intro f64_add_mono2)
  then show ?thesis by (simp add: token_cost_def f64_div_mono)
qed

lemma token_cost_zero: "price_ok p \<Longrightarrow> token_cost p 0 0 = Fin 0"
  by (cases "mp_inputPerMTok p"; cases "mp_outputPerMTok p") (auto simp: token_cost_def price_ok_def f64_of_int_def)

lemma usd_price_ok:
  assumes "0 \<le> i" "i \<le> 2 ^ 64" "0 \<le> out" "out \<le> 2 ^ 64"
  shows "price_ok (usd_price i out)"
proof -
  have "nonneg_finite (fl x)" if "0 \<le> x" "x \<le> 2 ^ 64" for x
    using fl_mono [of 0 x] fl_finite_small [of x] that by simp
  then show ?thesis using assms by (simp add: price_ok_def usd_price_def)
qed

lemma defaultPrices_ok: "list_all (\<lambda>(m, p). price_ok p) defaultPrices"
  by (simp add: defaultPrices_def usd_price_ok)

lemma fallback_price_ok: "price_ok fallback_price"
  by (simp add: fallback_price_def usd_price_ok)

lemma map_of_ok: "list_all (\<lambda>(m, p). price_ok p) ps \<Longrightarrow> map_of ps m = Some p \<Longrightarrow> price_ok p"
  by (auto simp: list_all_iff dest!: map_of_SomeD)

definition table_ok :: "PriceTable \<Rightarrow> bool" where
  "table_ok p \<longleftrightarrow> list_all (\<lambda>(m, p). price_ok p) (pt_prices p)"

fun pricer_ok :: "Pricer \<Rightarrow> bool" where
  "pricer_ok StaticPricer \<longleftrightarrow> True"
| "pricer_ok (TablePricer p) \<longleftrightarrow> table_ok p"

lemma priceForModel_ok: "price_ok (priceForModel m)"
  using map_of_ok [OF defaultPrices_ok] fallback_price_ok by (auto simp: priceForModel_def split: option.split)

interpretation static: pricer StaticPricer_Price
  by unfold_locales (simp_all add: StaticPricer_Price_def token_cost_zero token_cost_mono priceForModel_ok)

lemma pricer_Price: "pricer_ok pr \<Longrightarrow> pricer (Pricer_Price pr)"
proof (cases pr)
  case StaticPricer
  then show ?thesis using static.pricer_axioms by (simp add: pricer_def)
next
  case (TablePricer p)
  assume "pricer_ok pr"
  then have "price_ok (case map_of (pt_prices p) m of Some price \<Rightarrow> price | None \<Rightarrow> fallback_price)" for m
    using TablePricer map_of_ok [of "pt_prices p"] fallback_price_ok by (auto simp: table_ok_def split: option.split)
  then show ?thesis
    by unfold_locales (simp_all add: TablePricer PriceTable_Price_def Let_def token_cost_zero token_cost_mono)
qed

interpretation initial_table: pricer "PriceTable_Price (NewPriceTable cfg)" for cfg
  using pricer_Price [of "TablePricer (NewPriceTable cfg)"] defaultPrices_ok
  by (simp add: table_ok_def NewPriceTable_def pricer_def)

section \<open>Refreshing the table\<close>

lemma foldl_Cons: "foldl (\<lambda>next (m, p). (m, p) # next) base ms = rev ms @ base"
  by (induction ms arbitrary: base) auto

lemma apply_feed_eq: "apply_feed models = rev models @ defaultPrices"
  by (simp add: apply_feed_def foldl_Cons)

text \<open>C30: a refresh of the price table is all or nothing. When it reports an error the table is unchanged;
  when it succeeds with a feed, each model has the feed's price if the feed lists it and its built-in price
  otherwise, so a model that an earlier feed listed falls back to its default.\<close>

theorem refresh_all_or_nothing:
  "case PriceTable_Refresh jerr get p of
     (Some e, p') \<Rightarrow> p' = p
   | (None, p') \<Rightarrow> pt_url p = [] \<and> p' = p \<or>
       (\<exists>resp v rest feed. get (pt_url p) = Inr resp \<and> json_First (fr_Body resp) = Some (v, rest) \<and>
          dec_feed v \<lparr>pf_Models = []\<rparr> = Some feed \<and> pf_Models feed \<noteq> [] \<and> pt_url p' = pt_url p \<and>
          map_of (pt_prices p') = map_of defaultPrices ++ map_of (rev (pf_Models feed)))"
  by (auto simp: PriceTable_Refresh_def apply_feed_eq map_of_append bind_eq_Some_conv
      split: prod.splits option.splits sum.splits if_splits)

section \<open>The refreshing goroutine\<close>

text \<open>A refresh does not look at the prices in the table: neither its error nor the prices it installs depend on them.\<close>

lemma Refresh_prices:
  "PriceTable_Refresh jerr get (p\<lparr>pt_prices := ps\<rparr>) =
     (case PriceTable_Refresh jerr get p of (Some e, _) \<Rightarrow> (Some e, p\<lparr>pt_prices := ps\<rparr>)
      | (None, p') \<Rightarrow> (None, if pt_url p = [] then p\<lparr>pt_prices := ps\<rparr> else p'))"
  by (auto simp: PriceTable_Refresh_def split: sum.splits option.splits)

definition refresh_fails :: "(string \<Rightarrow> string) \<Rightarrow> PriceTable \<Rightarrow> (string \<Rightarrow> feed_response result) \<Rightarrow> string option" where
  "refresh_fails jerr p get = fst (PriceTable_Refresh jerr get p)"

text \<open>The table after a list of refreshes: that of the last one that did not fail.\<close>

definition last_refreshed :: "(string \<Rightarrow> string) \<Rightarrow> PriceTable \<Rightarrow> (string \<Rightarrow> feed_response result) list \<Rightarrow> PriceTable" where
  "last_refreshed jerr p gets =
     (let good = filter (\<lambda>get. refresh_fails jerr p get = None) gets
      in if good = [] then p else snd (PriceTable_Refresh jerr (last good) p))"

lemma refresh_step:
  assumes "PriceTable_Refresh jerr get p = (e, p')" and "pt_url p \<noteq> []"
  shows "pt_url p' = pt_url p" and "refresh_fails jerr p' = refresh_fails jerr p"
    and "last_refreshed jerr p' gets = last_refreshed jerr p (get # gets)"
    and "e \<noteq> None \<Longrightarrow> p' = p"
proof -
  obtain ps where p': "p' = p\<lparr>pt_prices := ps\<rparr>" and same: "e \<noteq> None \<Longrightarrow> p' = p"
    using assms by (auto simp: PriceTable_Refresh_def split: sum.splits option.splits if_splits)
      (metis PriceTable.surjective PriceTable.update_convs(2))+
  show "pt_url p' = pt_url p" by (simp add: p')
  show f: "refresh_fails jerr p' = refresh_fails jerr p"
    by (auto simp: refresh_fails_def fun_eq_iff p' Refresh_prices split: prod.splits option.splits)
  have "snd (PriceTable_Refresh jerr g p') = snd (PriceTable_Refresh jerr g p)" if "refresh_fails jerr p g = None" for g
    using that assms(2) by (auto simp: refresh_fails_def p' Refresh_prices split: prod.splits option.splits)
  moreover have "refresh_fails jerr p (last (filter (\<lambda>get. refresh_fails jerr p get = None) gets)) = None"
    if "filter (\<lambda>get. refresh_fails jerr p get = None) gets \<noteq> []"
    using last_in_set [OF that] by simp
  ultimately show "last_refreshed jerr p' gets = last_refreshed jerr p (get # gets)"
    using assms(1) same by (auto simp: last_refreshed_def Let_def f refresh_fails_def)
  show "e \<noteq> None \<Longrightarrow> p' = p" by (rule same)
qed

lemma refresh_loop_done:
  assumes "events (n + length gets) = Done" and "\<forall>i < length gets. events (n + i) = Tick (gets ! i)" and "pt_url p \<noteq> []"
  shows "refresh_loop jerr events n errs p =
     Some (errs @ List.map_filter (refresh_fails jerr p) gets, last_refreshed jerr p gets)"
  using assms
proof (induction gets arbitrary: n errs p)
  case Nil
  then show ?case by (subst refresh_loop.simps) (simp add: List.map_filter_simps last_refreshed_def)
next
  case (Cons get gets)
  obtain e p' where r: "PriceTable_Refresh jerr get p = (e, p')" by fastforce
  note st = refresh_step [OF r Cons.prems(3)]
  have "events n = Tick get" using Cons.prems(2) by force
  moreover have "refresh_loop jerr events (Suc n) errs' p' =
      Some (errs' @ List.map_filter (refresh_fails jerr p') gets, last_refreshed jerr p' gets)" for errs'
    using Cons.prems st(1) by (intro Cons.IH) auto
  moreover have "refresh_fails jerr p get = e" by (simp add: refresh_fails_def r)
  ultimately show ?case
    by (subst refresh_loop.simps) (auto simp: r st(2,3) List.map_filter_simps split: option.splits)
qed

lemma refresh_loop_returns:
  assumes "refresh_loop jerr events n errs p = Some y"
  shows "\<exists>k. events k = Done"
proof (rule refresh_loop.raw_induct [where P = "\<lambda>jerr events n errs p y. \<exists>k. events k = Done", OF _ assms])
  fix loop jerr events n errs p y
  assume IH: "\<And>jerr events n errs p y. loop jerr events n errs p = Some y \<Longrightarrow> \<exists>k. events k = Done"
    and "(case events n of Done \<Rightarrow> Some (errs, p) | Tick get \<Rightarrow>
      (case PriceTable_Refresh jerr get p of (None, p') \<Rightarrow> loop jerr events (Suc n) errs p'
       | (Some e, p') \<Rightarrow> loop jerr events (Suc n) (errs @ [e]) p')) = Some y"
  then show "\<exists>k. events k = Done" by (auto split: refresh_event.splits prod.splits option.splits dest: IH)
qed

text \<open>C32: the goroutine that refreshes the prices. It returns at once where there is no URL or no interval. Otherwise it returns
  precisely if the context ends at some point: it has then refreshed once for every tick before that, has reported precisely the
  refreshes that failed, in order, and leaves the table of the last refresh that succeeded. It does not return while the ticks go on.\<close>

theorem auto_refresh_ends:
  "(pt_url p = [] \<or> interval \<le> 0 \<longrightarrow> RunAutoRefresh jerr interval events p = Some ([], p)) \<and>
   (pt_url p \<noteq> [] \<and> 0 < interval \<longrightarrow>
      (\<forall>gets. events (length gets) = Done \<and> (\<forall>i < length gets. events i = Tick (gets ! i)) \<longrightarrow>
         RunAutoRefresh jerr interval events p =
           Some (List.map_filter (refresh_fails jerr p) gets, last_refreshed jerr p gets)) \<and>
      ((\<exists>y. RunAutoRefresh jerr interval events p = Some y) \<longleftrightarrow> (\<exists>n. events n = Done)))"
proof (intro conjI impI allI)
  show "RunAutoRefresh jerr interval events p = Some ([], p)" if "pt_url p = [] \<or> interval \<le> 0"
    using that by (simp add: RunAutoRefresh_def)
  assume go: "pt_url p \<noteq> [] \<and> 0 < interval"
  then have loop: "RunAutoRefresh jerr interval events p = refresh_loop jerr events 0 [] p" by (simp add: RunAutoRefresh_def)
  show ended: "RunAutoRefresh jerr interval events p =
      Some (List.map_filter (refresh_fails jerr p) gets, last_refreshed jerr p gets)"
    if "events (length gets) = Done \<and> (\<forall>i < length gets. events i = Tick (gets ! i))" for gets
    using refresh_loop_done [of events 0 gets p jerr "[]"] that go by (simp add: loop)
  show "(\<exists>y. RunAutoRefresh jerr interval events p = Some y) \<longleftrightarrow> (\<exists>n. events n = Done)"
  proof
    assume ex: "\<exists>n. events n = Done"
    define n where "n = (LEAST n. events n = Done)"
    define gets where "gets = map (\<lambda>i. case events i of Tick get \<Rightarrow> get | Done \<Rightarrow> undefined) [0..<n]"
    have "events n = Done" using ex unfolding n_def by (rule LeastI_ex)
    moreover have "events i = Tick (gets ! i)" if "i < n" for i
      using not_less_Least [of i "\<lambda>n. events n = Done"] that by (cases "events i") (auto simp: gets_def n_def)
    ultimately show "\<exists>y. RunAutoRefresh jerr interval events p = Some y" using ended [of gets] by (auto simp: gets_def)
  qed (use refresh_loop_returns loop in \<open>auto\<close>)
qed

text \<open>A goroutine whose first refresh fails and whose second installs a price.\<close>

definition feed_body :: string where
  "feed_body = ''{'' @ [CHR 0x22] @ ''models'' @ [CHR 0x22] @ '':{'' @ [CHR 0x22] @ ''x'' @ [CHR 0x22] @ '':{}}}''"

definition two_ticks :: "nat \<Rightarrow> refresh_event" where
  "two_ticks n =
     (if n = 0 then Tick (\<lambda>_. Inl ''timeout'')
      else if n = 1 then Tick (\<lambda>_. Inr \<lparr>fr_StatusCode = 200, fr_Body = feed_body\<rparr>) else Done)"

theorem auto_refresh_ends_witness:
  "RunAutoRefresh (\<lambda>_. []) 1 two_ticks \<lparr>pt_url = ''http://h/'', pt_prices = []\<rparr> =
     Some ([''fetch pricing table: timeout''], \<lparr>pt_url = ''http://h/'', pt_prices = (''x'', zero_price) # defaultPrices\<rparr>)"
proof -
  let ?p = "\<lparr>pt_url = ''http://h/'', pt_prices = []\<rparr>"
  let ?bad = "\<lambda>_ :: string. Inl ''timeout'' :: feed_response result"
  let ?good = "\<lambda>_ :: string. Inr \<lparr>fr_StatusCode = 200, fr_Body = feed_body\<rparr> :: feed_response result"
  have r: "PriceTable_Refresh (\<lambda>_. []) ?bad ?p = (Some ''fetch pricing table: timeout'', ?p)"
    "PriceTable_Refresh (\<lambda>_. []) ?good ?p = (None, \<lparr>pt_url = ''http://h/'', pt_prices = (''x'', zero_price) # defaultPrices\<rparr>)"
    by code_simp+
  have "\<forall>i < length [?bad, ?good]. two_ticks i = Tick ([?bad, ?good] ! i)" by (auto simp: two_ticks_def less_Suc_eq)
  moreover have "two_ticks (length [?bad, ?good]) = Done" by (simp add: two_ticks_def)
  moreover have "pt_url ?p \<noteq> [] \<and> 0 < (1 :: duration)" by simp
  ultimately have "RunAutoRefresh (\<lambda>_. []) 1 two_ticks ?p =
      Some (List.map_filter (refresh_fails (\<lambda>_. []) ?p) [?bad, ?good], last_refreshed (\<lambda>_. []) ?p [?bad, ?good])"
    using auto_refresh_ends [of ?p 1 "\<lambda>_. []" two_ticks] by blast
  then show ?thesis by (simp add: r refresh_fails_def last_refreshed_def List.map_filter_simps)
qed

end
