(* ===== verification/Sql.thy ===== *)
theory Sql
  imports Json GoTime
begin

text \<open>
  The interface of package \<open>database/sql\<close> to a database engine, which is not part of the repository. An
  engine works on a database of type \<open>'d\<close>; a statement is its text and its arguments. \<open>se_exec\<close> and the
  transaction operations return the text of an error or \<open>None\<close>; \<open>se_query\<close> returns the rows and the error, if
  any, that ends their iteration early; \<open>se_close\<close> releases the handle; \<open>se_scan_err\<close> is the text with which \<open>Scan\<close> refuses a row.

  The locales state the documented behaviour that the stores rely on, one per use of the engine.
\<close>

section \<open>Values and engines\<close>

datatype sqlval = SNull | SInt int | SReal f64 | SText string

type_synonym row = "sqlval list"

record 'd engine =
  se_open :: "string \<Rightarrow> string option"
  se_exec :: "string \<Rightarrow> sqlval list \<Rightarrow> 'd \<Rightarrow> string option \<times> 'd"
  se_query :: "string \<Rightarrow> sqlval list \<Rightarrow> 'd \<Rightarrow> (row list \<times> string option) result"
  se_begin :: "'d \<Rightarrow> string option \<times> 'd"
  se_commit :: "'d \<Rightarrow> string option \<times> 'd"
  se_rollback :: "'d \<Rightarrow> 'd"
  se_close :: "'d \<Rightarrow> 'd"
  se_scan_err :: "row \<Rightarrow> string"

text \<open>
  \<open>Rows.Scan\<close> into an \<open>int\<close>, a \<open>string\<close> and a \<open>float64\<close>. The columns the program scans have the storage
  classes of the destinations (an integer is also accepted where a real is expected); other values are errors.
\<close>

fun scan_int :: "sqlval \<Rightarrow> int option" where
  "scan_int (SInt i) = Some i"
| "scan_int _ = None"

fun scan_string :: "sqlval \<Rightarrow> string option" where
  "scan_string (SText s) = Some s"
| "scan_string _ = None"

fun scan_float :: "sqlval \<Rightarrow> f64 option" where
  "scan_float (SReal x) = Some x"
| "scan_float (SInt i) = Some (f64_of_int i)"
| "scan_float _ = None"

section \<open>Transactions\<close>

text \<open>
  What the engine promises of transactions: beginning one remembers the content of the database, statements
  change the content only, rolling back restores what was remembered, and committing keeps the content.
\<close>

locale transactional =
  fixes eng :: "'d engine" and content :: "'d \<Rightarrow> 'c" and saved :: "'d \<Rightarrow> 'c"
  assumes begin_ok: "se_begin eng db = (None, db') \<Longrightarrow> content db' = content db \<and> saved db' = content db"
    and begin_err: "se_begin eng db = (Some e, db') \<Longrightarrow> content db' = content db"
    and exec_saved: "saved (snd (se_exec eng q args db)) = saved db"
    and rollback: "content (se_rollback eng db) = saved db"
    and commit_ok: "se_commit eng db = (None, db') \<Longrightarrow> content db' = content db"

end
