(* ===== verification/Ledger.thy ===== *)
theory Ledger
  imports Store Isolation
begin

text \<open>
  \<open>internal/cost/sqlite_ledger.go\<close>: the spend ledger in a SQLite database, with its migration. The database
  engine is the parameter \<open>eng\<close>; what it must do with the two statements of the ledger is stated by the locale
  \<open>spend_table\<close>, and what the tracker relies on by the locale \<open>spend_ledger\<close>, which the ledger fulfils over
  any such engine.
\<close>

section \<open>Statements\<close>

definition q_upsert_spend :: string where
  "q_upsert_spend = nl @
     ''INSERT INTO cost_spend (tenant_id, day, spent_usd, updated_at)'' @ nl @
     ''VALUES (?, ?, ?, ?)'' @ nl @
     ''ON CONFLICT(tenant_id, day) DO UPDATE SET'' @ nl @
     ''  spent_usd = spent_usd + excluded.spent_usd,'' @ nl @
     ''  updated_at = excluded.updated_at''"

definition q_select_spend :: string where
  "q_select_spend = ''SELECT spent_usd FROM cost_spend WHERE tenant_id = ? AND day = ?''"

definition q_create_spend :: string where
  "q_create_spend = nl @
     ''CREATE TABLE IF NOT EXISTS cost_spend ('' @ nl @
     ''  tenant_id TEXT NOT NULL,'' @ nl @
     ''  day TEXT NOT NULL,'' @ nl @
     ''  spent_usd REAL NOT NULL,'' @ nl @
     ''  updated_at TEXT NOT NULL,'' @ nl @
     ''  PRIMARY KEY (tenant_id, day)'' @ nl @
     '');''"

definition q_spend_columns :: string where
  "q_spend_columns = ''PRAGMA table_info(cost_spend)''"

definition q_legacy_spend :: string where
  "q_legacy_spend = nl @
     ''CREATE TABLE IF NOT EXISTS cost_spend_new ('' @ nl @
     ''  tenant_id TEXT NOT NULL,'' @ nl @
     ''  day TEXT NOT NULL,'' @ nl @
     ''  spent_usd REAL NOT NULL,'' @ nl @
     ''  updated_at TEXT NOT NULL,'' @ nl @
     ''  PRIMARY KEY (tenant_id, day)'' @ nl @
     '');'' @ nl @
     ''INSERT INTO cost_spend_new (tenant_id, day, spent_usd, updated_at)'' @ nl @
     ''SELECT ?, day, spent_usd, updated_at FROM cost_spend;'' @ nl @
     ''DROP TABLE cost_spend;'' @ nl @
     ''ALTER TABLE cost_spend_new RENAME TO cost_spend;''"

section \<open>Operations\<close>

definition AddSpend :: "'d engine \<Rightarrow> time \<Rightarrow> string \<Rightarrow> string \<Rightarrow> f64 \<Rightarrow> 'd \<Rightarrow> string option \<times> 'd" where
  "AddSpend eng now tenantID day amount db =
     (case se_exec eng q_upsert_spend
             [SText (tenantOrDefault tenantID), SText day, SReal amount, SText (Format_RFC3339Nano now)] db of
        (Some e, db') \<Rightarrow> (Some (''upsert cost spend: '' @ e), db')
      | (None, db') \<Rightarrow> (None, db'))"

text \<open>
  \<open>QueryRow(...).Scan\<close> fails with the query's error, with the error that ended the iteration, with \<open>ErrNoRows\<close>
  when there is no row, or with the error of \<open>Scan\<close>; further rows are dropped.
\<close>

definition Spend :: "'d engine \<Rightarrow> string \<Rightarrow> string \<Rightarrow> 'd \<Rightarrow> f64 result" where
  "Spend eng tenantID day db =
     (case se_query eng q_select_spend [SText (tenantOrDefault tenantID), SText day] db of
        Inl e \<Rightarrow> Inl (''select cost spend: '' @ e)
      | Inr ([], Some e) \<Rightarrow> Inl (''select cost spend: '' @ e)
      | Inr ([], None) \<Rightarrow> Inr (Fin 0)
      | Inr (row # _, _) \<Rightarrow>
          (case row of
             [v] \<Rightarrow>
               (case scan_float v of
                  Some spent \<Rightarrow> Inr spent
                | None \<Rightarrow> Inl (''select cost spend: '' @ se_scan_err eng row))
           | _ \<Rightarrow> Inl (''select cost spend: '' @ se_scan_err eng row)))"

text \<open>
  A row of \<open>PRAGMA table_info\<close>: \<open>cid\<close>, \<open>name\<close>, \<open>type\<close>, \<open>notnull\<close>, \<open>dflt_value\<close> (which may be null) and \<open>pk\<close>;
  the name of a row that scans.
\<close>

definition column_name :: "row \<Rightarrow> string option" where
  "column_name row =
     (case row of
        [cid, name, columnType, notNull, defaultValue, primaryKey] \<Rightarrow>
          (case (scan_int cid, scan_string name, scan_string columnType, scan_int notNull, scan_int primaryKey) of
             (Some _, Some n, Some _, Some _, Some _) \<Rightarrow>
               (case defaultValue of SNull \<Rightarrow> Some n | SText _ \<Rightarrow> Some n | _ \<Rightarrow> None)
           | _ \<Rightarrow> None)
      | _ \<Rightarrow> None)"

text \<open>\<open>strings.EqualFold\<close> with an ASCII name.\<close>

definition EqualFold :: "string \<Rightarrow> string \<Rightarrow> bool" where
  "EqualFold s t \<longleftrightarrow> fold_name s = fold_name t"

text \<open>The loop over the columns: \<open>Inr\<close> says whether the column is there, \<open>Inl\<close> is a row that does not scan.\<close>

fun find_tenant_column :: "row list \<Rightarrow> row + bool" where
  "find_tenant_column [] = Inr False"
| "find_tenant_column (row # rows) =
     (case column_name row of
        None \<Rightarrow> Inl row
      | Some name \<Rightarrow> if EqualFold name ''tenant_id'' then Inr True else find_tenant_column rows)"

definition costSpendHasTenantID :: "'d engine \<Rightarrow> 'd \<Rightarrow> bool result \<times> 'd" where
  "costSpendHasTenantID eng db =
     (case se_exec eng q_create_spend [] db of
        (Some e, db') \<Rightarrow> (Inl (''create cost spend table: '' @ e), db')
      | (None, db') \<Rightarrow>
          (case se_query eng q_spend_columns [] db' of
             Inl e \<Rightarrow> (Inl (''inspect cost spend table: '' @ e), db')
           | Inr (rows, iter) \<Rightarrow>
               (case find_tenant_column rows of
                  Inl bad \<Rightarrow> (Inl (''scan cost spend column: '' @ se_scan_err eng bad), db')
                | Inr True \<Rightarrow> (Inr True, db')
                | Inr False \<Rightarrow>
                    (case iter of
                       Some e \<Rightarrow> (Inl (''iterate cost spend columns: '' @ e), db')
                     | None \<Rightarrow> (Inr False, db')))))"

definition migrateTenantCostSpend :: "'d engine \<Rightarrow> 'd \<Rightarrow> string option \<times> 'd" where
  "migrateTenantCostSpend eng db =
     (case costSpendHasTenantID eng db of
        (Inl e, db') \<Rightarrow> (Some e, db')
      | (Inr True, db') \<Rightarrow> (None, db')
      | (Inr False, db') \<Rightarrow>
          (case se_exec eng q_legacy_spend [SText DefaultTenantID] db' of
             (Some e, db'') \<Rightarrow> (Some (''migrate legacy cost spend: '' @ e), db'')
           | (None, db'') \<Rightarrow> (None, db'')))"

definition cost_migrator :: "'d engine \<Rightarrow> 'd Migrator" where
  "cost_migrator eng =
     \<lparr>mr_Namespace = ''cost'',
      mr_Migrations = [\<lparr>mg_Version = 1, mg_Name = ''tenant cost spend'', mg_SQL = [],
        mg_Apply = Some (migrateTenantCostSpend eng)\<rparr>]\<rparr>"

definition SQLiteLedger_migrate :: "'d engine \<Rightarrow> (int \<Rightarrow> time) \<Rightarrow> 'd \<Rightarrow> string option \<times> 'd" where
  "SQLiteLedger_migrate eng clock db = Migrator_Run eng clock (cost_migrator eng) db"

text \<open>The error of a failed opening, and the database in either case.\<close>

definition OpenSQLiteLedger :: "'d engine \<Rightarrow> (int \<Rightarrow> time) \<Rightarrow> string \<Rightarrow> 'd \<Rightarrow> string option \<times> 'd" where
  "OpenSQLiteLedger eng clock dsn db =
     (case se_open eng dsn of
        Some e \<Rightarrow> (Some (''open sqlite cost ledger: '' @ e), db)
      | None \<Rightarrow>
          (case SQLiteLedger_migrate eng clock db of
             (Some e, db') \<Rightarrow> (Some e, se_close eng db')
           | (None, db') \<Rightarrow> (None, db')))"

definition SQLiteLedger_Close :: "'d engine \<Rightarrow> 'd \<Rightarrow> 'd" where
  "SQLiteLedger_Close eng db = se_close eng db"

section \<open>What the tracker relies on\<close>

text \<open>
  A ledger keeps a total per tenant and day: an addition that succeeds adds to one total in binary64 (a first
  addition sets it), an addition that fails changes none, and a reading that succeeds returns the total, \<open>0\<close>
  where nothing was added.
\<close>

locale spend_ledger =
  fixes add :: "time \<Rightarrow> string \<Rightarrow> string \<Rightarrow> f64 \<Rightarrow> 'd \<Rightarrow> string option \<times> 'd"
    and spend :: "string \<Rightarrow> string \<Rightarrow> 'd \<Rightarrow> f64 result"
    and total :: "'d \<Rightarrow> string \<times> string \<Rightarrow> f64 option"
  assumes add_ok: "add now t d a db = (None, db') \<Longrightarrow>
      total db' = (total db)((tenantOrDefault t, d) \<mapsto>
        (case total db (tenantOrDefault t, d) of None \<Rightarrow> a | Some x \<Rightarrow> f64_add x a))"
    and add_err: "add now t d a db = (Some e, db') \<Longrightarrow> total db' = total db"
    and spend_ok: "spend t d db = Inr x \<Longrightarrow>
      x = (case total db (tenantOrDefault t, d) of None \<Rightarrow> Fin 0 | Some y \<Rightarrow> y)"

text \<open>The two statements of the ledger on an engine with a table \<open>cost_spend\<close> keyed by tenant and day.\<close>

locale spend_table =
  fixes eng :: "'d engine" and table :: "'d \<Rightarrow> string \<times> string \<Rightarrow> f64 option"
  assumes upsert_ok: "se_exec eng q_upsert_spend [SText t, SText d, SReal a, SText now] db = (None, db') \<Longrightarrow>
      table db' = (table db)((t, d) \<mapsto> (case table db (t, d) of None \<Rightarrow> a | Some x \<Rightarrow> f64_add x a))"
    and upsert_err: "se_exec eng q_upsert_spend [SText t, SText d, SReal a, SText now] db = (Some e, db') \<Longrightarrow>
      table db' = table db"
    and select: "se_query eng q_select_spend [SText t, SText d] db = Inr (rows, None) \<Longrightarrow>
      rows = (case table db (t, d) of None \<Rightarrow> [] | Some x \<Rightarrow> [[SReal x]])"
    and select_row: "se_query eng q_select_spend [SText t, SText d] db = Inr (r # rows, Some e) \<Longrightarrow>
      \<exists>x. r = [SReal x] \<and> table db (t, d) = Some x"

sublocale spend_table \<subseteq> ledger: spend_ledger "AddSpend eng" "Spend eng" table
proof
  fix now t d a db db' assume "AddSpend eng now t d a db = (None, db')"
  then show "table db' = (table db)((tenantOrDefault t, d) \<mapsto>
      (case table db (tenantOrDefault t, d) of None \<Rightarrow> a | Some x \<Rightarrow> f64_add x a))"
    by (auto simp: AddSpend_def split: prod.splits option.splits dest: upsert_ok)
next
  fix now t d a db e db' assume "AddSpend eng now t d a db = (Some e, db')"
  then show "table db' = table db"
    by (auto simp: AddSpend_def split: prod.splits option.splits dest: upsert_err)
next
  fix t d db x assume *: "Spend eng t d db = Inr x"
  show "x = (case table db (tenantOrDefault t, d) of None \<Rightarrow> Fin 0 | Some y \<Rightarrow> y)"
  proof (cases "se_query eng q_select_spend [SText (tenantOrDefault t), SText d] db")
    case (Inr q)
    obtain rows iter where q: "q = (rows, iter)" by (cases q)
    show ?thesis
    proof (cases iter)
      case None
      then show ?thesis using * Inr q select [of "tenantOrDefault t" d db rows]
        by (auto simp: Spend_def split: option.splits)
    next
      case (Some e)
      then obtain r rows' where "rows = r # rows'" using * Inr q by (cases rows) (auto simp: Spend_def)
      then show ?thesis using * Inr q Some select_row [of "tenantOrDefault t" d db r rows' e]
        by (auto simp: Spend_def split: list.splits option.splits sqlval.splits)
    qed
  qed (use * in \<open>simp add: Spend_def\<close>)
qed

end
