(* ===== verification/Cost.thy ===== *)
theory Cost
  imports Pricing Ledger
begin

text \<open>
  \<open>internal/cost/tracker.go\<close>: budgets per tenant and the spend of a day. A tracker without a ledger keeps the
  totals in its map; with a ledger the ledger's totals count and the map is a cache of the last reading. The
  methods run under the tracker's mutex; the clock's reading, and the reading that the ledger stores, are
  arguments. Prices are read through the pricer before the mutex is taken.
\<close>

section \<open>Types\<close>

record Usage =
  us_PromptTokens :: int
  us_CompletionTokens :: int
  us_CostUSD :: f64

record CostDecision =
  cd_Allowed :: bool
  cd_Reason :: string
  cd_TenantID :: string
  cd_Spent :: f64
  cd_Limit :: f64

record Snapshot =
  sn_TenantID :: string
  sn_Day :: string
  sn_SpentUSD :: f64
  sn_DailyBudgetUSD :: f64
  sn_RequestBudgetUSD :: f64

record Budget =
  bu_Daily :: f64
  bu_PerReq :: f64

record 'd Tracker =
  tr_defaults :: Budget
  tr_budgets :: "string \<rightharpoonup> Budget"
  tr_spendByDay :: "string \<rightharpoonup> f64"
  tr_ledger :: "'d option"
  tr_pricer :: Pricer

section \<open>Construction\<close>

definition tenantBudgets :: "CostConfig \<Rightarrow> TenantConfig list \<Rightarrow> (string \<rightharpoonup> Budget)" where
  "tenantBudgets cfg tenants =
     (let defaults = \<lparr>bu_Daily = cc_DailyBudgetUSD cfg, bu_PerReq = cc_PerRequestBudgetUSD cfg\<rparr>
      in foldl (\<lambda>budgets tenant. budgets(tc_ID tenant \<mapsto>
           (let budget = (if f64_gt (tc_DailyBudgetUSD tenant) (Fin 0)
                          then defaults\<lparr>bu_Daily := tc_DailyBudgetUSD tenant\<rparr> else defaults)
            in if f64_gt (tc_PerRequestBudgetUSD tenant) (Fin 0)
               then budget\<lparr>bu_PerReq := tc_PerRequestBudgetUSD tenant\<rparr> else budget))) Map.empty tenants)"

definition NewTrackerWithOptions :: "CostConfig \<Rightarrow> TenantConfig list \<Rightarrow> 'd option \<Rightarrow> Pricer option \<Rightarrow> 'd Tracker" where
  "NewTrackerWithOptions cfg tenants ledger pricerOpt =
     \<lparr>tr_defaults = \<lparr>bu_Daily = cc_DailyBudgetUSD cfg, bu_PerReq = cc_PerRequestBudgetUSD cfg\<rparr>,
      tr_budgets = tenantBudgets cfg tenants,
      tr_spendByDay = Map.empty,
      tr_ledger = ledger,
      tr_pricer = (case pricerOpt of None \<Rightarrow> StaticPricer | Some p \<Rightarrow> p)\<rparr>"

definition NewTrackerWithLedger :: "CostConfig \<Rightarrow> 'd option \<Rightarrow> 'd Tracker" where
  "NewTrackerWithLedger cfg ledger = NewTrackerWithOptions cfg [] ledger None"

definition NewTracker :: "CostConfig \<Rightarrow> 'd Tracker" where
  "NewTracker cfg = NewTrackerWithLedger cfg None"

section \<open>Operations\<close>

definition spendKey :: "string \<Rightarrow> string \<Rightarrow> string" where
  "spendKey tenantID day = tenantOrDefault tenantID @ [CHR 0x00] @ day"

definition budgetForTenant :: "'d Tracker \<Rightarrow> string \<Rightarrow> Budget" where
  "budgetForTenant tr tenantID =
     (case tr_budgets tr (tenantOrDefault tenantID) of Some budget \<Rightarrow> budget | None \<Rightarrow> tr_defaults tr)"

definition map_get :: "(string \<rightharpoonup> f64) \<Rightarrow> string \<Rightarrow> f64" where
  "map_get m k = (case m k of Some x \<Rightarrow> x | None \<Rightarrow> Fin 0)"

definition spentForDay :: "'d engine \<Rightarrow> string \<Rightarrow> string \<Rightarrow> 'd Tracker \<Rightarrow> f64 result \<times> 'd Tracker" where
  "spentForDay eng tenantID day tr =
     (let key = spendKey tenantID day in
      case tr_ledger tr of
        None \<Rightarrow> (Inr (map_get (tr_spendByDay tr) key), tr)
      | Some db \<Rightarrow>
          (case Spend eng tenantID day db of
             Inl e \<Rightarrow> (Inl (''read spend: '' @ e), tr)
           | Inr spent \<Rightarrow> (Inr spent, tr\<lparr>tr_spendByDay := (tr_spendByDay tr)(key \<mapsto> spent)\<rparr>)))"

definition AllowTenant :: "'d engine \<Rightarrow> string \<Rightarrow> string \<Rightarrow> int \<Rightarrow> int \<Rightarrow> time \<Rightarrow> 'd Tracker \<Rightarrow> CostDecision result \<times> 'd Tracker" where
  "AllowTenant eng tenant model promptTokens maxCompletionTokens now tr =
     (let tenantID = tenantOrDefault tenant;
          estimated = Pricer_Price (tr_pricer tr) model promptTokens maxCompletionTokens;
          budget = budgetForTenant tr tenantID;
          day = Format_day now
      in case spentForDay eng tenantID day tr of
           (Inl e, tr') \<Rightarrow> (Inl e, tr')
         | (Inr spent, tr') \<Rightarrow>
             if f64_gt (bu_PerReq budget) (Fin 0) \<and> f64_gt estimated (bu_PerReq budget)
             then (Inr \<lparr>cd_Allowed = False, cd_Reason = ''per_request_budget_exceeded'', cd_TenantID = tenantID,
                     cd_Spent = estimated, cd_Limit = bu_PerReq budget\<rparr>, tr')
             else if f64_gt (bu_Daily budget) (Fin 0) \<and> f64_gt (f64_add spent estimated) (bu_Daily budget)
             then (Inr \<lparr>cd_Allowed = False, cd_Reason = ''daily_budget_exceeded'', cd_TenantID = tenantID,
                     cd_Spent = spent, cd_Limit = bu_Daily budget\<rparr>, tr')
             else (Inr \<lparr>cd_Allowed = True, cd_Reason = [], cd_TenantID = tenantID, cd_Spent = spent,
                     cd_Limit = bu_Daily budget\<rparr>, tr'))"

definition Allow :: "'d engine \<Rightarrow> string \<Rightarrow> int \<Rightarrow> int \<Rightarrow> time \<Rightarrow> 'd Tracker \<Rightarrow> CostDecision result \<times> 'd Tracker" where
  "Allow eng model promptTokens maxCompletionTokens now tr =
     AllowTenant eng DefaultTenantID model promptTokens maxCompletionTokens now tr"

definition RecordTenant :: "'d engine \<Rightarrow> string \<Rightarrow> string \<Rightarrow> int \<Rightarrow> int \<Rightarrow> time \<Rightarrow> time \<Rightarrow> 'd Tracker \<Rightarrow> Usage result \<times> 'd Tracker" where
  "RecordTenant eng tenant model promptTokens completionTokens now wall tr =
     (let tenantID = tenantOrDefault tenant;
          usage = \<lparr>us_PromptTokens = promptTokens, us_CompletionTokens = completionTokens,
                   us_CostUSD = Pricer_Price (tr_pricer tr) model promptTokens completionTokens\<rparr>;
          day = Format_day now;
          key = spendKey tenantID day
      in case tr_ledger tr of
           Some db \<Rightarrow>
             (case AddSpend eng wall tenantID day (us_CostUSD usage) db of
                (Some e, db') \<Rightarrow> (Inl (''record spend: '' @ e), tr\<lparr>tr_ledger := Some db'\<rparr>)
              | (None, db') \<Rightarrow>
                  (case Spend eng tenantID day db' of
                     Inl e \<Rightarrow> (Inl (''read recorded spend: '' @ e), tr\<lparr>tr_ledger := Some db'\<rparr>)
                   | Inr spent \<Rightarrow>
                       (Inr usage, tr\<lparr>tr_ledger := Some db', tr_spendByDay := (tr_spendByDay tr)(key \<mapsto> spent)\<rparr>)))
         | None \<Rightarrow>
             (Inr usage, tr\<lparr>tr_spendByDay := (tr_spendByDay tr)(key \<mapsto>
                f64_add (map_get (tr_spendByDay tr) key) (us_CostUSD usage))\<rparr>))"

definition Record :: "'d engine \<Rightarrow> string \<Rightarrow> int \<Rightarrow> int \<Rightarrow> time \<Rightarrow> time \<Rightarrow> 'd Tracker \<Rightarrow> Usage result \<times> 'd Tracker" where
  "Record eng model promptTokens completionTokens now wall tr =
     RecordTenant eng DefaultTenantID model promptTokens completionTokens now wall tr"

definition SnapshotTenant :: "'d engine \<Rightarrow> string \<Rightarrow> time \<Rightarrow> 'd Tracker \<Rightarrow> Snapshot result \<times> 'd Tracker" where
  "SnapshotTenant eng tenant now tr =
     (let tenantID = tenantOrDefault tenant;
          day = Format_day now
      in case spentForDay eng tenantID day tr of
           (Inl e, tr') \<Rightarrow> (Inl e, tr')
         | (Inr spent, tr') \<Rightarrow>
             (let budget = budgetForTenant tr' tenantID
              in (Inr \<lparr>sn_TenantID = tenantID, sn_Day = day, sn_SpentUSD = spent,
                    sn_DailyBudgetUSD = bu_Daily budget, sn_RequestBudgetUSD = bu_PerReq budget\<rparr>, tr')))"

definition Snapshot_default :: "'d engine \<Rightarrow> time \<Rightarrow> 'd Tracker \<Rightarrow> Snapshot result \<times> 'd Tracker" where
  "Snapshot_default eng now tr = SnapshotTenant eng DefaultTenantID now tr"

section \<open>Spend keys\<close>

lemma pad_no_nul: "CHR 0x00 \<notin> set (pad w n)"
proof -
  have "\<not> is_digit (CHR 0x00)" by (simp add: is_digit_def between_def byte_def)
  then show ?thesis using nat_to_dec_digits [of "nat \<bar>n\<bar>"] by (auto simp: pad_def Let_def list_all_iff)
qed

lemma Format_day_no_nul: "CHR 0x00 \<notin> set (Format_day t)"
  using pad_no_nul by (auto simp: Format_day_def format_date_def split: prod.splits)

lemma spendKey_inject:
  assumes "CHR 0x00 \<notin> set d" "CHR 0x00 \<notin> set d'"
  shows "spendKey t d = spendKey t' d' \<longleftrightarrow> tenantOrDefault t = tenantOrDefault t' \<and> d = d'"
  using last_split_unique [of "tenantOrDefault t" "CHR 0x00" d "tenantOrDefault t'" d'] assms
  by (auto simp: spendKey_def)

lemma spendKey_tod [simp]: "spendKey (tenantOrDefault t) d = spendKey t d"
  by (simp add: spendKey_def)

text \<open>C35: the key under which spend is kept tells tenants and days apart. Two keys of the tracker are equal only
  for the same tenant (the empty id being the default tenant) and the same day of the calendar, whatever the
  tenant ids contain.\<close>

theorem spend_key_exact:
  assumes "0 \<le> now" and "0 \<le> now'"
  shows "spendKey t (Format_day now) = spendKey t' (Format_day now') \<longleftrightarrow>
    tenantOrDefault t = tenantOrDefault t' \<and> day_number now = day_number now'"
  using assms by (simp add: spendKey_inject Format_day_no_nul Format_day_inject)

theorem spend_key_exact_witness:
  "0 \<le> (5 :: time) \<and> spendKey [] (Format_day 5) = spendKey ''default'' (Format_day 7)"
  using spend_key_exact [of 5 7 "[]" "''default''"]
  by (simp add: tenantOrDefault_def DefaultTenantID_def day_number_def seconds_per_day_def nanos_per_second_def)

section \<open>The totals of a tracker\<close>

text \<open>The total of a tenant and a day: of the ledger's table where there is a ledger, of the map otherwise.\<close>

definition tracker_total :: "('d \<Rightarrow> string \<times> string \<Rightarrow> f64 option) \<Rightarrow> 'd Tracker \<Rightarrow> string \<Rightarrow> string \<Rightarrow> f64" where
  "tracker_total table tr t d =
     (case tr_ledger tr of
        None \<Rightarrow> map_get (tr_spendByDay tr) (spendKey t d)
      | Some db \<Rightarrow> (case table db (tenantOrDefault t, d) of None \<Rightarrow> Fin 0 | Some x \<Rightarrow> x))"

text \<open>Everything but the totals.\<close>

definition same_settings :: "'d Tracker \<Rightarrow> 'e Tracker \<Rightarrow> bool" where
  "same_settings tr tr' \<longleftrightarrow> tr_defaults tr = tr_defaults tr' \<and> tr_budgets tr = tr_budgets tr' \<and> tr_pricer tr = tr_pricer tr'"

lemma same_settings_refl [simp]: "same_settings tr tr"
  by (simp add: same_settings_def)

lemma same_settings_budget: "same_settings tr tr' \<Longrightarrow> budgetForTenant tr t = budgetForTenant tr' t"
  by (simp add: same_settings_def budgetForTenant_def split: option.split)

lemma f64_add_zero: "f64_ok a \<Longrightarrow> f64_add (Fin 0) a = a"
  by (cases a) (auto simp: fl_ok)

lemma token_cost_ok: "f64_ok (token_cost p pt ct)"
  unfolding token_cost_def by (cases "f64_add (f64_mul (f64_of_int pt) (mp_inputPerMTok p)) (f64_mul (f64_of_int ct) (mp_outputPerMTok p))")
    (auto simp: f64_inf_def)

lemma Pricer_Price_ok: "f64_ok (Pricer_Price pr m pt ct)"
  by (cases pr) (simp_all add: StaticPricer_Price_def PriceTable_Price_def Let_def token_cost_ok)

context spend_table
begin

lemma spentForDay_total:
  assumes "spentForDay eng t d tr = (res, tr')"
  shows "(\<forall>x. res = Inr x \<longrightarrow> x = tracker_total table tr t d)"
    and "same_settings tr tr'" and "tracker_total table tr' = tracker_total table tr" and "tr_ledger tr' = tr_ledger tr"
  using assms
  by (auto simp: spentForDay_def tracker_total_def same_settings_def fun_eq_iff Let_def
      split: option.splits sum.splits dest!: ledger.spend_ok)

lemma AllowTenant_frame:
  assumes "AllowTenant eng t m pt mt now tr = (res, tr')"
  shows "same_settings tr tr'" and "tracker_total table tr' = tracker_total table tr" and "tr_ledger tr' = tr_ledger tr"
proof -
  obtain r tr1 where s: "spentForDay eng (tenantOrDefault t) (Format_day now) tr = (r, tr1)" by fastforce
  have "tr' = tr1" using assms s by (auto simp: AllowTenant_def Let_def split: sum.splits if_splits)
  then show "same_settings tr tr'" "tracker_total table tr' = tracker_total table tr" "tr_ledger tr' = tr_ledger tr"
    using spentForDay_total [OF s] by auto
qed

lemma RecordTenant_total:
  assumes "RecordTenant eng t m pt ct now wall tr = (res, tr')"
  defines "cost \<equiv> Pricer_Price (tr_pricer tr) m pt ct" and "d \<equiv> Format_day now"
  shows "same_settings tr tr'"
    and "CHR 0x00 \<notin> set d' \<Longrightarrow> (tenantOrDefault t', d') \<noteq> (tenantOrDefault t, d) \<Longrightarrow>
      tracker_total table tr' t' d' = tracker_total table tr t' d'"
    and "tracker_total table tr' t d = f64_add (tracker_total table tr t d) cost \<or>
      (\<exists>e. res = Inl e) \<and> tracker_total table tr' t d = tracker_total table tr t d"
    and "\<forall>u. res = Inr u \<longrightarrow> us_CostUSD u = cost"
proof -
  have z: "f64_add (Fin 0) cost = cost" unfolding cost_def by (rule f64_add_zero) (rule Pricer_Price_ok)
  show "same_settings tr tr'" and "\<forall>u. res = Inr u \<longrightarrow> us_CostUSD u = cost"
    using assms(1) by (auto simp: RecordTenant_def Let_def same_settings_def cost_def split: option.splits prod.splits sum.splits)
  show "tracker_total table tr' t' d' = tracker_total table tr t' d'"
    if "CHR 0x00 \<notin> set d'" "(tenantOrDefault t', d') \<noteq> (tenantOrDefault t, d)"
  proof -
    have "spendKey t' d' \<noteq> spendKey t d" using that spendKey_inject Format_day_no_nul by (auto simp: d_def)
    then show ?thesis using assms(1) that
      by (auto simp: RecordTenant_def Let_def tracker_total_def map_get_def d_def [symmetric]
          split: option.splits prod.splits sum.splits dest!: ledger.add_ok ledger.add_err)
  qed
  show "tracker_total table tr' t d = f64_add (tracker_total table tr t d) cost \<or>
      (\<exists>e. res = Inl e) \<and> tracker_total table tr' t d = tracker_total table tr t d"
    using assms(1) z
    by (auto simp: RecordTenant_def Let_def tracker_total_def map_get_def d_def [symmetric] cost_def [symmetric]
        split: option.splits prod.splits sum.splits dest!: ledger.add_ok ledger.add_err)
qed

end

end
