(* ===== verification/AuditStore.thy ===== *)
theory AuditStore
  imports Ledger
begin

text \<open>
  Package \<open>internal/audit\<close>: the audit store. Events are appended to the table \<open>audit_events\<close> and read back,
  newest first. What the engine must do with the two statements is the locale \<open>audit_table\<close>.

  The lemmas: the limit of a reading is between 1 and 500; an event that was recorded comes back with the same
  fields, under the default tenant where it had none; a reading returns the newest events.
\<close>

section \<open>Types (store.go)\<close>

record Event =
  ev_ID :: int
  ev_Timestamp :: time
  ev_RequestID :: string
  ev_TenantID :: string
  ev_Route :: string
  ev_Provider :: string
  ev_Model :: string
  ev_Status :: int
  ev_PromptTokens :: int
  ev_CompletionTokens :: int
  ev_CostUSD :: f64
  ev_SecurityAction :: string
  ev_LatencyMillis :: int

section \<open>Statements\<close>

definition q_insert_event :: string where
  "q_insert_event = nl @
     ''INSERT INTO audit_events ('' @ nl @
     ''  timestamp, request_id, tenant_id, route, provider, model, status,'' @ nl @
     ''  prompt_tokens, completion_tokens, cost_usd, security_action, latency_ms'' @ nl @
     '') VALUES (?, ?, ?, ?, ?, ?, ?, ?, ?, ?, ?, ?)''"

definition q_recent_events :: string where
  "q_recent_events = nl @
     ''SELECT id, timestamp, request_id, tenant_id, route, provider, model, status,'' @ nl @
     ''  prompt_tokens, completion_tokens, cost_usd, security_action, latency_ms'' @ nl @
     ''FROM audit_events'' @ nl @
     ''ORDER BY id DESC'' @ nl @
     ''LIMIT ?''"

definition q_create_events :: string where
  "q_create_events = nl @
     ''CREATE TABLE IF NOT EXISTS audit_events ('' @ nl @
     ''  id INTEGER PRIMARY KEY AUTOINCREMENT,'' @ nl @
     ''  timestamp TEXT NOT NULL,'' @ nl @
     ''  request_id TEXT NOT NULL,'' @ nl @
     ''  tenant_id TEXT NOT NULL DEFAULT '' @ [CHR 0x27] @ ''default'' @ [CHR 0x27] @ '','' @ nl @
     ''  route TEXT NOT NULL,'' @ nl @
     ''  provider TEXT NOT NULL,'' @ nl @
     ''  model TEXT NOT NULL,'' @ nl @
     ''  status INTEGER NOT NULL,'' @ nl @
     ''  prompt_tokens INTEGER NOT NULL,'' @ nl @
     ''  completion_tokens INTEGER NOT NULL,'' @ nl @
     ''  cost_usd REAL NOT NULL,'' @ nl @
     ''  security_action TEXT NOT NULL,'' @ nl @
     ''  latency_ms INTEGER NOT NULL'' @ nl @
     '');'' @ nl @
     ''CREATE INDEX IF NOT EXISTS idx_audit_events_timestamp ON audit_events(timestamp);'' @ nl @
     ''CREATE INDEX IF NOT EXISTS idx_audit_events_request_id ON audit_events(request_id);''"

definition q_event_columns :: string where
  "q_event_columns = ''PRAGMA table_info(audit_events)''"

definition q_add_tenant_column :: string where
  "q_add_tenant_column =
     ''ALTER TABLE audit_events ADD COLUMN tenant_id TEXT NOT NULL DEFAULT '' @ [CHR 0x27] @ ''default'' @ [CHR 0x27]"

definition q_tenant_index :: string where
  "q_tenant_index = ''CREATE INDEX IF NOT EXISTS idx_audit_events_tenant_id ON audit_events(tenant_id)''"

section \<open>Migrations\<close>

definition auditEventsHasTenantID :: "'d engine \<Rightarrow> 'd \<Rightarrow> bool result" where
  "auditEventsHasTenantID eng db =
     (case se_query eng q_event_columns [] db of
        Inl e \<Rightarrow> Inl (''inspect audit events table: '' @ e)
      | Inr (rows, iter) \<Rightarrow>
          (case find_tenant_column rows of
             Inl bad \<Rightarrow> Inl (''scan audit column: '' @ se_scan_err eng bad)
           | Inr True \<Rightarrow> Inr True
           | Inr False \<Rightarrow>
               (case iter of
                  Some e \<Rightarrow> Inl (''iterate audit columns: '' @ e)
                | None \<Rightarrow> Inr False)))"

definition ensureAuditTenantID :: "'d engine \<Rightarrow> 'd \<Rightarrow> string option \<times> 'd" where
  "ensureAuditTenantID eng db =
     (case auditEventsHasTenantID eng db of
        Inl e \<Rightarrow> (Some e, db)
      | Inr hasTenantID \<Rightarrow>
          (case (if hasTenantID then (None, db) else se_exec eng q_add_tenant_column [] db) of
             (Some e, db1) \<Rightarrow> (Some (''add audit tenant column: '' @ e), db1)
           | (None, db1) \<Rightarrow>
               (case se_exec eng q_tenant_index [] db1 of
                  (Some e, db2) \<Rightarrow> (Some (''create audit tenant index: '' @ e), db2)
                | (None, db2) \<Rightarrow> (None, db2))))"

definition audit_migrator :: "'d engine \<Rightarrow> 'd Migrator" where
  "audit_migrator eng =
     \<lparr>mr_Namespace = ''audit'',
      mr_Migrations =
        [\<lparr>mg_Version = 1, mg_Name = ''create audit events'', mg_SQL = q_create_events, mg_Apply = None\<rparr>,
         \<lparr>mg_Version = 2, mg_Name = ''audit tenant id'', mg_SQL = [], mg_Apply = Some (ensureAuditTenantID eng)\<rparr>]\<rparr>"

definition Store_migrate :: "'d engine \<Rightarrow> (int \<Rightarrow> time) \<Rightarrow> 'd \<Rightarrow> string option \<times> 'd" where
  "Store_migrate eng clock db = Migrator_Run eng clock (audit_migrator eng) db"

definition Audit_Open :: "'d engine \<Rightarrow> (int \<Rightarrow> time) \<Rightarrow> string \<Rightarrow> 'd \<Rightarrow> string option \<times> 'd" where
  "Audit_Open eng clock dsn db =
     (case se_open eng dsn of
        Some e \<Rightarrow> (Some (''open sqlite: '' @ e), db)
      | None \<Rightarrow>
          (case Store_migrate eng clock db of
             (Some e, db') \<Rightarrow> (Some e, se_close eng db')
           | (None, db') \<Rightarrow> (None, db')))"

definition Store_Close :: "'d engine \<Rightarrow> 'd \<Rightarrow> 'd" where
  "Store_Close eng db = se_close eng db"

section \<open>Recording and reading\<close>

definition event_args :: "Event \<Rightarrow> sqlval list" where
  "event_args event =
     [SText (Format_RFC3339Nano (ev_Timestamp event)), SText (ev_RequestID event),
      SText (tenantOrDefault (ev_TenantID event)), SText (ev_Route event), SText (ev_Provider event),
      SText (ev_Model event), SInt (ev_Status event), SInt (ev_PromptTokens event),
      SInt (ev_CompletionTokens event), SReal (ev_CostUSD event), SText (ev_SecurityAction event),
      SInt (ev_LatencyMillis event)]"

definition Audit_Record :: "'d engine \<Rightarrow> Event \<Rightarrow> 'd \<Rightarrow> string option \<times> 'd" where
  "Audit_Record eng event db =
     (case se_exec eng q_insert_event (event_args event) db of
        (Some e, db') \<Rightarrow> (Some (''insert audit event: '' @ e), db')
      | (None, db') \<Rightarrow> (None, db'))"

text \<open>\<open>rows.Scan\<close> of one row: the event without its instant, and the text of the instant.\<close>

definition scan_event :: "row \<Rightarrow> (Event \<times> string) option" where
  "scan_event row =
     (case row of
        [c0, c1, c2, c3, c4, c5, c6, c7, c8, c9, c10, c11, c12] \<Rightarrow>
          (case (scan_int c0, scan_string c1, scan_string c2, scan_string c3, scan_string c4, scan_string c5,
                 scan_string c6, scan_int c7, scan_int c8, scan_int c9, scan_float c10, scan_string c11, scan_int c12) of
             (Some i, Some ts, Some rid, Some tid, Some route, Some prov, Some model, Some status, Some pt, Some ct,
              Some usd, Some act, Some lat) \<Rightarrow>
               Some (\<lparr>ev_ID = i, ev_Timestamp = 0, ev_RequestID = rid, ev_TenantID = tid, ev_Route = route,
                      ev_Provider = prov, ev_Model = model, ev_Status = status, ev_PromptTokens = pt,
                      ev_CompletionTokens = ct, ev_CostUSD = usd, ev_SecurityAction = act, ev_LatencyMillis = lat\<rparr>, ts)
           | _ \<Rightarrow> None)
      | _ \<Rightarrow> None)"

text \<open>The loop over the rows. The wording of the errors of \<open>time.Parse\<close> is the parameter \<open>terr\<close>.\<close>

fun read_events :: "'d engine \<Rightarrow> (string \<Rightarrow> string) \<Rightarrow> row list \<Rightarrow> Event list \<Rightarrow> Event list result" where
  "read_events eng terr [] events = Inr events"
| "read_events eng terr (row # rows) events =
     (case scan_event row of
        None \<Rightarrow> Inl (''scan audit event: '' @ se_scan_err eng row)
      | Some (event, timestamp) \<Rightarrow>
          (case Parse_RFC3339Nano timestamp of
             None \<Rightarrow> Inl (''parse audit timestamp: '' @ terr timestamp)
           | Some parsed \<Rightarrow> read_events eng terr rows (events @ [event\<lparr>ev_Timestamp := parsed\<rparr>])))"

definition clamp_limit :: "int \<Rightarrow> int" where
  "clamp_limit limit = (if limit \<le> 0 \<or> 500 < limit then 100 else limit)"

definition Recent :: "'d engine \<Rightarrow> (string \<Rightarrow> string) \<Rightarrow> int \<Rightarrow> 'd \<Rightarrow> Event list result" where
  "Recent eng terr limit db =
     (case se_query eng q_recent_events [SInt (clamp_limit limit)] db of
        Inl e \<Rightarrow> Inl (''select audit events: '' @ e)
      | Inr (rows, iter) \<Rightarrow>
          (case read_events eng terr rows [] of
             Inl e \<Rightarrow> Inl e
           | Inr events \<Rightarrow>
               (case iter of
                  Some e \<Rightarrow> Inl (''iterate audit events: '' @ e)
                | None \<Rightarrow> Inr events)))"

section \<open>What is read back\<close>

text \<open>
  The two statements on an engine with the table \<open>audit_events\<close>: an insertion that succeeds appends a row
  with a fresh, greater id; a selection that succeeds returns the newest rows.
\<close>

locale audit_table =
  fixes eng :: "'d engine" and rows_of :: "'d \<Rightarrow> row list"
  assumes insert_ok: "se_exec eng q_insert_event args db = (None, db') \<Longrightarrow>
      \<exists>i. rows_of db' = rows_of db @ [SInt i # args]"
    and insert_err: "se_exec eng q_insert_event args db = (Some e, db') \<Longrightarrow> rows_of db' = rows_of db"
    and recent_ok: "se_query eng q_recent_events [SInt n] db = Inr (rows, None) \<Longrightarrow>
      rows = take (nat n) (rev (rows_of db))"

text \<open>Instants of the years 1 to 9999, which the layout writes with four digits.\<close>

definition event_ok :: "Event \<Rightarrow> bool" where
  "event_ok e \<longleftrightarrow> 0 \<le> ev_Timestamp e \<and> ev_Timestamp e < 3652059 * (seconds_per_day * nanos_per_second)"

definition stored :: "int \<Rightarrow> Event \<Rightarrow> Event" where
  "stored i e = e\<lparr>ev_ID := i, ev_TenantID := tenantOrDefault (ev_TenantID e)\<rparr>"

lemma scan_event_args:
  "scan_event (SInt i # event_args e) = Some ((stored i e)\<lparr>ev_Timestamp := 0\<rparr>, Format_RFC3339Nano (ev_Timestamp e))"
  by (simp add: scan_event_def event_args_def stored_def)

lemma read_events_stored:
  "list_all event_ok es \<Longrightarrow> length is = length es \<Longrightarrow>
   read_events eng terr (map (\<lambda>(i, e). SInt i # event_args e) (zip is es)) acc = Inr (acc @ map2 stored is es)"
proof (induction "is" es arbitrary: acc rule: list_induct2')
  case (4 i "is" e es)
  then show ?case by (simp add: scan_event_args event_ok_def Parse_Format stored_def)
qed auto

text \<open>Record a list of events one after the other, stopping at an error.\<close>

fun record_all :: "'d engine \<Rightarrow> Event list \<Rightarrow> 'd \<Rightarrow> string option \<times> 'd" where
  "record_all eng [] db = (None, db)"
| "record_all eng (e # es) db =
     (case Audit_Record eng e db of
        (Some err, db') \<Rightarrow> (Some err, db')
      | (None, db') \<Rightarrow> record_all eng es db')"

context audit_table
begin

lemma record_all_rows:
  "record_all eng es db = (None, db') \<Longrightarrow>
   \<exists>is. length is = length es \<and> rows_of db' = rows_of db @ map (\<lambda>(i, e). SInt i # event_args e) (zip is es)"
proof (induction es arbitrary: db)
  case Nil
  then show ?case by simp
next
  case (Cons e es)
  then obtain db1 where r: "se_exec eng q_insert_event (event_args e) db = (None, db1)" "record_all eng es db1 = (None, db')"
    by (auto simp: Audit_Record_def split: prod.splits option.splits)
  obtain i where i: "rows_of db1 = rows_of db @ [SInt i # event_args e]" using insert_ok [OF r(1)] by blast
  obtain "is" where "length is = length es" "rows_of db' = rows_of db1 @ map (\<lambda>(i, e). SInt i # event_args e) (zip is es)"
    using Cons.IH [OF r(2)] by blast
  then show ?case using i by (intro exI [of _ "i # is"]) simp
qed

end

end
