(* ===== verification/Gateway.thy ===== *)
theory Gateway
  imports GoHttp Provider Metrics Ratelimit Security Cost AuditStore
begin

text \<open>
  Package \<open>internal/gateway\<close>: the HTTP server. A handler takes the request, its context, the response writer and
  the server, and returns the response (\<open>None\<close> when it panics, which aborts the connection) and the server it
  leaves behind. The server owns the state of the components it calls: the router with the key counters, the
  cost tracker, the rate limiter, the metrics, the audit database, and the lines written to the log, each with
  the text of its error. The ledger and the audit store are two handles; each has its own database here, which
  matches the program where it opens the same file twice because neither store touches the other's tables.

  Everything that comes from outside during a request, the clock readings, random bytes, the upstream calls and
  the state of the connection, is in the environment of the request.

  Here are the definitions; the theorems are in \<open>Pipeline\<close> and in the root theory.
\<close>

section \<open>State\<close>

record 'd Server =
  sv_cfg :: Config
  sv_auth :: Manager
  sv_router :: Router
  sv_guard :: Guard
  sv_costs :: "'d Tracker"
  sv_limits :: "Limiter option"
  sv_audit :: 'd
  sv_metrics :: Registry
  sv_log :: "(string \<times> string) list"

record request_ctx =
  cx_identity :: ctx
  cx_requestID :: "string option"

record request_env =
  he_rand :: "string option"
  he_limit_now :: time
  he_allow_now :: time
  he_record_now :: time
  he_record_wall :: time
  he_snapshot_now :: time
  he_audit_now :: time
  he_latency :: duration
  he_upstream :: "nat \<Rightarrow> upstream_env"
  he_write_err :: "string option"
  he_flusher :: bool
  he_jerr :: "string \<Rightarrow> string"
  he_terr :: "string \<Rightarrow> string"

abbreviation log_error :: "string \<Rightarrow> string \<Rightarrow> 'd Server \<Rightarrow> 'd Server" where
  "log_error msg err s \<equiv> s\<lparr>sv_log := sv_log s @ [(msg, err)]\<rparr>"

definition blocked :: "'d Server \<Rightarrow> 'd Server" where
  "blocked s = s\<lparr>sv_metrics := RecordBlocked (sv_metrics s)\<rparr>"

section \<open>Writing responses (http.go)\<close>

text \<open>A payload is its JSON value, or the error of the encoder.\<close>

definition enc_float :: "f64 \<Rightarrow> json result" where
  "enc_float x = (case json_float x of None \<Rightarrow> Inl (''json: unsupported value: '' @ format_fixed6 x) | Some t \<Rightarrow> Inr (JNum t))"

definition omit_empty :: "string \<Rightarrow> string \<Rightarrow> (string \<times> json) list" where
  "omit_empty k v = (if v = [] then [] else [(k, JStr v)])"

definition writeJSON :: "request_env \<Rightarrow> int \<Rightarrow> json result \<Rightarrow> response \<Rightarrow> 'd Server \<Rightarrow> response option \<times> 'd Server" where
  "writeJSON env status payload w s =
     (case WriteHeader status (set_rw ''Content-Type'' ''application/json'' w) of
        None \<Rightarrow> (None, s)
      | Some w \<Rightarrow>
          (case payload of
             Inl e \<Rightarrow> (Some w, log_error ''write json response'' e s)
           | Inr v \<Rightarrow>
               (case rw_Write (he_write_err env) (json_Encode v) w of
                  (None, w) \<Rightarrow> (Some w, s)
                | (Some e, w) \<Rightarrow> (Some w, log_error ''write json response'' e s))))"

definition writeError :: "request_env \<Rightarrow> int \<Rightarrow> string \<Rightarrow> response \<Rightarrow> 'd Server \<Rightarrow> response option \<times> 'd Server" where
  "writeError env status message w s = writeJSON env status (Inr (JObj [(''error'', JStr message)])) w s"

definition isHopByHop :: "string \<Rightarrow> bool" where
  "isHopByHop h \<longleftrightarrow> CanonicalHeaderKey h \<in>
     {''Connection'', ''Keep-Alive'', ''Proxy-Authenticate'', ''Proxy-Authorization'', ''Te'', ''Trailer'', ''Transfer-Encoding'', ''Upgrade''}"

definition copyHeaders :: "header \<Rightarrow> header \<Rightarrow> header" where
  "copyHeaders dst src =
     foldl (\<lambda>h (k, vs). if isHopByHop k then h else foldl (\<lambda>h v. Header_Add h k v) h vs) dst src"

definition securityHeader :: "SecDecision \<Rightarrow> string" where
  "securityHeader d =
     (if length (sd_Findings d) = 0 then action_string ActionAllow
      else action_string (sd_Action d) @ ''; findings='' @ Itoa (int (length (sd_Findings d))))"

section \<open>Request ids (request\_id.go)\<close>

definition hex_encode :: "string \<Rightarrow> string" where
  "hex_encode s = concat (map (\<lambda>c. [hex_char (byte c div 16), hex_char (byte c mod 16)]) s)"

definition newRequestID :: "request_env \<Rightarrow> string" where
  "newRequestID env = (case he_rand env of None \<Rightarrow> ''guardrail-request'' | Some buf \<Rightarrow> hex_encode buf)"

definition requestID :: "request_ctx \<Rightarrow> string" where
  "requestID ctx = (case cx_requestID ctx of None \<Rightarrow> [] | Some v \<Rightarrow> v)"

type_synonym 'd handler = "Request \<Rightarrow> request_ctx \<Rightarrow> response \<Rightarrow> 'd Server \<Rightarrow> response option \<times> 'd Server"

definition withRequestID :: "request_env \<Rightarrow> 'd handler \<Rightarrow> 'd handler" where
  "withRequestID env next r ctx w s =
     (let hid = Header_Get (r_Header r) ''X-Request-ID'';
          rid = (if hid = [] then newRequestID env else hid)
      in next r (ctx\<lparr>cx_requestID := Some rid\<rparr>) (set_rw ''X-Request-ID'' rid w) s)"

section \<open>Authentication of requests (auth.go)\<close>

definition isPublicRoute :: "Request \<Rightarrow> bool" where
  "isPublicRoute r \<longleftrightarrow> r_Path r = ''/healthz''"

definition isProxyRoute :: "Request \<Rightarrow> bool" where
  "isProxyRoute r \<longleftrightarrow> r_Path r = ''/v1/chat/completions''"

definition isAdminRoute :: "Request \<Rightarrow> bool" where
  "isAdminRoute r \<longleftrightarrow> r_Path r = ''/metrics'' \<or> HasPrefix (r_Path r) ''/v1/admin/''"

definition writeUnauthorized :: "request_env \<Rightarrow> response \<Rightarrow> 'd Server \<Rightarrow> response option \<times> 'd Server" where
  "writeUnauthorized env w s =
     writeError env 401 ''missing or invalid GuardRail API key''
       (set_rw ''WWW-Authenticate'' (''Bearer realm='' @ [CHR 0x22] @ ''GuardRail'' @ [CHR 0x22]) w) s"

definition withAuth :: "request_env \<Rightarrow> 'd handler \<Rightarrow> 'd handler" where
  "withAuth env next r ctx w s =
     (if \<not> ac_Enabled (cfg_Auth (sv_cfg s)) \<or> isPublicRoute r then next r ctx w s
      else if isProxyRoute r then
        (case AuthenticateProxy (sv_auth s) r of
           Inl e \<Rightarrow> writeUnauthorized env w (log_error ''authenticate proxy request'' e s)
         | Inr None \<Rightarrow> writeUnauthorized env w s
         | Inr (Some identity) \<Rightarrow> next r (ctx\<lparr>cx_identity := WithIdentity (cx_identity ctx) identity\<rparr>) w s)
      else if isAdminRoute r then
        (case AuthenticateAdmin (sv_auth s) r of
           Inl e \<Rightarrow> writeUnauthorized env w (log_error ''authenticate admin request'' e s)
         | Inr None \<Rightarrow> writeUnauthorized env w s
         | Inr (Some identity) \<Rightarrow> next r (ctx\<lparr>cx_identity := WithIdentity (cx_identity ctx) identity\<rparr>) w s)
      else next r ctx w s)"

section \<open>Audit records (audit.go)\<close>

record auditInput =
  ai_tenantID :: string
  ai_route :: string
  ai_provider :: string
  ai_model :: string
  ai_status :: int
  ai_promptTokens :: int
  ai_action :: Action
  ai_usage :: Usage

definition audit_event :: "request_env \<Rightarrow> request_ctx \<Rightarrow> auditInput \<Rightarrow> Event" where
  "audit_event env ctx i =
     \<lparr>ev_ID = 0, ev_Timestamp = he_audit_now env, ev_RequestID = requestID ctx, ev_TenantID = ai_tenantID i,
      ev_Route = ai_route i, ev_Provider = ai_provider i, ev_Model = ai_model i,
      ev_Status = (if ai_status i = 0 then 200 else ai_status i),
      ev_PromptTokens = (if us_PromptTokens (ai_usage i) = 0 then ai_promptTokens i else us_PromptTokens (ai_usage i)),
      ev_CompletionTokens = us_CompletionTokens (ai_usage i), ev_CostUSD = us_CostUSD (ai_usage i),
      ev_SecurityAction = action_string (ai_action i), ev_LatencyMillis = go_div (he_latency env) 1000000\<rparr>"

definition recordAudit :: "'d engine \<Rightarrow> request_env \<Rightarrow> request_ctx \<Rightarrow> auditInput \<Rightarrow> 'd Server \<Rightarrow> 'd Server" where
  "recordAudit eng env ctx input s =
     (case Audit_Record eng (audit_event env ctx input) (sv_audit s) of
        (None, db) \<Rightarrow> s\<lparr>sv_audit := db\<rparr>
      | (Some e, db) \<Rightarrow> log_error ''record audit event'' e (s\<lparr>sv_audit := db\<rparr>))"

definition zero_usage :: Usage where
  "zero_usage = \<lparr>us_PromptTokens = 0, us_CompletionTokens = 0, us_CostUSD = Fin 0\<rparr>"

text \<open>The record of a request that ends before an upstream response.\<close>

definition audit_refusal :: "string \<Rightarrow> string \<Rightarrow> string \<Rightarrow> int \<Rightarrow> Action \<Rightarrow> int \<Rightarrow> auditInput" where
  "audit_refusal tenantID route model status action promptTokens =
     \<lparr>ai_tenantID = tenantID, ai_route = route, ai_provider = [], ai_model = model, ai_status = status,
      ai_promptTokens = promptTokens, ai_action = action, ai_usage = zero_usage\<rparr>"

section \<open>Chat completions (chat.go)\<close>

definition maxRequestBytes :: nat where
  "maxRequestBytes = 8 * 2 ^ 20"

definition readRequestBody :: "Request \<Rightarrow> string result" where
  "readRequestBody r =
     (if maxRequestBytes < length (r_Body r) then Inl ''read request body: http: request body too large''
      else case r_BodyErr r of
        Some e \<Rightarrow> Inl (''read request body: '' @ e)
      | None \<Rightarrow> Inr (r_Body r))"

text \<open>The loop over the candidates; \<open>i\<close> counts the attempts and \<open>lastErr\<close> is the error of the previous one.\<close>

fun try_candidates :: "request_env \<Rightarrow> ChatCompletionRequest \<Rightarrow> string \<Rightarrow> nat \<Rightarrow> nat list \<Rightarrow> string \<Rightarrow> 'd Server \<Rightarrow>
    UpstreamResponse result option \<times> 'd Server" where
  "try_candidates env chat body i [] lastErr s = (Some (Inl lastErr), s)"
| "try_candidates env chat body i (c # cs) lastErr s =
     (let s = (if 0 < i then s\<lparr>sv_metrics := RecordFailover (sv_metrics s)\<rparr> else s)
      in case ChatCompletions (he_upstream env i) chat body (sv_router s ! c) of
           (outcome, p) \<Rightarrow>
             let s = s\<lparr>sv_router := (sv_router s)[c := p]\<rparr>
             in case outcome of
                  None \<Rightarrow> (None, s)
                | Some (Inl e) \<Rightarrow> try_candidates env chat body (Suc i) cs e s
                | Some (Inr upstream) \<Rightarrow>
                    if ur_Status upstream = 429 \<or> 500 \<le> ur_Status upstream
                    then try_candidates env chat body (Suc i) cs
                           (''provider '' @ pv_Name p @ '' returned '' @ Itoa (ur_Status upstream)) s
                    else (Some (Inr upstream), s))"

definition callProviders :: "request_env \<Rightarrow> ChatCompletionRequest \<Rightarrow> string \<Rightarrow> 'd Server \<Rightarrow> UpstreamResponse result option \<times> 'd Server" where
  "callProviders env chat body s =
     (let candidates = Candidates (sv_router s) (ch_Model chat)
      in if length candidates = 0 then (Some (Inl (''no provider configured for model '' @ ch_Model chat)), s)
         else try_candidates env chat body 0 candidates [] s)"

text \<open>A stream is written as one piece, followed by its read error if it breaks off.\<close>

definition writeStream :: "request_env \<Rightarrow> UpstreamResponse \<Rightarrow> response \<Rightarrow> 'd Server \<Rightarrow> response option \<times> 'd Server" where
  "writeStream env upstream w s =
     (let w = w\<lparr>rw_Header := copyHeaders (rw_Header w) (ur_Header upstream)\<rparr>;
          w = set_rw ''Content-Type'' ''text/event-stream'' w;
          w = set_rw ''Cache-Control'' ''no-cache'' w;
          w = set_rw ''X-Accel-Buffering'' ''no'' w
      in case WriteHeader (ur_Status upstream) w of
           None \<Rightarrow> (None, s)
         | Some w \<Rightarrow>
             if \<not> he_flusher env then (Some w, log_error ''response writer does not support streaming'' [] s)
             else (case rw_Write (he_write_err env) (fst (ur_Stream upstream)) w of
                     (werr, w) \<Rightarrow>
                       (case (werr, snd (ur_Stream upstream)) of
                          (Some e, _) \<Rightarrow> (Some w, log_error ''copy stream'' e s)
                        | (None, Some e) \<Rightarrow> (Some w, log_error ''copy stream'' e s)
                        | (None, None) \<Rightarrow> (Some w, s))))"

definition recordUsage :: "'d engine \<Rightarrow> request_env \<Rightarrow> string \<Rightarrow> string \<Rightarrow> int \<Rightarrow> int \<Rightarrow> 'd Server \<Rightarrow> Usage \<times> 'd Server" where
  "recordUsage eng env tenantID model promptTokens completionTokens s =
     (case RecordTenant eng tenantID model promptTokens completionTokens (he_record_now env) (he_record_wall env) (sv_costs s) of
        (Inl e, tr) \<Rightarrow>
          (\<lparr>us_PromptTokens = promptTokens, us_CompletionTokens = completionTokens,
            us_CostUSD = Price model promptTokens completionTokens\<rparr>,
           log_error ''record cost usage'' e (s\<lparr>sv_costs := tr\<rparr>))
      | (Inr usage, tr) \<Rightarrow> (usage, s\<lparr>sv_costs := tr\<rparr>))"

text \<open>The stages of the handler. What follows a response: the usage, the cost metric, the audit record.\<close>

definition settle :: "'d engine \<Rightarrow> request_env \<Rightarrow> request_ctx \<Rightarrow> string \<Rightarrow> string \<Rightarrow> ChatCompletionRequest \<Rightarrow> UpstreamResponse \<Rightarrow>
    Action \<Rightarrow> int \<Rightarrow> int \<Rightarrow> 'd Server \<Rightarrow> 'd Server" where
  "settle eng env ctx tenantID route chat upstream action promptTokens completionTokens s =
     (case recordUsage eng env tenantID (ch_Model chat) promptTokens completionTokens s of
        (usage, s) \<Rightarrow>
          let s = s\<lparr>sv_metrics := RecordCost (us_CostUSD usage) (sv_metrics s)\<rparr>
          in recordAudit eng env ctx
               \<lparr>ai_tenantID = tenantID, ai_route = route, ai_provider = ur_Provider upstream, ai_model = ch_Model chat,
                ai_status = ur_Status upstream, ai_promptTokens = 0, ai_action = action, ai_usage = usage\<rparr> s)"

definition deliver :: "'d engine \<Rightarrow> request_env \<Rightarrow> request_ctx \<Rightarrow> string \<Rightarrow> string \<Rightarrow> ChatCompletionRequest \<Rightarrow> UpstreamResponse \<Rightarrow>
    SecDecision \<Rightarrow> int \<Rightarrow> response \<Rightarrow> 'd Server \<Rightarrow> response option \<times> 'd Server" where
  "deliver eng env ctx tenantID route chat upstream decision promptTokens w s =
     (let w = set_rw ''X-GuardRail-Security'' (securityHeader decision) w
      in if ur_Streaming upstream
         then (case writeStream env upstream w s of
                 (None, s) \<Rightarrow> (None, s)
               | (Some w, s) \<Rightarrow> (Some w, settle eng env ctx tenantID route chat upstream (sd_Action decision) promptTokens 0 s))
         else (case WriteHeader (ur_Status upstream) (w\<lparr>rw_Header := copyHeaders (rw_Header w) (ur_Header upstream)\<rparr>) of
                 None \<Rightarrow> (None, s)
               | Some w \<Rightarrow>
                   (case rw_Write (he_write_err env) (ur_Body upstream) w of
                      (werr, w) \<Rightarrow>
                        let s = (case werr of None \<Rightarrow> s | Some e \<Rightarrow> log_error ''write provider response'' e s)
                        in (Some w, settle eng env ctx tenantID route chat upstream (sd_Action decision) promptTokens
                                      (CompletionTokensFromOpenAI (ur_Body upstream)) s))))"

definition enc_budget :: "CostDecision \<Rightarrow> json result" where
  "enc_budget d =
     (case (enc_float (cd_Spent d), enc_float (cd_Limit d)) of
        (Inl e, _) \<Rightarrow> Inl e
      | (_, Inl e) \<Rightarrow> Inl e
      | (Inr spent, Inr limit) \<Rightarrow>
          Inr (JObj ([(''allowed'', JBool (cd_Allowed d))] @ omit_empty ''reason'' (cd_Reason d) @
            [(''tenant_id'', JStr (cd_TenantID d)), (''spent_usd'', spent), (''limit_usd'', limit)])))"

definition completionLimit :: "ChatCompletionRequest \<Rightarrow> int" where
  "completionLimit chat = (if ch_MaxTokens chat \<le> 0 then 1024 else ch_MaxTokens chat)"

text \<open>The upstream call and the response.\<close>

definition serve :: "'d engine \<Rightarrow> request_env \<Rightarrow> request_ctx \<Rightarrow> string \<Rightarrow> string \<Rightarrow> ChatCompletionRequest \<Rightarrow> string \<Rightarrow>
    SecDecision \<Rightarrow> int \<Rightarrow> response \<Rightarrow> 'd Server \<Rightarrow> response option \<times> 'd Server" where
  "serve eng env ctx tenantID route chat forwardBody decision promptTokens w s =
     (case callProviders env chat forwardBody s of
        (None, s) \<Rightarrow> (None, s)
      | (Some (Inl e), s) \<Rightarrow>
          (case writeError env 502 e w (log_error ''all providers failed'' e s) of
             (None, s) \<Rightarrow> (None, s)
           | (Some w, s) \<Rightarrow>
               (Some w, recordAudit eng env ctx
                  (audit_refusal tenantID route (ch_Model chat) 502 (sd_Action decision) promptTokens) s))
      | (Some (Inr upstream), s) \<Rightarrow> deliver eng env ctx tenantID route chat upstream decision promptTokens w s)"

text \<open>The budget check before it.\<close>

definition forward :: "'d engine \<Rightarrow> request_env \<Rightarrow> request_ctx \<Rightarrow> string \<Rightarrow> string \<Rightarrow> ChatCompletionRequest \<Rightarrow> string \<Rightarrow>
    SecDecision \<Rightarrow> int \<Rightarrow> response \<Rightarrow> 'd Server \<Rightarrow> response option \<times> 'd Server" where
  "forward eng env ctx tenantID route chat forwardBody decision promptTokens w s =
     (case AllowTenant eng tenantID (ch_Model chat) promptTokens (completionLimit chat) (he_allow_now env) (sv_costs s) of
        (Inl e, tr) \<Rightarrow>
          (case writeError env 500 ''evaluate budget'' w (log_error ''evaluate budget'' e (blocked (s\<lparr>sv_costs := tr\<rparr>))) of
             (None, s) \<Rightarrow> (None, s)
           | (Some w, s) \<Rightarrow>
               (Some w, recordAudit eng env ctx (audit_refusal tenantID route (ch_Model chat) 500 ActionBlock promptTokens) s))
      | (Inr budget, tr) \<Rightarrow>
          let s = s\<lparr>sv_costs := tr\<rparr> in
          if \<not> cd_Allowed budget
          then (case writeJSON env 402 (enc_budget budget) w (blocked s) of
                  (None, s) \<Rightarrow> (None, s)
                | (Some w, s) \<Rightarrow>
                    (Some w, recordAudit eng env ctx (audit_refusal tenantID route (ch_Model chat) 402 ActionBlock promptTokens) s))
          else serve eng env ctx tenantID route chat forwardBody decision promptTokens w s)"

text \<open>Inspection and redaction of a decoded request.\<close>

definition guarded :: "'d engine \<Rightarrow> request_env \<Rightarrow> request_ctx \<Rightarrow> string \<Rightarrow> string \<Rightarrow> string \<Rightarrow> ChatCompletionRequest \<Rightarrow>
    response \<Rightarrow> 'd Server \<Rightarrow> response option \<times> 'd Server" where
  "guarded eng env ctx tenantID route body chat w s =
     (let promptTokens = EstimateTokens (PromptText chat);
          decision = Inspect (sv_guard s) (PromptText chat)
      in if sd_Action decision = ActionBlock
         then (case writeError env 403 ''request blocked by GuardRail security policy''
                      (set_rw ''X-GuardRail-Security'' (securityHeader decision) w) (blocked s) of
                 (None, s) \<Rightarrow> (None, s)
               | (Some w, s) \<Rightarrow>
                   (Some w, recordAudit eng env ctx
                      (audit_refusal tenantID route (ch_Model chat) 403 (sd_Action decision) promptTokens) s))
         else if sd_Action decision = ActionRedact
         then (let forwardBody = fst (Redact (sv_guard s) body)
               in case DecodeChatCompletion (he_jerr env) forwardBody of
                    Inl _ \<Rightarrow> writeError env 400 ''redacted request is not valid JSON'' w (blocked s)
                  | Inr chat \<Rightarrow>
                      forward eng env ctx tenantID route chat forwardBody decision (EstimateTokens (PromptText chat)) w s)
         else forward eng env ctx tenantID route chat body decision promptTokens w s)"

definition enc_limit :: "RLDecision \<Rightarrow> json" where
  "enc_limit d = JObj ([(''allowed'', JBool (rd_Allowed d))] @ omit_empty ''reason'' (rd_Reason d) @
     [(''tenant_id'', JStr (rd_TenantID d))] @
     (if rd_RetryAfter d = 0 then [] else [(''retry_after_seconds'', JInt (rd_RetryAfter d))]))"

text \<open>The check of the rate limiter, where there is one.\<close>

definition rate_limited :: "request_env \<Rightarrow> string \<Rightarrow> 'd Server \<Rightarrow> RLDecision option \<times> 'd Server" where
  "rate_limited env tenantID s =
     (case sv_limits s of
        None \<Rightarrow> (None, s)
      | Some l \<Rightarrow>
          (case Limiter_Allow tenantID (he_limit_now env) l of
             (limit, l) \<Rightarrow> (if rd_Allowed limit then None else Some limit, s\<lparr>sv_limits := Some l\<rparr>)))"

definition chatCompletions :: "'d engine \<Rightarrow> request_env \<Rightarrow> 'd handler" where
  "chatCompletions eng env r ctx w s =
     (let s = s\<lparr>sv_metrics := RecordRequest (sv_metrics s)\<rparr>;
          tenantID = id_TenantID (FromContext (cx_identity ctx));
          route = r_Path r
      in case rate_limited env tenantID s of
           (Some limit, s) \<Rightarrow>
             (case writeJSON env 429 (Inr (enc_limit limit)) (set_rw ''Retry-After'' (Itoa (rd_RetryAfter limit)) w) (blocked s) of
                (None, s) \<Rightarrow> (None, s)
              | (Some w, s) \<Rightarrow> (Some w, recordAudit eng env ctx (audit_refusal tenantID route [] 429 ActionBlock 0) s))
         | (None, s) \<Rightarrow>
             (case readRequestBody r of
                Inl e \<Rightarrow> writeError env 400 e w (blocked s)
              | Inr body \<Rightarrow>
                  (case DecodeChatCompletion (he_jerr env) body of
                     Inl e \<Rightarrow> writeError env 400 e w (blocked s)
                   | Inr chat \<Rightarrow> guarded eng env ctx tenantID route body chat w s)))"

section \<open>Administration (admin.go)\<close>

definition enc_snapshot :: "Snapshot \<Rightarrow> json result" where
  "enc_snapshot d =
     (case (enc_float (sn_SpentUSD d), enc_float (sn_DailyBudgetUSD d), enc_float (sn_RequestBudgetUSD d)) of
        (Inl e, _, _) \<Rightarrow> Inl e
      | (_, Inl e, _) \<Rightarrow> Inl e
      | (_, _, Inl e) \<Rightarrow> Inl e
      | (Inr spent, Inr daily, Inr per) \<Rightarrow>
          Inr (JObj [(''tenant_id'', JStr (sn_TenantID d)), (''day'', JStr (sn_Day d)), (''spent_usd'', spent),
            (''daily_budget_usd'', daily), (''request_budget_usd'', per)]))"

definition costsHandler :: "'d engine \<Rightarrow> request_env \<Rightarrow> 'd handler" where
  "costsHandler eng env r ctx w s =
     (let q = Query_Get r ''tenant_id'';
          tenantID = (if q = [] then DefaultTenantID else q)
      in case SnapshotTenant eng tenantID (he_snapshot_now env) (sv_costs s) of
           (Inl _, tr) \<Rightarrow> writeError env 500 ''read cost snapshot'' w (s\<lparr>sv_costs := tr\<rparr>)
         | (Inr snapshot, tr) \<Rightarrow> writeJSON env 200 (enc_snapshot snapshot) w (s\<lparr>sv_costs := tr\<rparr>))"

definition enc_event :: "Event \<Rightarrow> json result" where
  "enc_event e =
     (case enc_float (ev_CostUSD e) of
        Inl err \<Rightarrow> Inl err
      | Inr usd \<Rightarrow>
          Inr (JObj
            [(''id'', JInt (ev_ID e)), (''timestamp'', JStr (Format_RFC3339Nano (ev_Timestamp e))),
             (''request_id'', JStr (ev_RequestID e)), (''tenant_id'', JStr (ev_TenantID e)), (''route'', JStr (ev_Route e)),
             (''provider'', JStr (ev_Provider e)), (''model'', JStr (ev_Model e)), (''status'', JInt (ev_Status e)),
             (''prompt_tokens'', JInt (ev_PromptTokens e)), (''completion_tokens'', JInt (ev_CompletionTokens e)),
             (''cost_usd'', usd), (''security_action'', JStr (ev_SecurityAction e)), (''latency_ms'', JInt (ev_LatencyMillis e))]))"

fun enc_events :: "Event list \<Rightarrow> json list result" where
  "enc_events [] = Inr []"
| "enc_events (e # es) =
     (case enc_event e of
        Inl err \<Rightarrow> Inl err
      | Inr v \<Rightarrow> (case enc_events es of Inl err \<Rightarrow> Inl err | Inr vs \<Rightarrow> Inr (v # vs)))"

definition auditHandler :: "'d engine \<Rightarrow> request_env \<Rightarrow> 'd handler" where
  "auditHandler eng env r ctx w s =
     (let raw = Query_Get r ''limit''
      in case (if raw = [] then Some 100 else Atoi raw) of
           None \<Rightarrow> writeError env 400 ''limit must be an integer'' w s
         | Some limit \<Rightarrow>
             (case Recent eng (he_terr env) limit (sv_audit s) of
                Inl _ \<Rightarrow> writeError env 500 ''read audit events'' w s
              | Inr events \<Rightarrow> writeJSON env 200 (case enc_events events of Inl e \<Rightarrow> Inl e | Inr vs \<Rightarrow> Inr (JArr vs)) w s))"

section \<open>The server (server.go)\<close>

definition healthz :: "request_env \<Rightarrow> 'd handler" where
  "healthz env r ctx w s = writeJSON env 200 (Inr (JObj [(''status'', JStr ''ok'')])) w s"

definition metricsHandler :: "request_env \<Rightarrow> 'd handler" where
  "metricsHandler env r ctx w s =
     (case WriteHeader 200 (set_rw ''Content-Type'' ''text/plain; version=0.0.4'' w) of
        None \<Rightarrow> (None, s)
      | Some w \<Rightarrow> (Some (snd (rw_Write (he_write_err env) (Prometheus (sv_metrics s)) w)), s))"

definition patterns :: "pattern list" where
  "patterns =
     [(''GET'', [''healthz'']), (''GET'', [''metrics'']), (''GET'', [''v1'', ''admin'', ''costs'']),
      (''GET'', [''v1'', ''admin'', ''audit'']), (''POST'', [''v1'', ''chat'', ''completions''])]"

definition handlers :: "'d engine \<Rightarrow> request_env \<Rightarrow> 'd handler list" where
  "handlers eng env =
     [healthz env, metricsHandler env, costsHandler eng env, auditHandler eng env, chatCompletions eng env]"

definition mux_ServeHTTP :: "'d engine \<Rightarrow> request_env \<Rightarrow> RawRequest \<Rightarrow> 'd handler" where
  "mux_ServeHTTP eng env q r ctx w s =
     (case mux_route patterns q of
        Handler i \<Rightarrow> (handlers eng env ! i) r ctx w s
      | Redirect target \<Rightarrow> (http_Redirect (rq_Method q) target w, s)
      | MethodNotAllowed ms \<Rightarrow> (http_Error ''Method Not Allowed'' 405 (set_rw ''Allow'' (Join ms '', '') w), s)
      | NotFound \<Rightarrow> (http_Error ''404 page not found'' 404 w, s))"

definition ServeHTTP :: "'d engine \<Rightarrow> request_env \<Rightarrow> RawRequest \<Rightarrow> 'd Server \<Rightarrow> response option \<times> 'd Server" where
  "ServeHTTP eng env q s =
     withRequestID env (withAuth env (mux_ServeHTTP eng env q)) (request_of q)
       \<lparr>cx_identity = None, cx_requestID = None\<rparr> new_response s"

record 'd Dependencies =
  dp_Config :: Config
  dp_Auth :: "Manager option"
  dp_Router :: Router
  dp_Guard :: Guard
  dp_Costs :: "'d Tracker"
  dp_Limits :: "Limiter option"
  dp_Audit :: 'd
  dp_Metrics :: Registry

definition Server_New :: "'d Dependencies \<Rightarrow> 'd Server" where
  "Server_New deps =
     \<lparr>sv_cfg = dp_Config deps,
      sv_auth = (case dp_Auth deps of None \<Rightarrow> NewManagerWithVerifier (dp_Config deps) None | Some a \<Rightarrow> a),
      sv_router = dp_Router deps, sv_guard = dp_Guard deps, sv_costs = dp_Costs deps, sv_limits = dp_Limits deps,
      sv_audit = dp_Audit deps, sv_metrics = dp_Metrics deps, sv_log = []\<rparr>"

end
