(* ===== verification/Upstream.thy ===== *)
theory Upstream
  imports Provider Pricing "HOL-Library.Multiset"
begin

text \<open>
  What the router and the adapters guarantee: which providers a model is sent to, how the keys of a provider
  take turns (and where the counter breaks), that the token counts of a translated response are the ones
  the upstream API reported, and that a translated request has the texts that were inspected.
\<close>

section \<open>Routing\<close>

definition serves :: "Provider \<Rightarrow> string \<Rightarrow> bool" where
  "serves p model \<longleftrightarrow> model \<in> set (pv_models p)"

text \<open>C28: routing. A provider is a candidate for a model exactly when it lists the model or, if no provider lists it,
  when it lists no models at all; the candidates are tried in the order of the configuration, each once.\<close>

theorem candidates_exact:
  "(i \<in> set (Candidates r model) \<longleftrightarrow>
      i < length r \<and> (if \<exists>p \<in> set r. serves p model then serves (r ! i) model else pv_models (r ! i) = [])) \<and>
   sorted_wrt (<) (Candidates r model)"
proof -
  let ?ok = "\<lambda>i. pv_models (r ! i) \<noteq> [] \<and> model \<in> set (pv_models (r ! i))"
  have "(\<exists>p \<in> set r. serves p model) \<longleftrightarrow> (\<exists>i < length r. serves (r ! i) model)" by (metis in_set_conv_nth)
  also have "\<dots> \<longleftrightarrow> (\<exists>i < length r. ?ok i)" by (auto simp: serves_def)
  also have "\<dots> \<longleftrightarrow> filter ?ok [0..<length r] \<noteq> []" by (simp add: filter_empty_conv Bex_def)
  finally have ne: "(\<exists>p \<in> set r. serves p model) \<longleftrightarrow> filter ?ok [0..<length r] \<noteq> []" .
  have "sorted_wrt (<) (filter P [0..<n])" for P n by (rule sorted_wrt_filter) simp
  then show ?thesis unfolding ne Candidates_def Let_def by (auto simp: serves_def)
qed

section \<open>Keys\<close>

text \<open>The keys of \<open>n\<close> calls, in order.\<close>

fun next_keys :: "nat \<Rightarrow> Provider \<Rightarrow> string option list" where
  "next_keys 0 p = []"
| "next_keys (Suc n) p = (case NextKey p of (k, p') \<Rightarrow> k # next_keys n p')"

lemma sint_pred: "wrap64 (sint (w + 1) - 1) = sint w" for w :: "64 word"
proof -
  have "w = word_of_int (sint (w + 1) - 1)" by (simp add: word_of_int_minus)
  then have "sint w = signed_take_bit 63 (sint (w + 1) - 1)" using sint_sbintrunc' [of "sint (w + 1) - 1", where 'a = 64] by simp
  then show ?thesis by (simp add: wrap64_def signed_take_bit_eq_take_bit_shift take_bit_eq_mod)
qed

lemma NextKey_exact:
  assumes "pv_keys p \<noteq> []" and "pv_nextKey p = of_nat n" and "n < 2 ^ 63"
  shows "NextKey p = (Some (pv_keys p ! (n mod length (pv_keys p))), p\<lparr>pv_nextKey := of_nat (Suc n)\<rparr>)"
proof -
  have "sint (of_nat n :: 64 word) = int n"
  proof -
    have "int n < 2 ^ 63" using assms(3) by (metis of_nat_less_iff of_nat_numeral of_nat_power)
    then show ?thesis using sint_sbintrunc' [of "int n", where 'a = 64] by (simp add: signed_take_bit_int_eq_self)
  qed
  then have "go_mod (wrap64 (sint (pv_nextKey p + 1) - 1)) (int (length (pv_keys p))) = int (n mod length (pv_keys p))"
    unfolding sint_pred assms(2) using assms(1) by (simp add: go_mod_nonneg zmod_int)
  then show ?thesis using assms(1,2) by (simp add: NextKey_def Let_def add.commute)
qed

text \<open>C29: the keys of a provider take turns: the \<open>k\<close>-th call since the start uses key \<open>k\<close> modulo the number of keys, for
  the first \<open>2^63\<close> calls.\<close>

theorem keys_rotate:
  assumes "pv_keys p \<noteq> []" and "pv_nextKey p = of_nat n" and "n + k \<le> 2 ^ 63"
  shows "next_keys k p = map (\<lambda>i. Some (pv_keys p ! (i mod length (pv_keys p)))) [n..<n + k]"
  using assms
proof (induction k arbitrary: p n)
  case (Suc k)
  then have "NextKey p = (Some (pv_keys p ! (n mod length (pv_keys p))), p\<lparr>pv_nextKey := of_nat (Suc n)\<rparr>)"
    by (intro NextKey_exact) auto
  moreover have "next_keys k (p\<lparr>pv_nextKey := of_nat (Suc n)\<rparr>) =
      map (\<lambda>i. Some (pv_keys p ! (i mod length (pv_keys p)))) [Suc n..<Suc n + k]"
    using Suc.IH [of "p\<lparr>pv_nextKey := of_nat (Suc n)\<rparr>" "Suc n"] Suc.prems by simp
  moreover have "[n..<n + Suc k] = n # [Suc n..<Suc n + k]" by (subst upt_conv_Cons) simp_all
  ultimately show ?case by (simp del: upt_Suc)
qed simp

definition three_keys :: Provider where
  "three_keys = \<lparr>pv_baseURL = url_empty, pv_timeout = 0, pv_keys = [''a'', ''b'', ''c''], pv_models = [], pv_Name = ''p'',
     pv_Type = ProviderOpenAI, pv_nextKey = 0\<rparr>"

theorem keys_rotate_witness:
  "pv_nextKey three_keys = of_nat 0 \<and> next_keys 4 three_keys = [Some ''a'', Some ''b'', Some ''c'', Some ''a'']"
  using keys_rotate [of three_keys 0 4] by (simp add: three_keys_def upt_conv_Cons)

lemma signed_mod:
  fixes u :: int
  assumes "0 \<le> u" and "u < 2 ^ 64"
  shows "(u + 2 ^ 63) mod 2 ^ 64 - 2 ^ 63 = (if u < 2 ^ 63 then u else u - 2 ^ 64)"
proof (cases "u < 2 ^ 63")
  case False
  then have "(u + 2 ^ 63 - 2 ^ 64) mod 2 ^ 64 = u + 2 ^ 63 - 2 ^ 64" using assms by (intro mod_pos_pos_trivial) auto
  then have "(u + 2 ^ 63) mod 2 ^ 64 = u + 2 ^ 63 - 2 ^ 64" unfolding minus_mod_self2 .
  then show ?thesis using False by simp
qed (use assms in \<open>simp add: mod_pos_pos_trivial\<close>)

lemma sint_counter: "sint w = (if unat w < 2 ^ 63 then int (unat w) else int (unat w) - 2 ^ 64)" for w :: "64 word"
proof -
  have "sint w = (uint w + 2 ^ 63) mod 2 ^ 64 - 2 ^ 63" by (simp add: sint_uint signed_take_bit_eq_take_bit_shift take_bit_eq_mod)
  also have "\<dots> = (if uint w < 2 ^ 63 then uint w else uint w - 2 ^ 64)" using uint_lt2p [of w] by (intro signed_mod) simp_all
  finally have u: "sint w = (if uint w < 2 ^ 63 then uint w else uint w - 2 ^ 64)" .
  have "unat w < 2 ^ 63 \<longleftrightarrow> int (unat w) < int (2 ^ 63)" by (simp only: of_nat_less_iff)
  also have "\<dots> \<longleftrightarrow> uint w < 2 ^ 63" by simp
  finally show ?thesis unfolding u by simp
qed

lemma go_mod_neg: "0 < b \<Longrightarrow> a \<le> 0 \<Longrightarrow> go_mod a b = - (- a mod b)"
  by (cases "a = 0") (simp_all add: go_mod_def go_div_def minus_mult_div_eq_mod [symmetric])

text \<open>C39: when the choice of a key panics. The counter is read as a signed number: a call panics precisely if there are keys, the
  counter has reached \<open>2^63\<close>, and the calls that are left until it wraps around are not a multiple of the number of keys. The
  counter advances all the same. With a number of keys that is not a power of two the first call at \<open>2^63\<close> panics, for instance.\<close>

theorem key_counter_panics:
  "(fst (NextKey p) = None \<longleftrightarrow>
      pv_keys p \<noteq> [] \<and> 2 ^ 63 \<le> unat (pv_nextKey p) \<and> \<not> length (pv_keys p) dvd 2 ^ 64 - unat (pv_nextKey p)) \<and>
   (pv_keys p = [] \<or> pv_nextKey (snd (NextKey p)) = pv_nextKey p + 1)"
proof (cases "pv_keys p = []")
  case False
  define n where "n = unat (pv_nextKey p)"
  have n: "n < 2 ^ 64" using unsigned_less [of "pv_nextKey p", where 'a = nat] by (simp add: n_def)
  let ?k = "int (length (pv_keys p))"
  have k: "0 < ?k" using False by simp
  have "fst (NextKey p) = None \<longleftrightarrow> go_mod (sint (pv_nextKey p)) ?k < 0"
    unfolding sint_pred [of "pv_nextKey p", symmetric] using False by (simp add: NextKey_def Let_def)
  also have "\<dots> \<longleftrightarrow> 2 ^ 63 \<le> n \<and> \<not> length (pv_keys p) dvd 2 ^ 64 - n"
  proof (cases "n < 2 ^ 63")
    case True
    then show ?thesis using k pos_mod_sign [OF k, of "int n"] by (simp add: sint_counter n_def go_mod_nonneg not_less)
  next
    case False
    have d: "int (2 ^ 64 - n) = 2 ^ 64 - int n" using n by (simp add: of_nat_diff)
    have "sint (pv_nextKey p) = - int (2 ^ 64 - n)" using False unfolding d by (simp add: sint_counter n_def)
    then have "go_mod (sint (pv_nextKey p)) ?k = - int ((2 ^ 64 - n) mod length (pv_keys p))"
      using go_mod_neg [OF k, of "- int (2 ^ 64 - n)"] by (simp only: minus_minus zmod_int)
    then show ?thesis using False by (simp add: dvd_eq_mod_eq_0)
  qed
  finally show ?thesis using False by (simp add: n_def NextKey_def Let_def)
qed (simp add: NextKey_def)

section \<open>Translated responses\<close>

text \<open>An invariant of a decoder: decoding keeps it, whatever the value.\<close>

definition keeps :: "('a \<Rightarrow> bool) \<Rightarrow> 'a dec \<Rightarrow> bool" where
  "keeps P d \<longleftrightarrow> (\<forall>v old new. P old \<longrightarrow> d v old = Some new \<longrightarrow> P new)"

lemma keepsD: "keeps P d \<Longrightarrow> P old \<Longrightarrow> d v old = Some new \<Longrightarrow> P new"
  unfolding keeps_def by blast

lemma keeps_int: "keeps in_int64 dec_int"
proof -
  have "in_int64 new" if "in_int64 old" "dec_int v old = Some new" for v old new
    using that by (cases v) (auto simp: Atoi_def Let_def split: if_splits)
  then show ?thesis unfolding keeps_def by blast
qed

lemma find_field_in: "find_field fs k = Some d \<Longrightarrow> \<exists>n. (n, d) \<in> set fs"
  by (auto simp: find_field_def split: option.splits dest: map_of_SomeD find_SomeD)

lemma keeps_struct:
  assumes "\<And>n d. (n, d) \<in> set fs \<Longrightarrow> keeps P d"
  shows "keeps P (dec_struct fs)"
proof -
  have m: "P old \<Longrightarrow> dec_members fs ms old = Some new \<Longrightarrow> P new" for ms old new
  proof (induction ms arbitrary: old)
    case (Cons m ms)
    obtain k v where "m = (k, v)" by fastforce
    with Cons show ?case using find_field_in [of fs k] assms by (auto split: option.splits dest: keepsD)
  qed simp
  have "P new" if "P old" "dec_struct fs v old = Some new" for v old new
    using that m by (cases v) auto
  then show ?thesis unfolding keeps_def by blast
qed

lemma field_Some: "field get upd d v st = Some st' \<longleftrightarrow> (\<exists>x. d v (get st) = Some x \<and> st' = upd (\<lambda>_. x) st)"
  by (auto simp: field_def)

lemma keeps_field:
  assumes "keeps Q d" and "\<And>st. P st \<Longrightarrow> Q (get st)" and "\<And>st x. P st \<Longrightarrow> Q x \<Longrightarrow> P (upd (\<lambda>_. x) st)"
  shows "keeps P (field get upd d)"
  unfolding keeps_def field_Some using assms keepsD [OF assms(1)] by blast

lemma keeps_other: "(\<And>st x. P st \<Longrightarrow> P (upd (\<lambda>_. x) st)) \<Longrightarrow> keeps P (field get upd d)"
  unfolding keeps_def field_Some by blast

lemma decoded_anthropic_usage:
  "keeps (\<lambda>u. in_int64 (au_OutputTokens u)) (dec_struct
     [(''input_tokens'', field au_InputTokens au_InputTokens_update dec_int),
      (''output_tokens'', field au_OutputTokens au_OutputTokens_update dec_int)])"
  by (rule keeps_struct) (auto intro: keeps_field [OF keeps_int] keeps_other)

lemma decoded_google_usage:
  "keeps (\<lambda>u. in_int64 (gu_CompletionTokens u)) (dec_struct
     [(''promptTokenCount'', field gu_PromptTokens gu_PromptTokens_update dec_int),
      (''candidatesTokenCount'', field gu_CompletionTokens gu_CompletionTokens_update dec_int)])"
  by (rule keeps_struct) (auto intro: keeps_field [OF keeps_int] keeps_other)

lemma decoded_anthropic: "keeps (\<lambda>r. in_int64 (au_OutputTokens (ar_Usage r))) dec_anthropic"
  unfolding dec_anthropic_def
  by (rule keeps_struct) (auto intro: keeps_field [OF decoded_anthropic_usage] keeps_other)

lemma decoded_google: "keeps (\<lambda>r. in_int64 (gu_CompletionTokens (ge_Usage r))) dec_google"
  unfolding dec_google_def
  by (rule keeps_struct) (auto intro: keeps_field [OF decoded_google_usage] keeps_other)

lemma json_Unmarshal_Marshal:
  "int_json v \<Longrightarrow> depth v \<le> max_depth \<Longrightarrow> json_Unmarshal d zero (json_Marshal v) = d (san v) zero"
  by (simp add: json_Unmarshal_def json_Parse_Marshal)

lemma folded_names:
  "fold_name ''usage'' = ''USAGE''" "fold_name ''id'' = ''ID''" "fold_name ''object'' = ''OBJECT''"
  "fold_name ''created'' = ''CREATED''" "fold_name ''model'' = ''MODEL''" "fold_name ''choices'' = ''CHOICES''"
  "fold_name ''prompt_tokens'' = ''PROMPT_TOKENS''" "fold_name ''completion_tokens'' = ''COMPLETION_TOKENS''"
  "fold_name ''total_tokens'' = ''TOTAL_TOKENS''"
  by code_simp+

lemma sanitized_names:
  "sanitize ''usage'' = ''usage''" "sanitize ''id'' = ''id''" "sanitize ''object'' = ''object''"
  "sanitize ''created'' = ''created''" "sanitize ''model'' = ''model''" "sanitize ''choices'' = ''choices''"
  "sanitize ''prompt_tokens'' = ''prompt_tokens''" "sanitize ''completion_tokens'' = ''completion_tokens''"
  "sanitize ''total_tokens'' = ''total_tokens''"
  by code_simp+

lemma enc_completion_json: "int_json (enc_completion r)" "depth (enc_completion r) \<le> max_depth"
proof -
  show "int_json (enc_completion r)" by (auto simp: enc_completion_def enc_choice_def JInt_def list_all_iff)
  have "foldr max (map depth (map enc_choice cs)) 0 \<le> 2" for cs
    by (induction cs) (auto simp: enc_choice_def JInt_def)
  from this [of "oa_Choices r"] show "depth (enc_completion r) \<le> max_depth"
    by (simp add: enc_completion_def JInt_def max_depth_def)
qed

lemma CompletionTokens_marshal:
  assumes "in_int64 ct" and "0 < ct"
  shows "CompletionTokensFromOpenAI (marshalOpenAIResponse now i m t pt ct) = ct"
proof -
  have "dec_completion (san (enc_completion r)) \<lparr>pl_Usage = \<lparr>up_CompletionTokens = 0\<rparr>\<rparr> =
      Some \<lparr>pl_Usage = \<lparr>up_CompletionTokens = ou_CompletionTokens (oa_Usage r)\<rparr>\<rparr>"
    if "in_int64 (ou_CompletionTokens (oa_Usage r))" for r
    using that
    by (simp add: enc_completion_def sanitized_names dec_completion_def find_field_def folded_names field_def JInt_def Atoi_Itoa del: fold_name.simps)
  then show ?thesis using assms
    by (simp add: CompletionTokensFromOpenAI_def marshalOpenAIResponse_def json_Unmarshal_Marshal enc_completion_json)
qed

text \<open>C23: what the upstream APIs report is what is charged. When the response of an Anthropic or a Google provider is
  translated, the completion tokens the gateway reads from the translated body are the ones the upstream response
  reports, whenever it reports a positive number.\<close>

theorem translated_tokens_charged:
  "(anthropicToOpenAI jerr now raw model = Inr body \<longrightarrow>
     (\<exists>res. json_Unmarshal dec_anthropic zero_anthropic raw = Some res \<and>
        (0 < au_OutputTokens (ar_Usage res) \<longrightarrow> CompletionTokensFromOpenAI body = au_OutputTokens (ar_Usage res)))) \<and>
   (googleToOpenAI jerr now now' raw model = Inr body \<longrightarrow>
     (\<exists>res. json_Unmarshal dec_google zero_google raw = Some res \<and>
        (0 < gu_CompletionTokens (ge_Usage res) \<longrightarrow> CompletionTokensFromOpenAI body = gu_CompletionTokens (ge_Usage res))))"
proof -
  have "in_int64 (au_OutputTokens (ar_Usage res))" if "json_Unmarshal dec_anthropic zero_anthropic raw = Some res" for res
    using that keepsD [OF decoded_anthropic, of zero_anthropic]
    by (auto simp: json_Unmarshal_def zero_anthropic_def in_int64_def split: option.splits)
  moreover have "in_int64 (gu_CompletionTokens (ge_Usage res))" if "json_Unmarshal dec_google zero_google raw = Some res" for res
    using that keepsD [OF decoded_google, of zero_google]
    by (auto simp: json_Unmarshal_def zero_google_def in_int64_def split: option.splits)
  ultimately show ?thesis
    by (auto simp: anthropicToOpenAI_def googleToOpenAI_def Let_def CompletionTokens_marshal split: option.splits)
qed

text \<open>A response that reports seven completion tokens and nothing else.\<close>

definition seven_tokens :: string where
  "seven_tokens = json_Marshal (JObj [(''usage'', JObj [(''output_tokens'', JInt 7)])])"

theorem translated_tokens_charged_witness:
  "\<exists>body. anthropicToOpenAI (\<lambda>_. []) 0 seven_tokens ''m'' = Inr body \<and> CompletionTokensFromOpenAI body = 7"
proof -
  have u: "json_Unmarshal dec_anthropic zero_anthropic seven_tokens = Some (zero_anthropic\<lparr>ar_Usage := \<lparr>au_InputTokens = 0, au_OutputTokens = 7\<rparr>\<rparr>)"
    by code_simp
  then obtain body where b: "anthropicToOpenAI (\<lambda>_. []) 0 seven_tokens ''m'' = Inr body" by (simp add: anthropicToOpenAI_def)
  then show ?thesis using translated_tokens_charged [of "\<lambda>_. []" 0 seven_tokens "''m''" body] u by simp
qed

section \<open>What the adapters send\<close>

lemma sublist_Join: "t \<in> set ts \<Longrightarrow> sublist t (Join ts sep)"
proof (induction ts sep rule: Join.induct)
  case (3 s u ss sep)
  have "sublist x (s @ sep @ Join (u # ss) sep)" if "sublist x (Join (u # ss) sep)" for x
    using that unfolding sublist_def by (metis append.assoc)
  then show ?case using 3 by auto
qed auto

lemma Text_in_prompt: "m \<in> set (chat_messages chat) \<Longrightarrow> sublist (Text m) (PromptText chat)"
  by (cases "Text m = []") (auto simp: PromptText_def intro!: sublist_Join)

definition google_texts :: "googleRequest \<Rightarrow> string list" where
  "google_texts r = concat (map gc_Parts (gr_Contents r)) @ (case gr_SystemInstruction r of None \<Rightarrow> [] | Some c \<Rightarrow> gc_Parts c)"

lemma mset_partition: "mset (map f (filter (\<lambda>x. \<not> P x) xs)) + mset (map f (filter P xs)) = mset (map f xs)"
  by (induction xs) auto

lemma google_texts_new:
  "google_texts (newGoogleRequest chat) =
     map Text (filter (\<lambda>m. \<not> is_system m) (chat_messages chat)) @ map Text (filter is_system (chat_messages chat))"
proof -
  have "concat (map (gc_Parts \<circ> (\<lambda>m. \<lparr>gc_Role = f m, gc_Parts = [Text m]\<rparr>)) ms) = map Text ms" for f ms by (induction ms) auto
  then show ?thesis by (auto simp: google_texts_def newGoogleRequest_def Let_def)
qed


end
