(* ===== verification/Lite.thy ===== *)
theory Lite
  imports AuditStore
begin

text \<open>
  An executable engine for the fourteen statements of the two stores, after SQLite's documentation: tables for
  migrations, spend and audit events, each of the last two also in the form it had before it knew tenants, and
  transactions by remembering the content. It shows that the laws the components assume of an engine can hold
  together, and evaluates the examples.
\<close>

section \<open>Content\<close>

datatype spend_tab =
    NoSpend
  | LegacySpend "(string \<times> f64 \<times> string) list"
  | TenantSpend "((string \<times> string) \<times> f64 \<times> string) list"

datatype event_tab = NoEvents | LegacyEvents "row list" | Events "row list"

record lite_content =
  lc_versions :: "(string \<times> int) list option"
  lc_spend :: spend_tab
  lc_events :: event_tab
  lc_next :: int

record lite =
  li_content :: lite_content
  li_saved :: lite_content

definition empty_content :: lite_content where
  "empty_content = \<lparr>lc_versions = None, lc_spend = NoSpend, lc_events = NoEvents, lc_next = 1\<rparr>"

definition new_lite :: lite where
  "new_lite = \<lparr>li_content = empty_content, li_saved = empty_content\<rparr>"

section \<open>Statements\<close>

datatype stmt =
    CreateVersions | SelectVersions | InsertVersion
  | CreateSpend | SpendColumns | LegacySpendStmt | UpsertSpend | SelectSpend
  | CreateEvents | EventColumns | AddTenantColumn | TenantIndex | InsertEvent | RecentEvents

definition statements :: "(string \<times> stmt) list" where
  "statements =
     [(q_create_migrations, CreateVersions), (q_select_versions, SelectVersions), (q_insert_version, InsertVersion),
      (q_create_spend, CreateSpend), (q_spend_columns, SpendColumns), (q_legacy_spend, LegacySpendStmt),
      (q_upsert_spend, UpsertSpend), (q_select_spend, SelectSpend), (q_create_events, CreateEvents),
      (q_event_columns, EventColumns), (q_add_tenant_column, AddTenantColumn), (q_tenant_index, TenantIndex),
      (q_insert_event, InsertEvent), (q_recent_events, RecentEvents)]"

fun upsert :: "string \<times> string \<Rightarrow> f64 \<Rightarrow> string \<Rightarrow> ((string \<times> string) \<times> f64 \<times> string) list
    \<Rightarrow> ((string \<times> string) \<times> f64 \<times> string) list" where
  "upsert k a now [] = [(k, a, now)]"
| "upsert k a now ((k', x, t) # rows) = (if k' = k then (k, f64_add x a, now) # rows else (k', x, t) # upsert k a now rows)"

definition sql_error :: string where
  "sql_error = ''SQL logic error''"

definition insert_version :: "sqlval list \<Rightarrow> lite_content \<Rightarrow> string option \<times> lite_content" where
  "insert_version args c =
     (case (args, lc_versions c) of
        ([SText ns, SInt v, SText name, SText ts], Some vs) \<Rightarrow>
          if (ns, v) \<in> set vs then (Some ''UNIQUE constraint failed: schema_migrations'', c)
          else (None, c\<lparr>lc_versions := Some (vs @ [(ns, v)])\<rparr>)
      | _ \<Rightarrow> (Some sql_error, c))"

definition copy_legacy_spend :: "sqlval list \<Rightarrow> lite_content \<Rightarrow> string option \<times> lite_content" where
  "copy_legacy_spend args c =
     (case (args, lc_spend c) of
        ([SText t], LegacySpend rows) \<Rightarrow>
          (None, c\<lparr>lc_spend := TenantSpend (map (\<lambda>(d, x, ts). ((t, d), x, ts)) rows)\<rparr>)
      | _ \<Rightarrow> (Some sql_error, c))"

definition upsert_spend :: "sqlval list \<Rightarrow> lite_content \<Rightarrow> string option \<times> lite_content" where
  "upsert_spend args c =
     (case (args, lc_spend c) of
        ([SText t, SText d, SReal a, SText now], TenantSpend rows) \<Rightarrow>
          if map_option fst (map_of (upsert (t, d) a now rows) (t, d)) = Some NaN
          then (Some ''NOT NULL constraint failed: cost_spend.spent_usd'', c)
          else (None, c\<lparr>lc_spend := TenantSpend (upsert (t, d) a now rows)\<rparr>)
      | _ \<Rightarrow> (Some sql_error, c))"

definition add_tenant_column :: "lite_content \<Rightarrow> string option \<times> lite_content" where
  "add_tenant_column c =
     (case lc_events c of
        LegacyEvents rows \<Rightarrow> (None, c\<lparr>lc_events := Events (map (\<lambda>r. take 3 r @ SText ''default'' # drop 3 r) rows)\<rparr>)
      | _ \<Rightarrow> (Some sql_error, c))"

definition insert_event :: "sqlval list \<Rightarrow> lite_content \<Rightarrow> string option \<times> lite_content" where
  "insert_event args c =
     (case lc_events c of
        Events rows \<Rightarrow>
          if length args \<noteq> 12 \<or> SReal NaN \<in> set args then (Some sql_error, c)
          else (None, c\<lparr>lc_events := Events (rows @ [SInt (lc_next c) # args]), lc_next := lc_next c + 1\<rparr>)
      | _ \<Rightarrow> (Some sql_error, c))"

definition run_stmt :: "stmt \<Rightarrow> sqlval list \<Rightarrow> lite_content \<Rightarrow> string option \<times> lite_content" where
  "run_stmt st args c =
     (case st of
        CreateVersions \<Rightarrow> (None, case lc_versions c of None \<Rightarrow> c\<lparr>lc_versions := Some []\<rparr> | Some _ \<Rightarrow> c)
      | InsertVersion \<Rightarrow> insert_version args c
      | CreateSpend \<Rightarrow> (None, case lc_spend c of NoSpend \<Rightarrow> c\<lparr>lc_spend := TenantSpend []\<rparr> | _ \<Rightarrow> c)
      | LegacySpendStmt \<Rightarrow> copy_legacy_spend args c
      | UpsertSpend \<Rightarrow> upsert_spend args c
      | CreateEvents \<Rightarrow> (None, case lc_events c of NoEvents \<Rightarrow> c\<lparr>lc_events := Events []\<rparr> | _ \<Rightarrow> c)
      | AddTenantColumn \<Rightarrow> add_tenant_column c
      | TenantIndex \<Rightarrow> (case lc_events c of Events _ \<Rightarrow> (None, c) | _ \<Rightarrow> (Some sql_error, c))
      | InsertEvent \<Rightarrow> insert_event args c
      | _ \<Rightarrow> (Some sql_error, c))"

definition column :: "int \<Rightarrow> string \<Rightarrow> string \<Rightarrow> row" where
  "column i name ty = [SInt i, SText name, SText ty, SInt 1, SNull, SInt 0]"

definition select_versions :: "sqlval list \<Rightarrow> lite_content \<Rightarrow> (row list \<times> string option) result" where
  "select_versions args c =
     (case (args, lc_versions c) of
        ([SText ns], Some vs) \<Rightarrow> Inr (map (\<lambda>(_, v). [SInt v]) (filter (\<lambda>(n, _). n = ns) vs), None)
      | _ \<Rightarrow> Inl sql_error)"

definition select_spend :: "sqlval list \<Rightarrow> lite_content \<Rightarrow> (row list \<times> string option) result" where
  "select_spend args c =
     (case (args, lc_spend c) of
        ([SText t, SText d], TenantSpend rows) \<Rightarrow>
          Inr (case map_of rows (t, d) of None \<Rightarrow> [] | Some (x, _) \<Rightarrow> [[SReal x]], None)
      | _ \<Rightarrow> Inl sql_error)"

definition recent_events :: "sqlval list \<Rightarrow> lite_content \<Rightarrow> (row list \<times> string option) result" where
  "recent_events args c =
     (case (args, lc_events c) of
        ([SInt n], Events rows) \<Rightarrow> Inr (take (nat n) (rev rows), None)
      | _ \<Rightarrow> Inl sql_error)"

definition run_query :: "stmt \<Rightarrow> sqlval list \<Rightarrow> lite_content \<Rightarrow> (row list \<times> string option) result" where
  "run_query st args c =
     (case st of
        SelectVersions \<Rightarrow> select_versions args c
      | SpendColumns \<Rightarrow>
          (case lc_spend c of
             NoSpend \<Rightarrow> Inr ([], None)
           | LegacySpend _ \<Rightarrow> Inr ([column 0 ''day'' ''TEXT'', column 1 ''spent_usd'' ''REAL'', column 2 ''updated_at'' ''TEXT''], None)
           | TenantSpend _ \<Rightarrow>
               Inr ([column 0 ''tenant_id'' ''TEXT'', column 1 ''day'' ''TEXT'', column 2 ''spent_usd'' ''REAL'', column 3 ''updated_at'' ''TEXT''], None))
      | SelectSpend \<Rightarrow> select_spend args c
      | EventColumns \<Rightarrow>
          (case lc_events c of
             NoEvents \<Rightarrow> Inr ([], None)
           | LegacyEvents _ \<Rightarrow> Inr ([column 0 ''id'' ''INTEGER'', column 1 ''timestamp'' ''TEXT''], None)
           | Events _ \<Rightarrow> Inr ([column 0 ''id'' ''INTEGER'', column 1 ''timestamp'' ''TEXT'', column 3 ''tenant_id'' ''TEXT''], None))
      | RecentEvents \<Rightarrow> recent_events args c
      | _ \<Rightarrow> Inl sql_error)"

definition lite_engine :: "lite engine" where
  "lite_engine =
     \<lparr>se_open = (\<lambda>dsn. None),
      se_exec = (\<lambda>q args db.
        case map_of statements q of
          None \<Rightarrow> (Some sql_error, db)
        | Some st \<Rightarrow> (case run_stmt st args (li_content db) of (e, c) \<Rightarrow> (e, db\<lparr>li_content := c\<rparr>))),
      se_query = (\<lambda>q args db.
        case map_of statements q of
          None \<Rightarrow> Inl sql_error
        | Some st \<Rightarrow> run_query st args (li_content db)),
      se_begin = (\<lambda>db. (None, db\<lparr>li_saved := li_content db\<rparr>)),
      se_commit = (\<lambda>db. (None, db)),
      se_rollback = (\<lambda>db. db\<lparr>li_content := li_saved db\<rparr>),
      se_close = (\<lambda>db. db),
      se_scan_err = (\<lambda>row. ''sql: Scan error'')\<rparr>"

section \<open>The laws hold\<close>

lemma statement_of:
  "map_of statements q_create_migrations = Some CreateVersions"
  "map_of statements q_select_versions = Some SelectVersions"
  "map_of statements q_insert_version = Some InsertVersion"
  "map_of statements q_upsert_spend = Some UpsertSpend"
  "map_of statements q_select_spend = Some SelectSpend"
  "map_of statements q_insert_event = Some InsertEvent"
  "map_of statements q_recent_events = Some RecentEvents"
  by code_simp+

lemma statement_of_columns:
  "map_of statements q_event_columns = Some EventColumns"
  "map_of statements q_add_tenant_column = Some AddTenantColumn"
  "map_of statements q_tenant_index = Some TenantIndex"
  by code_simp+

definition lite_spend :: "lite \<Rightarrow> string \<times> string \<Rightarrow> f64 option" where
  "lite_spend db k = (case lc_spend (li_content db) of TenantSpend rows \<Rightarrow> map_option fst (map_of rows k) | _ \<Rightarrow> None)"

definition lite_events :: "lite \<Rightarrow> row list" where
  "lite_events db = (case lc_events (li_content db) of Events rows \<Rightarrow> rows | _ \<Rightarrow> [])"

lemma map_of_upsert:
  "map_of (upsert k a now rows) k' =
     (if k' = k then Some (case map_of rows k of None \<Rightarrow> a | Some (x, _) \<Rightarrow> f64_add x a, now) else map_of rows k')"
  by (induction rows) auto

interpretation lite_tx: transactional lite_engine li_content li_saved
  by unfold_locales (auto simp: lite_engine_def split: option.splits prod.splits)

interpretation lite_ledger: spend_table lite_engine lite_spend
proof
  fix t d a now db db'
  assume "se_exec lite_engine q_upsert_spend [SText t, SText d, SReal a, SText now] db = (None, db')"
  then show "lite_spend db' = (lite_spend db)((t, d) \<mapsto> (case lite_spend db (t, d) of None \<Rightarrow> a | Some x \<Rightarrow> f64_add x a))"
    by (auto simp: lite_engine_def statement_of run_stmt_def upsert_spend_def lite_spend_def fun_eq_iff map_of_upsert split: spend_tab.splits option.splits if_splits)
next
  fix t d a now db e db'
  assume "se_exec lite_engine q_upsert_spend [SText t, SText d, SReal a, SText now] db = (Some e, db')"
  then show "lite_spend db' = lite_spend db"
    by (auto simp: lite_engine_def statement_of run_stmt_def upsert_spend_def lite_spend_def split: spend_tab.splits if_splits)
next
  fix t d db rows
  assume "se_query lite_engine q_select_spend [SText t, SText d] db = Inr (rows, None)"
  then show "rows = (case lite_spend db (t, d) of None \<Rightarrow> [] | Some x \<Rightarrow> [[SReal x]])"
    by (auto simp: lite_engine_def statement_of run_query_def select_spend_def lite_spend_def split: spend_tab.splits option.splits)
next
  fix t d db r rows e
  assume "se_query lite_engine q_select_spend [SText t, SText d] db = Inr (r # rows, Some e)"
  then show "\<exists>x. r = [SReal x] \<and> lite_spend db (t, d) = Some x"
    by (auto simp: lite_engine_def statement_of run_query_def select_spend_def split: spend_tab.splits)
qed

interpretation lite_audit: audit_table lite_engine lite_events
  by unfold_locales
    (auto simp: lite_engine_def statement_of run_stmt_def run_query_def insert_event_def recent_events_def lite_events_def
      split: event_tab.splits if_splits prod.splits)

end
