(* ===== verification/Spending.thy ===== *)
theory Spending
  imports Cost Lite
begin

text \<open>
  What the tracker guarantees. Against an abstract specification, a total per tenant and day, both forms of the
  tracker (its own map, or a ledger over an engine that keeps the laws of \<open>spend_table\<close>) decide and record
  alike. While checks and records alternate, on the same day, the spend of a day never passes the daily budget; when
  two checks come before their records, it can. Tenants do not influence each other, with or without a ledger.
\<close>

section \<open>The specification\<close>

text \<open>The decision on an estimate, given the budget and what the tenant has spent.\<close>

definition spec_decision :: "Budget \<Rightarrow> string \<Rightarrow> f64 \<Rightarrow> f64 \<Rightarrow> CostDecision" where
  "spec_decision b t spent estimated =
     (if f64_gt (bu_PerReq b) (Fin 0) \<and> f64_gt estimated (bu_PerReq b)
      then \<lparr>cd_Allowed = False, cd_Reason = ''per_request_budget_exceeded'', cd_TenantID = t, cd_Spent = estimated, cd_Limit = bu_PerReq b\<rparr>
      else if f64_gt (bu_Daily b) (Fin 0) \<and> f64_gt (f64_add spent estimated) (bu_Daily b)
      then \<lparr>cd_Allowed = False, cd_Reason = ''daily_budget_exceeded'', cd_TenantID = t, cd_Spent = spent, cd_Limit = bu_Daily b\<rparr>
      else \<lparr>cd_Allowed = True, cd_Reason = [], cd_TenantID = t, cd_Spent = spent, cd_Limit = bu_Daily b\<rparr>)"

lemma tracker_total_tenant:
  "tenantOrDefault u = tenantOrDefault t \<Longrightarrow> tracker_total table tr u d = tracker_total table tr t d"
  by (simp only: tracker_total_def spendKey_def)

lemma AllowTenant_spec:
  assumes "spend_table eng table" and "AllowTenant eng t m pt mt now tr = (Inr dec, tr')"
  shows "dec = spec_decision (budgetForTenant tr t) (tenantOrDefault t)
    (tracker_total table tr t (Format_day now)) (Pricer_Price (tr_pricer tr) m pt mt)"
proof -
  obtain r tr1 where s: "spentForDay eng (tenantOrDefault t) (Format_day now) tr = (r, tr1)" by fastforce
  then obtain x where r: "r = Inr x" using assms(2) by (cases r) (auto simp: AllowTenant_def Let_def)
  have x: "x = tracker_total table tr t (Format_day now)"
    using spend_table.spentForDay_total(1) [OF assms(1) s] r tracker_total_tenant [of "tenantOrDefault t" t] by simp
  have "budgetForTenant tr (tenantOrDefault t) = budgetForTenant tr t" by (simp add: budgetForTenant_def)
  then show ?thesis using assms(2) by (auto simp: AllowTenant_def s r x [symmetric] spec_decision_def Let_def split: if_splits)
qed

text \<open>C9: the tracker implements its specification, one total per tenant and day, whether the totals are in its
  map or in a ledger. A decision is the specified one on the tenant's total of the day; checking and taking a
  snapshot change no total; a record that succeeds adds the price of the request to that total and to no other,
  and a snapshot reports it.\<close>

theorem tracker_refines_totals:
  assumes "spend_table eng table" and "CHR 0x00 \<notin> set d'"
  shows "(case AllowTenant eng t m pt mt now tr of
            (Inr dec, tr') \<Rightarrow> dec = spec_decision (budgetForTenant tr t) (tenantOrDefault t)
               (tracker_total table tr t (Format_day now)) (Pricer_Price (tr_pricer tr) m pt mt)
               \<and> tracker_total table tr' = tracker_total table tr
          | (Inl e, tr') \<Rightarrow> tracker_total table tr' = tracker_total table tr) \<and>
         (case RecordTenant eng t m pt ct now wall tr of
            (Inr u, tr') \<Rightarrow> us_CostUSD u = Pricer_Price (tr_pricer tr) m pt ct \<and>
               tracker_total table tr' t' d' =
                 (if (tenantOrDefault t', d') = (tenantOrDefault t, Format_day now)
                  then f64_add (tracker_total table tr t' d') (us_CostUSD u) else tracker_total table tr t' d')
          | (Inl e, tr') \<Rightarrow> True) \<and>
         (case SnapshotTenant eng t now tr of
            (Inr sn, tr') \<Rightarrow> sn_SpentUSD sn = tracker_total table tr t (Format_day now) \<and>
               tracker_total table tr' = tracker_total table tr
          | (Inl e, tr') \<Rightarrow> tracker_total table tr' = tracker_total table tr)"
proof (intro conjI)
  note L = assms(1)
  show "case AllowTenant eng t m pt mt now tr of
            (Inr dec, tr') \<Rightarrow> dec = spec_decision (budgetForTenant tr t) (tenantOrDefault t)
               (tracker_total table tr t (Format_day now)) (Pricer_Price (tr_pricer tr) m pt mt)
               \<and> tracker_total table tr' = tracker_total table tr
          | (Inl e, tr') \<Rightarrow> tracker_total table tr' = tracker_total table tr"
    using AllowTenant_spec [OF L] spend_table.AllowTenant_frame(2) [OF L] by (auto split: prod.split sum.split)
  show "case RecordTenant eng t m pt ct now wall tr of
            (Inr u, tr') \<Rightarrow> us_CostUSD u = Pricer_Price (tr_pricer tr) m pt ct \<and>
               tracker_total table tr' t' d' =
                 (if (tenantOrDefault t', d') = (tenantOrDefault t, Format_day now)
                  then f64_add (tracker_total table tr t' d') (us_CostUSD u) else tracker_total table tr t' d')
          | (Inl e, tr') \<Rightarrow> True"
  proof (cases "RecordTenant eng t m pt ct now wall tr")
    case (Pair r tr')
    show ?thesis
    proof (cases r)
      case (Inr u)
      note rt = spend_table.RecordTenant_total [OF L Pair]
      have u: "us_CostUSD u = Pricer_Price (tr_pricer tr) m pt ct" using rt(4) Inr by simp
      have "tracker_total table tr' t (Format_day now) = f64_add (tracker_total table tr t (Format_day now)) (us_CostUSD u)"
        using rt(3) Inr u by simp
      then show ?thesis using u rt(2) [OF assms(2), of t']
          tracker_total_tenant [of t' t table tr d'] tracker_total_tenant [of t' t table tr' d'] by (auto simp: Pair Inr)
    qed (simp add: Pair)
  qed
  obtain r tr1 where s: "spentForDay eng (tenantOrDefault t) (Format_day now) tr = (r, tr1)" by fastforce
  have "tracker_total table tr (tenantOrDefault t) = tracker_total table tr t" using tracker_total_tenant [of "tenantOrDefault t" t] by (auto simp: fun_eq_iff)
  then show "case SnapshotTenant eng t now tr of
            (Inr sn, tr') \<Rightarrow> sn_SpentUSD sn = tracker_total table tr t (Format_day now) \<and>
               tracker_total table tr' = tracker_total table tr
          | (Inl e, tr') \<Rightarrow> tracker_total table tr' = tracker_total table tr"
    using spend_table.spentForDay_total(1,3) [OF L s] by (auto simp: SnapshotTenant_def s Let_def split: sum.split)
qed

text \<open>A small tracker: a daily budget of 0.00002 dollars and no ledger.\<close>

definition small_cost :: CostConfig where
  "small_cost = \<lparr>cc_DailyBudgetUSD = fl (2 / 100000), cc_PerRequestBudgetUSD = Fin 0\<rparr>"

definition small_tracker :: "lite Tracker" where
  "small_tracker = NewTracker small_cost"

theorem tracker_refines_totals_witness:
  "spend_table lite_engine lite_spend \<and>
   tracker_total lite_spend (snd (RecordTenant lite_engine [] ''x'' 4 2 0 0 small_tracker)) [] (Format_day 0) =
     f64_add (tracker_total lite_spend small_tracker [] (Format_day 0)) (Price ''x'' 4 2)"
  using tracker_refines_totals [OF lite_ledger.spend_table_axioms Format_day_no_nul [of 0], where t = "[]" and m = "''x''" and pt = 4 and ct = 2
      and now = 0 and wall = 0 and tr = small_tracker and t' = "[]"]
    lite_ledger.spend_table_axioms
  by (simp add: RecordTenant_def small_tracker_def NewTracker_def NewTrackerWithLedger_def NewTrackerWithOptions_def
      Price_def Let_def)

section \<open>The daily budget\<close>

text \<open>A request as the tracker sees it, checked and then recorded before the tenant's next check.\<close>

record spend_req =
  sq_tenant :: string
  sq_model :: string
  sq_prompt :: int
  sq_max :: int
  sq_completion :: int
  sq_check_now :: time
  sq_record_now :: time
  sq_wall :: time

definition check_request :: "'d engine \<Rightarrow> spend_req \<Rightarrow> 'd Tracker \<Rightarrow> CostDecision result \<times> 'd Tracker" where
  "check_request eng q tr = AllowTenant eng (sq_tenant q) (sq_model q) (sq_prompt q) (sq_max q) (sq_check_now q) tr"

definition record_request :: "'d engine \<Rightarrow> spend_req \<Rightarrow> 'd Tracker \<Rightarrow> Usage result \<times> 'd Tracker" where
  "record_request eng q tr =
     RecordTenant eng (sq_tenant q) (sq_model q) (sq_prompt q) (sq_completion q) (sq_record_now q) (sq_wall q) tr"

definition serial_request :: "'d engine \<Rightarrow> spend_req \<Rightarrow> 'd Tracker \<Rightarrow> 'd Tracker" where
  "serial_request eng q tr =
     (case check_request eng q tr of
        (Inr dec, tr1) \<Rightarrow> if cd_Allowed dec then snd (record_request eng q tr1) else tr1
      | (Inl e, tr1) \<Rightarrow> tr1)"

text \<open>A completion is not longer than the estimate assumed, and the record falls on the day of the check: the tracker
  reads its clock once for each.\<close>

definition req_ok :: "spend_req \<Rightarrow> bool" where
  "req_ok q \<longleftrightarrow> 0 \<le> sq_prompt q \<and> 0 \<le> sq_completion q \<and> sq_completion q \<le> sq_max q
     \<and> in_int64 (sq_prompt q) \<and> in_int64 (sq_max q) \<and> Format_day (sq_record_now q) = Format_day (sq_check_now q)"

text \<open>Every total is at least zero and within the daily budget of a tenant that has one.\<close>

definition within_budget :: "('d \<Rightarrow> string \<times> string \<Rightarrow> f64 option) \<Rightarrow> 'd Tracker \<Rightarrow> bool" where
  "within_budget table tr \<longleftrightarrow>
     (\<forall>t d. CHR 0x00 \<notin> set d \<longrightarrow> f64_le (Fin 0) (tracker_total table tr t d) \<and>
        (f64_gt (bu_Daily (budgetForTenant tr t)) (Fin 0) \<longrightarrow>
           f64_le (tracker_total table tr t d) (bu_Daily (budgetForTenant tr t))))"

lemma total_within:
  assumes "f64_le (Fin 0) x" "f64_le (Fin 0) c" "f64_le c est" "f64_gt b (Fin 0) \<longrightarrow> \<not> f64_gt (f64_add x est) b"
  shows "f64_le (Fin 0) (f64_add x c) \<and> (f64_gt b (Fin 0) \<longrightarrow> f64_le (f64_add x c) b)"
proof -
  have "f64_le (Fin 0) est" using assms f64_le_trans by blast
  then have nn: "f64_le (Fin 0) (f64_add x est)" and nc: "f64_le (Fin 0) (f64_add x c)"
    using assms f64_add_nonneg by blast+
  have le: "f64_le (f64_add x c) (f64_add x est)"
    using f64_add_mono_right [OF assms(3), of x] nn nc by fastforce
  have "f64_le (f64_add x est) b" if "f64_gt b (Fin 0)"
  proof -
    have "\<not> f64_lt b (f64_add x est)" using assms(4) that by blast
    moreover have "b \<noteq> NaN" "f64_add x est \<noteq> NaN" using that nn by (auto simp: f64_lt_iff)
    ultimately show ?thesis by (auto simp: f64_lt_iff)
  qed
  then show ?thesis using nc le f64_le_trans by blast
qed

lemma check_request_allowed:
  assumes "spend_table eng table" and "check_request eng q tr = (Inr dec, tr')"
  shows "dec = spec_decision (budgetForTenant tr (sq_tenant q)) (tenantOrDefault (sq_tenant q))
    (tracker_total table tr (sq_tenant q) (Format_day (sq_check_now q))) (Pricer_Price (tr_pricer tr) (sq_model q) (sq_prompt q) (sq_max q))"
  using AllowTenant_spec [OF assms(1) assms(2) [unfolded check_request_def]] .

text \<open>What is charged is at least zero and at most the estimate.\<close>

lemma req_ok_price:
  assumes "req_ok q" and "pricer_ok pr"
  defines "c \<equiv> Pricer_Price pr (sq_model q) (sq_prompt q) (sq_completion q)"
    and "est \<equiv> Pricer_Price pr (sq_model q) (sq_prompt q) (sq_max q)"
  shows "f64_le (Fin 0) c" and "f64_le c est" and "f64_le (Fin 0) est"
proof -
  show c: "f64_le (Fin 0) c" "f64_le c est"
    using pricer.price_mono [OF pricer_Price [OF assms(2)]] pricer.price_nonneg [OF pricer_Price [OF assms(2)]] assms(1)
    unfolding c_def est_def req_ok_def in_int64_def by auto
  then show "f64_le (Fin 0) est" by (rule f64_le_trans)
qed

lemma within_budgetD:
  assumes "within_budget table tr" and "CHR 0x00 \<notin> set d"
  shows "f64_le (Fin 0) (tracker_total table tr t d)"
    and "f64_gt (bu_Daily (budgetForTenant tr t)) (Fin 0) \<Longrightarrow> f64_le (tracker_total table tr t d) (bu_Daily (budgetForTenant tr t))"
  using assms by (auto simp: within_budget_def)

text \<open>A record keeps the invariant if its check would pass now.\<close>

lemma record_within:
  assumes L: "spend_table eng table" and pr: "pricer_ok (tr_pricer tr)" and q: "req_ok q" and I: "within_budget table tr"
    and rec: "record_request eng q tr = (r, tr')"
  defines "t \<equiv> sq_tenant q" and "day \<equiv> Format_day (sq_record_now q)"
  assumes fits: "f64_gt (bu_Daily (budgetForTenant tr t)) (Fin 0) \<longrightarrow>
      \<not> f64_gt (f64_add (tracker_total table tr t day) (Pricer_Price (tr_pricer tr) (sq_model q) (sq_prompt q) (sq_max q)))
        (bu_Daily (budgetForTenant tr t))"
  shows "within_budget table tr'"
  unfolding within_budget_def
proof (intro allI impI)
  fix u d assume d: "CHR 0x00 \<notin> set (d :: string)"
  note rt = spend_table.RecordTenant_total [OF L rec [unfolded record_request_def], folded t_def day_def]
  have bud: "budgetForTenant tr' v = budgetForTenant tr v" for v using same_settings_budget [OF rt(1)] by simp
  show "f64_le (Fin 0) (tracker_total table tr' u d) \<and> (f64_gt (bu_Daily (budgetForTenant tr' u)) (Fin 0) \<longrightarrow>
      f64_le (tracker_total table tr' u d) (bu_Daily (budgetForTenant tr' u)))"
  proof (cases "(tenantOrDefault u, d) = (tenantOrDefault t, day)")
    case False
    then have "tracker_total table tr' u d = tracker_total table tr u d" using rt(2) [OF d, of u] by simp
    then show ?thesis using within_budgetD [OF I d] bud by simp
  next
    case True
    have "budgetForTenant tr u = budgetForTenant tr t" using True by (simp add: budgetForTenant_def)
    moreover have "tracker_total table tr' u d = tracker_total table tr' t day" using True tracker_total_tenant by auto
    moreover have "CHR 0x00 \<notin> set day" by (simp add: day_def Format_day_no_nul)
    ultimately show ?thesis
      using rt(3) total_within [OF _ req_ok_price(1,2) [OF q pr] fits] within_budgetD [OF I, of day t] bud by auto
  qed
qed

lemma serial_request_within:
  assumes L: "spend_table eng table" and pr: "pricer_ok (tr_pricer tr)" and q: "req_ok q" and I: "within_budget table tr"
  shows "within_budget table (serial_request eng q tr) \<and> same_settings tr (serial_request eng q tr)"
proof -
  obtain r tr1 where a: "check_request eng q tr = (r, tr1)" by fastforce
  note fr = spend_table.AllowTenant_frame [OF L a [unfolded check_request_def]]
  have I1: "within_budget table tr1" using I fr same_settings_budget [OF fr(1)] by (simp add: within_budget_def)
  show ?thesis
  proof (cases "\<exists>dec. r = Inr dec \<and> cd_Allowed dec")
    case False
    then have "serial_request eng q tr = tr1" by (auto simp: serial_request_def a split: sum.split)
    then show ?thesis using I1 fr by simp
  next
    case True
    then obtain dec where dec: "r = Inr dec" "cd_Allowed dec" by blast
    obtain r2 tr2 where rec: "record_request eng q tr1 = (r2, tr2)" by fastforce
    note rt = spend_table.RecordTenant_total [OF L rec [unfolded record_request_def]]
    have p1: "tr_pricer tr1 = tr_pricer tr" using fr(1) by (simp add: same_settings_def)
    have "f64_gt (bu_Daily (budgetForTenant tr1 (sq_tenant q))) (Fin 0) \<longrightarrow>
        \<not> f64_gt (f64_add (tracker_total table tr1 (sq_tenant q) (Format_day (sq_record_now q)))
            (Pricer_Price (tr_pricer tr1) (sq_model q) (sq_prompt q) (sq_max q))) (bu_Daily (budgetForTenant tr1 (sq_tenant q)))"
      using check_request_allowed [OF L a [unfolded dec(1)]] dec(2) q same_settings_budget [OF fr(1)] fr(2)
      by (auto simp: spec_decision_def req_ok_def p1 split: if_splits)
    then have "within_budget table tr2" using record_within [OF L _ q I1 rec] pr p1 by simp
    moreover have "same_settings tr tr2" using fr(1) rt(1) by (simp add: same_settings_def)
    ultimately show ?thesis using dec rec by (simp add: serial_request_def a)
  qed
qed

text \<open>C12: checks keep the daily budget. From totals within budget, any sequence of requests in which each request
  is checked and recorded before the next check leaves every tenant's total of every day at most its daily
  budget, whatever the engine's errors. The provisos: each request is recorded on the day it was checked on (the tracker reads
  the clock for either), the tracker's prices stay as they are and none is negative, and no completion is longer than the
  estimate assumed. Rounding is included: the bound is on the binary64 totals themselves.\<close>

theorem daily_budget_kept:
  assumes "spend_table eng table" and "pricer_ok (tr_pricer tr)" and "list_all req_ok qs" and "within_budget table tr"
  shows "within_budget table (fold (serial_request eng) qs tr)"
  using assms(2-4)
proof (induction qs arbitrary: tr)
  case Nil
  then show ?case by simp
next
  case (Cons q qs)
  have "within_budget table (serial_request eng q tr)" "tr_pricer (serial_request eng q tr) = tr_pricer tr"
    using serial_request_within [OF assms(1), of tr q] Cons.prems by (auto simp: same_settings_def)
  then show ?case using Cons by simp
qed

lemma within_budget_fresh:
  assumes "tr_ledger tr = None" and "tr_spendByDay tr = Map.empty"
  shows "within_budget table tr"
  using assms by (auto simp: within_budget_def tracker_total_def map_get_def f64_lt_iff) (metis f64_le_total f64.distinct(5))

definition small_request :: spend_req where
  "small_request = \<lparr>sq_tenant = [], sq_model = ''x'', sq_prompt = 2, sq_max = 3, sq_completion = 3,
     sq_check_now = 0, sq_record_now = 5, sq_wall = 0\<rparr>"

definition small_requests :: "spend_req list" where
  "small_requests = replicate 3 small_request"

lemma small_request_ok: "req_ok small_request"
  by (simp add: small_request_def req_ok_def in_int64_def) code_simp

theorem daily_budget_kept_witness:
  "list_all req_ok small_requests \<and> within_budget lite_spend (fold (serial_request lite_engine) small_requests small_tracker)"
proof -
  have "list_all req_ok small_requests" using small_request_ok by (simp add: small_requests_def list_all_iff)
  then show ?thesis
    using daily_budget_kept [OF lite_ledger.spend_table_axioms, of small_tracker small_requests] within_budget_fresh [of small_tracker]
    by (simp add: small_tracker_def NewTracker_def NewTrackerWithLedger_def NewTrackerWithOptions_def)
qed

lemma small_facts:
  "f64_gt (fl (1 / 50000)) (Fin 0)"
  "\<not> f64_gt (f64_add (Fin 0) (StaticPricer_Price ''x'' 2 3)) (fl (1 / 50000))"
  "f64_gt (f64_add (f64_add (Fin 0) (StaticPricer_Price ''x'' 2 3)) (StaticPricer_Price ''x'' 2 3)) (fl (1 / 50000))"
  by code_simp+

section \<open>The race\<close>

definition estimated_cost :: "'d Tracker \<Rightarrow> spend_req \<Rightarrow> f64" where
  "estimated_cost tr q = Pricer_Price (tr_pricer tr) (sq_model q) (sq_prompt q) (sq_max q)"

definition charged_cost :: "'d Tracker \<Rightarrow> spend_req \<Rightarrow> f64" where
  "charged_cost tr q = Pricer_Price (tr_pricer tr) (sq_model q) (sq_prompt q) (sq_completion q)"

text \<open>The request is within the request budget of its tenant, and its estimate fits into what is left of the day.\<close>

definition fits_alone :: "('d \<Rightarrow> string \<times> string \<Rightarrow> f64 option) \<Rightarrow> 'd Tracker \<Rightarrow> spend_req \<Rightarrow> bool" where
  "fits_alone table tr q \<longleftrightarrow>
     (let b = budgetForTenant tr (sq_tenant q) in
      \<not> (f64_gt (bu_PerReq b) (Fin 0) \<and> f64_gt (estimated_cost tr q) (bu_PerReq b)) \<and>
      \<not> (f64_gt (bu_Daily b) (Fin 0) \<and>
          f64_gt (f64_add (tracker_total table tr (sq_tenant q) (Format_day (sq_check_now q))) (estimated_cost tr q)) (bu_Daily b)))"

lemma check_request_iff:
  assumes "spend_table eng table" and "check_request eng q tr = (Inr dec, tr')"
  shows "cd_Allowed dec \<longleftrightarrow> fits_alone table tr q"
  unfolding check_request_allowed [OF assms] by (auto simp: spec_decision_def fits_alone_def Let_def estimated_cost_def)

lemma check_request_frame:
  assumes "spend_table eng table" and "check_request eng q tr = (res, tr')"
  shows "same_settings tr tr'" and "tracker_total table tr' = tracker_total table tr"
  using spend_table.AllowTenant_frame [OF assms(1) assms(2) [unfolded check_request_def]] by blast+

lemma record_request_ok:
  assumes "spend_table eng table" and "record_request eng q tr = (Inr u, tr')"
  defines "d \<equiv> Format_day (sq_record_now q)"
  shows "same_settings tr tr'"
    and "tracker_total table tr' (sq_tenant q) d = f64_add (tracker_total table tr (sq_tenant q) d) (charged_cost tr q)"
  using spend_table.RecordTenant_total [OF assms(1) assms(2) [unfolded record_request_def]] by (auto simp: charged_cost_def d_def)

lemma same_settings_trans: "same_settings a b \<Longrightarrow> same_settings b c \<Longrightarrow> same_settings a c"
  by (simp add: same_settings_def)

lemma same_settings_costs:
  assumes "same_settings tr tr'"
  shows "estimated_cost tr' q = estimated_cost tr q" and "charged_cost tr' q = charged_cost tr q"
  using assms by (simp_all add: same_settings_def estimated_cost_def charged_cost_def)


lemma memory_check: "tr_ledger tr = None \<Longrightarrow> \<exists>dec. check_request eng q tr = (Inr dec, tr)"
  by (simp add: check_request_def AllowTenant_def spentForDay_def Let_def)

lemma memory_record: "tr_ledger tr = None \<Longrightarrow> \<exists>u tr'. record_request eng q tr = (Inr u, tr') \<and> tr_ledger tr' = None"
  by (simp add: record_request_def RecordTenant_def Let_def)


section \<open>Tenants apart\<close>

text \<open>The operations of a tracker, with their answers.\<close>

datatype cost_op = OpAllow string int int time | OpRecord string int int time time | OpSnapshot time

datatype cost_answer = AnAllow "CostDecision result" | AnRecord "Usage result" | AnSnapshot "Snapshot result"

fun cost_step :: "'d engine \<Rightarrow> string \<Rightarrow> cost_op \<Rightarrow> 'd Tracker \<Rightarrow> cost_answer \<times> 'd Tracker" where
  "cost_step eng t (OpAllow m pt mt now) tr = (case AllowTenant eng t m pt mt now tr of (r, tr') \<Rightarrow> (AnAllow r, tr'))"
| "cost_step eng t (OpRecord m pt ct now wall) tr = (case RecordTenant eng t m pt ct now wall tr of (r, tr') \<Rightarrow> (AnRecord r, tr'))"
| "cost_step eng t (OpSnapshot now) tr = (case SnapshotTenant eng t now tr of (r, tr') \<Rightarrow> (AnSnapshot r, tr'))"

text \<open>The row of a tenant and a day, in the ledger or in the map.\<close>

definition spend_row :: "('d \<Rightarrow> string \<times> string \<Rightarrow> f64 option) \<Rightarrow> 'd Tracker \<Rightarrow> string \<Rightarrow> time \<Rightarrow> f64 option" where
  "spend_row table tr t now =
     (case tr_ledger tr of
        None \<Rightarrow> tr_spendByDay tr (spendKey t (Format_day now))
      | Some db \<Rightarrow> table db (tenantOrDefault t, Format_day now))"

text \<open>What a tracker knows of a tenant: its budget, its rows of all days, the prices, and whether there is a ledger.\<close>

definition tracker_view :: "('d \<Rightarrow> string \<times> string \<Rightarrow> f64 option) \<Rightarrow> 'd Tracker \<Rightarrow> string \<Rightarrow> Budget \<times> (time \<Rightarrow> f64 option) \<times> Pricer \<times> bool" where
  "tracker_view table tr t = (budgetForTenant tr t, spend_row table tr t, tr_pricer tr, tr_ledger tr = None)"

definition tracker_ready :: "('d \<Rightarrow> bool) \<Rightarrow> 'd Tracker \<Rightarrow> bool" where
  "tracker_ready ready tr \<longleftrightarrow> (case tr_ledger tr of None \<Rightarrow> True | Some db \<Rightarrow> ready db)"

text \<open>
  A database that serves the two statements of the ledger: while it is \<open>ready\<close>, what it answers to a statement about a row depends
  on that row only, whatever the other rows are, and it stays so. (A statement may still fail, as the upsert does
  whose sum is not a number.)
\<close>

locale live_ledger = spend_table eng table for eng :: "'d engine" and table +
  fixes ready :: "'d \<Rightarrow> bool"
  assumes ready_kept: "ready db \<Longrightarrow> ready (snd (se_exec eng q_upsert_spend [SText t, SText d, SReal a, SText now] db))"
    and upsert_local: "ready db \<Longrightarrow> ready db' \<Longrightarrow> table db (t, d) = table db' (t, d) \<Longrightarrow>
      fst (se_exec eng q_upsert_spend [SText t, SText d, SReal a, SText now] db) =
      fst (se_exec eng q_upsert_spend [SText t, SText d, SReal a, SText now] db')"
    and select_local: "ready db \<Longrightarrow> ready db' \<Longrightarrow> table db (t, d) = table db' (t, d) \<Longrightarrow>
      se_query eng q_select_spend [SText t, SText d] db = se_query eng q_select_spend [SText t, SText d] db'"
begin

lemma AddSpend_eq:
  "AddSpend eng now t d a db =
     (let x = se_exec eng q_upsert_spend [SText (tenantOrDefault t), SText d, SReal a, SText (Format_RFC3339Nano now)] db
      in (map_option (\<lambda>e. ''upsert cost spend: '' @ e) (fst x), snd x))"
  by (auto simp: AddSpend_def Let_def split: prod.splits option.splits)

lemma AddSpend_ready: "ready db \<Longrightarrow> ready (snd (AddSpend eng now t d a db))"
  by (simp add: AddSpend_eq Let_def ready_kept)

lemma AddSpend_local:
  assumes "ready db" and "ready db'" and "table db (tenantOrDefault t, d) = table db' (tenantOrDefault t, d)"
  shows "fst (AddSpend eng now t d a db) = fst (AddSpend eng now t d a db')"
    and "table (snd (AddSpend eng now t d a db)) (tenantOrDefault t, d) = table (snd (AddSpend eng now t d a db')) (tenantOrDefault t, d)"
proof -
  show f: "fst (AddSpend eng now t d a db) = fst (AddSpend eng now t d a db')"
    by (simp add: AddSpend_eq Let_def upsert_local [OF assms])
  show "table (snd (AddSpend eng now t d a db)) (tenantOrDefault t, d) = table (snd (AddSpend eng now t d a db')) (tenantOrDefault t, d)"
  proof (cases "AddSpend eng now t d a db"; cases "AddSpend eng now t d a db'")
    fix e x e' x' assume *: "AddSpend eng now t d a db = (e, x)" "AddSpend eng now t d a db' = (e', x')"
    then have "e' = e" using f by simp
    then show ?thesis using * assms(3)
      by (cases e) (simp_all add: ledger.add_ok [of now t d a db x] ledger.add_ok [of now t d a db' x'] ledger.add_err [of now t d a db _ x] ledger.add_err [of now t d a db' _ x'])
  qed
qed

lemma AddSpend_others:
  "(tenantOrDefault u, d') \<noteq> (tenantOrDefault t, d) \<Longrightarrow>
   table (snd (AddSpend eng now t d a db)) (tenantOrDefault u, d') = table db (tenantOrDefault u, d')"
  by (cases "AddSpend eng now t d a db"; cases "fst (AddSpend eng now t d a db)")
    (auto simp: dest!: ledger.add_ok ledger.add_err)

lemma Spend_local:
  assumes "ready db" and "ready db'" and "table db (tenantOrDefault t, d) = table db' (tenantOrDefault t, d)"
  shows "Spend eng t d db = Spend eng t d db'"
  unfolding Spend_def select_local [OF assms] ..

lemma spentForDay_view:
  "tracker_view table (snd (spentForDay eng t d tr)) = tracker_view table tr" "tr_ledger (snd (spentForDay eng t d tr)) = tr_ledger tr"
  by (auto simp: spentForDay_def tracker_view_def spend_row_def budgetForTenant_def fun_eq_iff Let_def split: option.splits sum.splits)

lemma spentForDay_local:
  assumes "tracker_ready ready tr" and "tracker_ready ready tr'" and "tracker_view table tr t = tracker_view table tr' t"
  shows "fst (spentForDay eng t (Format_day now) tr) = fst (spentForDay eng t (Format_day now) tr')"
proof -
  have l: "(tr_ledger tr = None) = (tr_ledger tr' = None)" and r: "spend_row table tr t now = spend_row table tr' t now"
    using assms(3) by (simp_all add: tracker_view_def)
  show ?thesis
  proof (cases "tr_ledger tr"; cases "tr_ledger tr'")
    fix db db' assume c: "tr_ledger tr = Some db" "tr_ledger tr' = Some db'"
    then have "Spend eng t (Format_day now) db = Spend eng t (Format_day now) db'"
      using assms r by (intro Spend_local) (auto simp: tracker_ready_def spend_row_def)
    then show ?thesis using c by (simp add: spentForDay_def Let_def split: sum.split)
  qed (use l r in \<open>auto simp: spentForDay_def spend_row_def map_get_def Let_def\<close>)
qed

lemma RecordTenant_ledger:
  fixes t m :: string and pt ct :: int and now wall :: time
  assumes "tr_ledger tr = Some db"
  defines "x \<equiv> AddSpend eng wall (tenantOrDefault t) (Format_day now) (Pricer_Price (tr_pricer tr) m pt ct) db"
  shows "tr_ledger (snd (RecordTenant eng t m pt ct now wall tr)) = Some (snd x)"
    and "fst (RecordTenant eng t m pt ct now wall tr) =
      (case fst x of
         Some e \<Rightarrow> Inl (''record spend: '' @ e)
       | None \<Rightarrow> (case Spend eng (tenantOrDefault t) (Format_day now) (snd x) of
           Inl e \<Rightarrow> Inl (''read recorded spend: '' @ e)
         | Inr _ \<Rightarrow> Inr \<lparr>us_PromptTokens = pt, us_CompletionTokens = ct, us_CostUSD = Pricer_Price (tr_pricer tr) m pt ct\<rparr>))"
  using assms(1) by (auto simp: RecordTenant_def Let_def x_def split: prod.splits option.splits sum.splits)

lemma RecordTenant_settings: "same_settings tr (snd (RecordTenant eng t m pt ct now wall tr))"
    "(tr_ledger (snd (RecordTenant eng t m pt ct now wall tr)) = None) = (tr_ledger tr = None)"
  by (auto simp: RecordTenant_def same_settings_def Let_def split: prod.splits option.splits sum.splits)

lemma RecordTenant_others:
  assumes "tenantOrDefault u \<noteq> tenantOrDefault t"
  shows "spend_row table (snd (RecordTenant eng t m pt ct now wall tr)) u now' = spend_row table tr u now'"
proof (cases "tr_ledger tr")
  case None
  have "spendKey u (Format_day now') \<noteq> spendKey t (Format_day now)" using assms by (simp add: spendKey_inject Format_day_no_nul)
  then show ?thesis using None by (simp add: spend_row_def RecordTenant_def Let_def)
next
  case (Some db)
  then show ?thesis using RecordTenant_ledger(1) [OF Some] assms by (simp add: spend_row_def AddSpend_others)
qed

lemma RecordTenant_local:
  assumes "tracker_ready ready tr" and "tracker_ready ready tr'" and "tracker_view table tr t = tracker_view table tr' t"
  shows "fst (RecordTenant eng t m pt ct now wall tr) = fst (RecordTenant eng t m pt ct now wall tr') \<and>
    spend_row table (snd (RecordTenant eng t m pt ct now wall tr)) t now' = spend_row table (snd (RecordTenant eng t m pt ct now wall tr')) t now'"
proof -
  have l: "(tr_ledger tr = None) = (tr_ledger tr' = None)" and p: "tr_pricer tr = tr_pricer tr'"
    and r: "spend_row table tr t n = spend_row table tr' t n" for n
    using assms(3) by (simp_all add: tracker_view_def)
  show ?thesis
  proof (cases "tr_ledger tr"; cases "tr_ledger tr'")
    fix db db' assume c: "tr_ledger tr = Some db" "tr_ledger tr' = Some db'"
    have rd: "ready db" "ready db'" using c assms(1,2) by (simp_all add: tracker_ready_def)
    have row: "table db (tenantOrDefault t, Format_day n) = table db' (tenantOrDefault t, Format_day n)" for n
      using r [of n] c by (simp add: spend_row_def)
    define x x' where "x = AddSpend eng wall (tenantOrDefault t) (Format_day now) (Pricer_Price (tr_pricer tr) m pt ct) db"
      and "x' = AddSpend eng wall (tenantOrDefault t) (Format_day now) (Pricer_Price (tr_pricer tr) m pt ct) db'"
    note R = RecordTenant_ledger [OF c(1), where wall = wall and t = t and now = now and m = m and pt = pt and ct = ct, folded x_def]
      RecordTenant_ledger [OF c(2), where wall = wall and t = t and now = now and m = m and pt = pt and ct = ct, folded p, folded x'_def]
    have f: "fst x = fst x'" and t: "table (snd x) (tenantOrDefault t, Format_day now) = table (snd x') (tenantOrDefault t, Format_day now)"
      using AddSpend_local [OF rd, of "tenantOrDefault t" "Format_day now"] row [of now] by (simp_all add: x_def x'_def)
    have "Spend eng (tenantOrDefault t) (Format_day now) (snd x) = Spend eng (tenantOrDefault t) (Format_day now) (snd x')"
      using t rd AddSpend_ready by (intro Spend_local) (simp_all add: x_def x'_def)
    moreover have "table (snd x) (tenantOrDefault t, Format_day now') = table (snd x') (tenantOrDefault t, Format_day now')"
      using t row [of now'] AddSpend_others [of "tenantOrDefault t" "Format_day now'" "tenantOrDefault t" "Format_day now"]
      by (cases "Format_day now' = Format_day now") (simp_all add: x_def x'_def)
    ultimately show ?thesis by (simp add: R f spend_row_def p cong: option.case_cong sum.case_cong)
  next
    assume c: "tr_ledger tr = None" "tr_ledger tr' = None"
    then have "tr_spendByDay tr (spendKey t (Format_day n)) = tr_spendByDay tr' (spendKey t (Format_day n))" for n
      using r [of n] by (simp add: spend_row_def)
    then show ?thesis using c p by (simp add: RecordTenant_def spend_row_def map_get_def Let_def)
  qed (use l in auto)
qed

lemma AllowTenant_eq:
  "AllowTenant eng t m pt mt now tr =
     (let x = spentForDay eng (tenantOrDefault t) (Format_day now) tr
      in (map_sum id (\<lambda>spent. spec_decision (budgetForTenant tr t) (tenantOrDefault t) spent (Pricer_Price (tr_pricer tr) m pt mt)) (fst x), snd x))"
  by (auto simp: AllowTenant_def Let_def spec_decision_def budgetForTenant_def split: prod.split sum.split)

lemma SnapshotTenant_eq:
  "SnapshotTenant eng t now tr =
     (let x = spentForDay eng (tenantOrDefault t) (Format_day now) tr
      in (map_sum id (\<lambda>spent. \<lparr>sn_TenantID = tenantOrDefault t, sn_Day = Format_day now, sn_SpentUSD = spent,
            sn_DailyBudgetUSD = bu_Daily (budgetForTenant tr t), sn_RequestBudgetUSD = bu_PerReq (budgetForTenant tr t)\<rparr>) (fst x), snd x))"
proof -
  obtain r tr1 where s: "spentForDay eng (tenantOrDefault t) (Format_day now) tr = (r, tr1)" by fastforce
  have "budgetForTenant tr1 (tenantOrDefault t) = budgetForTenant tr t"
    using same_settings_budget [OF spentForDay_total(2) [OF s]] by (simp add: budgetForTenant_def)
  then show ?thesis by (cases r) (simp_all add: SnapshotTenant_def s Let_def)
qed

lemma tracker_view_tod: "tracker_view table tr (tenantOrDefault t) = tracker_view table tr t"
  by (simp add: tracker_view_def spend_row_def budgetForTenant_def fun_eq_iff split: option.split)

lemma tracker_view_tenant: "tenantOrDefault u = tenantOrDefault t \<Longrightarrow> tracker_view table tr u = tracker_view table tr t"
  using tracker_view_tod by metis

lemma cost_step_ready: "tracker_ready ready tr \<Longrightarrow> tracker_ready ready (snd (cost_step eng t op tr))"
proof (cases op)
  case (OpRecord m pt ct now wall)
  assume r: "tracker_ready ready tr"
  show ?thesis
  proof (cases "tr_ledger tr")
    case None
    then have "tr_ledger (snd (RecordTenant eng t m pt ct now wall tr)) = None" using RecordTenant_settings(2) by simp
    then show ?thesis by (simp add: OpRecord tracker_ready_def case_prod_beta)
  next
    case (Some db)
    then show ?thesis using r AddSpend_ready RecordTenant_ledger(1) [OF Some]
      by (simp add: OpRecord tracker_ready_def case_prod_beta)
  qed
qed (simp_all add: AllowTenant_eq SnapshotTenant_eq Let_def tracker_ready_def spentForDay_view)

lemma cost_step_others:
  assumes "tenantOrDefault u \<noteq> tenantOrDefault t"
  shows "tracker_view table (snd (cost_step eng t op tr)) u = tracker_view table tr u"
proof (cases op)
  case (OpRecord m pt ct now wall)
  let ?y = "snd (RecordTenant eng t m pt ct now wall tr)"
  have "budgetForTenant ?y u = budgetForTenant tr u" "tr_pricer ?y = tr_pricer tr"
    using RecordTenant_settings(1) [of tr t m pt ct now wall] same_settings_budget [of tr ?y] by (simp_all add: same_settings_def)
  moreover have "spend_row table ?y u = spend_row table tr u" using RecordTenant_others [OF assms] by (simp add: fun_eq_iff)
  ultimately show ?thesis using RecordTenant_settings(2) by (simp add: OpRecord tracker_view_def case_prod_beta)
qed (simp_all add: AllowTenant_eq SnapshotTenant_eq Let_def spentForDay_view)

lemma cost_step_own:
  assumes "tracker_ready ready tr" and "tracker_ready ready tr'" and "tracker_view table tr t = tracker_view table tr' t"
  shows "fst (cost_step eng t op tr) = fst (cost_step eng t op tr') \<and>
    tracker_view table (snd (cost_step eng t op tr)) t = tracker_view table (snd (cost_step eng t op tr')) t"
proof -
  have b: "budgetForTenant tr t = budgetForTenant tr' t" "tr_pricer tr = tr_pricer tr'" using assms(3) by (simp_all add: tracker_view_def)
  have s: "fst (spentForDay eng (tenantOrDefault t) (Format_day now) tr) = fst (spentForDay eng (tenantOrDefault t) (Format_day now) tr')" for now
    using spentForDay_local [of tr tr' "tenantOrDefault t"] assms by (simp add: tracker_view_tod)
  show ?thesis
  proof (cases op)
    case (OpRecord m pt ct now wall)
    define y y' where "y = RecordTenant eng t m pt ct now wall tr" and "y' = RecordTenant eng t m pt ct now wall tr'"
    have "fst y = fst y'" "spend_row table (snd y) t = spend_row table (snd y') t"
      using RecordTenant_local [OF assms] by (simp_all add: y_def y'_def fun_eq_iff)
    moreover have "same_settings tr (snd y)" "same_settings tr' (snd y')"
      "(tr_ledger (snd y) = None) = (tr_ledger (snd y') = None)"
      using RecordTenant_settings assms(3) by (simp_all add: y_def y'_def tracker_view_def)
    ultimately have "fst y = fst y' \<and> tracker_view table (snd y) t = tracker_view table (snd y') t"
      using b same_settings_budget [of tr "snd y" t] same_settings_budget [of tr' "snd y'" t]
      by (simp add: tracker_view_def same_settings_def)
    then show ?thesis by (simp add: OpRecord y_def y'_def case_prod_beta)
  qed (simp_all add: AllowTenant_eq SnapshotTenant_eq Let_def spentForDay_view s b assms(3))
qed

end

sublocale live_ledger \<subseteq> isolated: tenant_isolation "cost_step eng" "tracker_view table" "tracker_ready ready"
proof
  fix tr t op
  show "tracker_ready ready tr \<Longrightarrow> tracker_ready ready (snd (cost_step eng t op tr))" by (rule cost_step_ready)
next
  fix tr t u op
  assume "tenantOrDefault u \<noteq> tenantOrDefault t"
  then show "tracker_view table (snd (cost_step eng t op tr)) (tenantOrDefault u) = tracker_view table tr (tenantOrDefault u)"
    by (intro cost_step_others) simp
next
  fix tr tr' t u op
  assume r: "tracker_ready ready tr" "tracker_ready ready tr'" and v: "tracker_view table tr (tenantOrDefault t) = tracker_view table tr' (tenantOrDefault t)"
    and u: "tenantOrDefault u = tenantOrDefault t"
  have "tracker_view table x (tenantOrDefault t) = tracker_view table x u" for x
    using tracker_view_tenant [of "tenantOrDefault t" u] u by simp
  then show "fst (cost_step eng u op tr) = fst (cost_step eng u op tr') \<and>
      tracker_view table (snd (cost_step eng u op tr)) (tenantOrDefault t) = tracker_view table (snd (cost_step eng u op tr')) (tenantOrDefault t)"
    using cost_step_own [OF r] v by simp
qed

context live_ledger
begin

lemma tenants_apart:
  "tracker_ready ready tr \<Longrightarrow> of_tenant t (tenant_run (cost_step eng) es tr) = tenant_run (cost_step eng) (of_tenant t es) tr"
  by (rule isolated.noninterference)

end

text \<open>The executable engine is ready once the table of the ledger is there in its present form.\<close>

definition lite_ready :: "lite \<Rightarrow> bool" where
  "lite_ready db \<longleftrightarrow> (case lc_spend (li_content db) of TenantSpend _ \<Rightarrow> True | _ \<Rightarrow> False)"

interpretation lite_live: live_ledger lite_engine lite_spend lite_ready
  by unfold_locales
    (auto simp: lite_engine_def statement_of run_stmt_def run_query_def upsert_spend_def select_spend_def lite_spend_def lite_ready_def map_of_upsert map_option_case
      split: spend_tab.splits option.splits if_splits)

text \<open>C14: tenants do not influence each other's budgets. In any interleaving of checks, records and snapshots of
  several tenants, each tenant gets the answers it would get if the others did not exist, errors included: for a tracker that keeps
  its totals itself, and for one over a ledger, as the program runs it, while the database answers a statement
  about a row after that row alone.\<close>

theorem tracker_noninterference:
  assumes "live_ledger eng table ready" and "tracker_ready ready tr"
  shows "of_tenant t (tenant_run (cost_step eng) es tr) = tenant_run (cost_step eng) (of_tenant t es) tr"
  using assms by (rule live_ledger.tenants_apart)

text \<open>A tracker over a ledger that has been opened on a new database, and two tenants that spend in turn.\<close>

definition ledger_tracker :: "lite Tracker" where
  "ledger_tracker = NewTrackerWithLedger small_cost (Some (snd (OpenSQLiteLedger lite_engine (\<lambda>_. 0) [] new_lite)))"

definition two_tenants :: "(string \<times> cost_op) list" where
  "two_tenants = [(''a'', OpAllow ''x'' 2 3 0), (''b'', OpAllow ''x'' 2 3 0), (''b'', OpRecord ''x'' 2 3 0 0),
     (''a'', OpRecord ''x'' 2 3 0 0), (''b'', OpAllow ''x'' 2 3 0), (''a'', OpSnapshot 0)]"

theorem tracker_noninterference_witness:
  "tr_ledger ledger_tracker \<noteq> None \<and>
   of_tenant ''a'' (tenant_run (cost_step lite_engine) two_tenants ledger_tracker) =
     tenant_run (cost_step lite_engine) [(''a'', OpAllow ''x'' 2 3 0), (''a'', OpRecord ''x'' 2 3 0 0), (''a'', OpSnapshot 0)] ledger_tracker"
proof -
  have "lite_ready (snd (OpenSQLiteLedger lite_engine (\<lambda>_. 0) [] new_lite))" by code_simp
  then have "tracker_ready lite_ready ledger_tracker"
    by (simp add: tracker_ready_def ledger_tracker_def NewTrackerWithLedger_def NewTrackerWithOptions_def)
  moreover have "of_tenant ''a'' two_tenants = [(''a'', OpAllow ''x'' 2 3 0), (''a'', OpRecord ''x'' 2 3 0 0), (''a'', OpSnapshot 0)]"
    by (simp add: of_tenant_def two_tenants_def tenantOrDefault_def)
  ultimately show ?thesis
    using tracker_noninterference [OF lite_live.live_ledger_axioms, of ledger_tracker "''a''" two_tenants]
    by (simp add: ledger_tracker_def NewTrackerWithLedger_def NewTrackerWithOptions_def)
qed

end
