(* ===== verification/Persistence.thy ===== *)
theory Persistence
  imports Lite
begin

text \<open>
  What the migrator and the audit store guarantee, over any engine that keeps the laws named in the statements:
  a failed migration leaves no trace, a completed run is recorded so that another run migrates nothing, and
  audit events come back as they were recorded, newest first.
\<close>

section \<open>Migrations are atomic\<close>

text \<open>The functions of the two migrators only execute statements, so they keep what a transaction remembers.\<close>

definition keeps_saved :: "('d \<Rightarrow> 'c) \<Rightarrow> 'd engine \<Rightarrow> 'd Migration \<Rightarrow> bool" where
  "keeps_saved saved eng m \<longleftrightarrow> (\<forall>db. saved (snd (applyMigration eng m db)) = saved db)"

context transactional
begin

lemma exec_saved': "se_exec eng q args db = (r, db') \<Longrightarrow> saved db' = saved db"
  using exec_saved [of q args db] by simp

lemma cost_keeps_saved: "m \<in> set (mr_Migrations (cost_migrator eng)) \<Longrightarrow> keeps_saved saved eng m"
  by (auto simp: cost_migrator_def keeps_saved_def applyMigration_def migrateTenantCostSpend_def costSpendHasTenantID_def
      Let_def split: prod.splits option.splits sum.splits bool.splits dest!: exec_saved')

lemma audit_keeps_saved: "m \<in> set (mr_Migrations (audit_migrator eng)) \<Longrightarrow> keeps_saved saved eng m"
  by (auto simp: audit_migrator_def keeps_saved_def applyMigration_def ensureAuditTenantID_def
      Let_def split: prod.splits option.splits sum.splits if_splits dest!: exec_saved')

lemma runMigration_atomic:
  assumes "keeps_saved saved eng m" and "runMigration eng now ns m db = (Some e, db')"
  shows "content db' = content db \<or> (\<exists>db3 e'. se_commit eng db3 = (Some e', db'))"
proof (cases "se_begin eng db")
  case (Pair r db1)
  show ?thesis
  proof (cases r)
    case (Some e1)
    then show ?thesis using assms(2) Pair begin_err by (auto simp: runMigration_def Let_def)
  next
    case None
    then have b: "saved db1 = content db" using begin_ok Pair by blast
    obtain r2 db2 where a: "applyMigration eng m db1 = (r2, db2)" by fastforce
    have s2: "saved db2 = content db" using assms(1) a b unfolding keeps_saved_def by (metis snd_conv)
    show ?thesis using assms(2) Pair None a s2 rollback
      by (auto simp: runMigration_def Let_def split: option.splits prod.splits dest!: exec_saved')
  qed
qed

end

text \<open>C19: a migration of either store that fails leaves no trace: the content of the database is what it was
  before, unless the engine's own commit failed.\<close>

theorem migration_atomic:
  assumes "transactional eng content saved"
    and "m \<in> set (mr_Migrations (cost_migrator eng)) \<union> set (mr_Migrations (audit_migrator eng))"
    and "runMigration eng now ns m db = (Some e, db')"
  shows "content db' = content db \<or> (\<exists>db3 e'. se_commit eng db3 = (Some e', db'))"
  using transactional.runMigration_atomic [OF assms(1)] transactional.cost_keeps_saved [OF assms(1)]
    transactional.audit_keeps_saved [OF assms(1)] assms(2,3) by blast

text \<open>The second audit migration before the first: the table is not there, and the migration fails.\<close>

theorem migration_atomic_witness:
  "fst (runMigration lite_engine 0 ''audit'' (mr_Migrations (audit_migrator lite_engine) ! 1) new_lite) \<noteq> None \<and>
   li_content (snd (runMigration lite_engine 0 ''audit'' (mr_Migrations (audit_migrator lite_engine) ! 1) new_lite)) = empty_content"
proof -
  obtain e db' where r: "runMigration lite_engine 0 ''audit'' (mr_Migrations (audit_migrator lite_engine) ! 1) new_lite = (Some e, db')"
    by (cases "runMigration lite_engine 0 ''audit'' (mr_Migrations (audit_migrator lite_engine) ! 1) new_lite";
        cases "fst (runMigration lite_engine 0 ''audit'' (mr_Migrations (audit_migrator lite_engine) ! 1) new_lite)")
      (auto simp: runMigration_def audit_migrator_def applyMigration_def ensureAuditTenantID_def auditEventsHasTenantID_def
        lite_engine_def statement_of statement_of_columns run_query_def run_stmt_def add_tenant_column_def new_lite_def empty_content_def)
  have "mr_Migrations (audit_migrator lite_engine) ! 1 \<in> set (mr_Migrations (audit_migrator lite_engine))"
    by (simp add: audit_migrator_def)
  from migration_atomic [OF lite_tx.transactional_axioms _ r] this
  have "li_content db' = li_content new_lite" by (auto simp: lite_engine_def)
  then show ?thesis unfolding r fst_conv snd_conv by (simp add: new_lite_def)
qed

section \<open>Recorded versions\<close>

text \<open>
  The statements on the table \<open>schema_migrations\<close>: an insertion adds a version, a selection returns those of a
  namespace, and neither the statements by which the two stores define their tables, nor a begin or commit, change them.
\<close>

definition definition_statements :: "string list" where
  "definition_statements = [q_create_migrations, q_create_spend, q_legacy_spend, q_create_events, q_add_tenant_column, q_tenant_index]"

locale version_table =
  fixes eng :: "'d engine" and versions :: "'d \<Rightarrow> (string \<times> int) set"
  assumes insert_version_ok: "se_exec eng q_insert_version [SText ns, SInt v, SText name, SText now] db = (None, db') \<Longrightarrow>
      versions db' = insert (ns, v) (versions db)"
    and other_stmt: "q \<in> set definition_statements \<Longrightarrow> versions (snd (se_exec eng q args db)) = versions db"
    and begin_versions: "versions (snd (se_begin eng db)) = versions db"
    and commit_versions: "se_commit eng db = (None, db') \<Longrightarrow> versions db' = versions db"
    and select_versions_ok: "se_query eng q_select_versions [SText ns] db = Inr (rows, None) \<Longrightarrow>
      \<exists>vs. rows = map (\<lambda>v. [SInt v]) vs \<and> set vs = {v. (ns, v) \<in> versions db}"

definition keeps_versions :: "('d \<Rightarrow> 'c) \<Rightarrow> 'd engine \<Rightarrow> 'd Migration \<Rightarrow> bool" where
  "keeps_versions versions eng m \<longleftrightarrow> (\<forall>db. versions (snd (applyMigration eng m db)) = versions db)"

lemma definition_statements_in:
  "q_create_migrations \<in> set definition_statements" "q_create_spend \<in> set definition_statements" "q_legacy_spend \<in> set definition_statements"
  "q_create_events \<in> set definition_statements" "q_add_tenant_column \<in> set definition_statements" "q_tenant_index \<in> set definition_statements"
  by (simp_all add: definition_statements_def)

context version_table
begin

lemma other_stmt': "se_exec eng q args db = (r, db') \<Longrightarrow> q \<in> set definition_statements \<Longrightarrow> versions db' = versions db"
  using other_stmt [of q args db] by simp

lemma cost_keeps_versions: "m \<in> set (mr_Migrations (cost_migrator eng)) \<Longrightarrow> keeps_versions versions eng m"
  using definition_statements_in
  by (auto simp: cost_migrator_def keeps_versions_def applyMigration_def migrateTenantCostSpend_def costSpendHasTenantID_def
      Let_def split: prod.splits option.splits sum.splits bool.splits dest!: other_stmt')

lemma audit_keeps_versions: "m \<in> set (mr_Migrations (audit_migrator eng)) \<Longrightarrow> keeps_versions versions eng m"
  using definition_statements_in
  by (auto simp: audit_migrator_def keeps_versions_def applyMigration_def ensureAuditTenantID_def
      Let_def split: prod.splits option.splits sum.splits if_splits dest!: other_stmt')

lemma runMigration_records:
  assumes "keeps_versions versions eng m" and "runMigration eng now ns m db = (None, db')"
  shows "versions db' = insert (ns, mg_Version m) (versions db)"
proof -
  obtain db1 db2 db3 where s: "se_begin eng db = (None, db1)" "applyMigration eng m db1 = (None, db2)"
    "se_exec eng q_insert_version [SText ns, SInt (mg_Version m), SText (mg_Name m), SText (Format_RFC3339Nano now)] db2 = (None, db3)"
    "se_commit eng db3 = (None, db')"
    using assms(2) by (auto simp: runMigration_def Let_def split: prod.splits option.splits)
  have "versions db1 = versions db" using begin_versions [of db] s(1) by simp
  moreover have "versions db2 = versions db1" using assms(1) s(2) unfolding keeps_versions_def by (metis snd_conv)
  ultimately show ?thesis using insert_version_ok [OF s(3)] commit_versions [OF s(4)] by simp
qed

lemma run_migrations_records:
  assumes "\<forall>m \<in> set ms. keeps_versions versions eng m"
  shows "run_migrations eng clock ns applied ms db = (None, db') \<Longrightarrow> \<forall>v \<in> set applied. (ns, v) \<in> versions db \<Longrightarrow>
    versions db \<subseteq> versions db' \<and> (\<forall>m \<in> set ms. (ns, mg_Version m) \<in> versions db')"
  using assms
proof (induction ms arbitrary: db)
  case (Cons m ms)
  show ?case
  proof (cases "mg_Version m \<in> set applied")
    case True
    then show ?thesis using Cons by auto
  next
    case False
    then obtain db1 where r: "runMigration eng (clock (mg_Version m)) ns m db = (None, db1)"
      "run_migrations eng clock ns applied ms db1 = (None, db')"
      using Cons.prems(1) by (auto split: prod.splits option.splits)
    have "versions db1 = insert (ns, mg_Version m) (versions db)" using runMigration_records r(1) Cons.prems(3) by simp
    then show ?thesis using Cons.IH [OF r(2)] Cons.prems by auto
  qed
qed simp

lemma scan_versions_ints: "scan_versions (map (\<lambda>v. [SInt v]) vs) acc = Inr (rev vs @ acc)"
  by (induction vs arbitrary: acc) auto

lemma appliedVersions_exact:
  assumes "appliedVersions eng ns db = Inr applied"
  shows "set applied = {v. (ns, v) \<in> versions db}"
proof -
  obtain rows where q: "se_query eng q_select_versions [SText ns] db = Inr (rows, None)" "scan_versions rows [] = Inr applied"
    using assms by (auto simp: appliedVersions_def split: sum.splits prod.splits option.splits)
  obtain vs where "rows = map (\<lambda>v. [SInt v]) vs" "set vs = {v. (ns, v) \<in> versions db}"
    using select_versions_ok [OF q(1)] by blast
  then show ?thesis using q(2) by (metis Inr_inject append_Nil2 scan_versions_ints set_rev)
qed

lemma run_migrations_applied:
  "\<forall>m \<in> set ms. mg_Version m \<in> set applied \<Longrightarrow> run_migrations eng clock ns applied ms db = (None, db)"
  by (induction ms) auto

lemma Migrator_Run_records:
  assumes keep: "\<forall>m \<in> set (mr_Migrations mg). keeps_versions versions eng m"
    and run: "Migrator_Run eng clock mg db = (None, db')"
  shows "\<forall>m \<in> set (mr_Migrations mg). (mr_Namespace mg, mg_Version m) \<in> versions db'"
    and "ensureMigrationTable eng db' = (None, db1) \<Longrightarrow> appliedVersions eng (mr_Namespace mg) db1 = Inr applied' \<Longrightarrow>
      Migrator_Run eng clock' mg db' = (None, db1)"
proof -
  obtain db0 applied where a: "appliedVersions eng (mr_Namespace mg) db0 = Inr applied"
    "run_migrations eng clock (mr_Namespace mg) applied (mr_Migrations mg) db0 = (None, db')"
    using run by (auto simp: Migrator_Run_def split: prod.splits option.splits sum.splits)
  show rec: "\<forall>m \<in> set (mr_Migrations mg). (mr_Namespace mg, mg_Version m) \<in> versions db'"
    using run_migrations_records [OF keep a(2)] appliedVersions_exact [OF a(1)] by auto
  assume e: "ensureMigrationTable eng db' = (None, db1)" and v: "appliedVersions eng (mr_Namespace mg) db1 = Inr applied'"
  have "versions db1 = versions db'"
    using e definition_statements_in(1) by (auto simp: ensureMigrationTable_def split: prod.splits option.splits dest!: other_stmt')
  then have "\<forall>m \<in> set (mr_Migrations mg). mg_Version m \<in> set applied'" using rec appliedVersions_exact [OF v] by auto
  then show "Migrator_Run eng clock' mg db' = (None, db1)"
    by (simp add: Migrator_Run_def e v run_migrations_applied)
qed

end

text \<open>C18: migrations run once. After a successful run of either store's migrator every version of its list is
  recorded under its namespace, and any later run that can read the records succeeds without running a migration:
  the database is the one it found.\<close>

theorem migrations_run_once:
  assumes "version_table eng versions" and "mg \<in> {cost_migrator eng, audit_migrator eng}"
    and "Migrator_Run eng clock mg db = (None, db')"
  shows "(\<forall>m \<in> set (mr_Migrations mg). (mr_Namespace mg, mg_Version m) \<in> versions db') \<and>
    (\<forall>clock' db1 applied. ensureMigrationTable eng db' = (None, db1) \<and> appliedVersions eng (mr_Namespace mg) db1 = Inr applied
       \<longrightarrow> Migrator_Run eng clock' mg db' = (None, db1))"
proof -
  have "\<forall>m \<in> set (mr_Migrations mg). keeps_versions versions eng m"
    using assms(2) version_table.cost_keeps_versions [OF assms(1)] version_table.audit_keeps_versions [OF assms(1)] by auto
  then show ?thesis using version_table.Migrator_Run_records [OF assms(1) _ assms(3)] by blast
qed

definition lite_versions :: "lite \<Rightarrow> (string \<times> int) set" where
  "lite_versions db = (case lc_versions (li_content db) of None \<Rightarrow> {} | Some vs \<Rightarrow> set vs)"

lemma definition_statement: "q \<in> set definition_statements \<Longrightarrow> map_of statements q \<noteq> Some InsertVersion"
proof -
  have "list_all (\<lambda>q. map_of statements q \<noteq> Some InsertVersion) definition_statements" by code_simp
  then show "q \<in> set definition_statements \<Longrightarrow> ?thesis" by (simp add: list_all_iff)
qed

lemma run_stmt_versions:
  "st \<noteq> InsertVersion \<Longrightarrow> lite_versions (db\<lparr>li_content := snd (run_stmt st args (li_content db))\<rparr>) = lite_versions db"
  by (cases st) (auto simp: run_stmt_def lite_versions_def copy_legacy_spend_def upsert_spend_def add_tenant_column_def
      insert_event_def split: option.splits spend_tab.splits event_tab.splits list.splits sqlval.splits if_splits)

lemma run_stmt_versions':
  "run_stmt st args (li_content db) = (r, c) \<Longrightarrow> st \<noteq> InsertVersion \<Longrightarrow> lite_versions (db\<lparr>li_content := c\<rparr>) = lite_versions db"
  using run_stmt_versions [of st] by (metis snd_conv)

interpretation lite_migrations: version_table lite_engine lite_versions
proof
  fix q args db assume "q \<in> set definition_statements"
  then show "lite_versions (snd (se_exec lite_engine q args db)) = lite_versions db"
    using definition_statement [of q] run_stmt_versions' [where db = db and args = args]
    by (simp add: lite_engine_def split: option.splits prod.splits) metis
next
  fix ns v name now db db'
  assume "se_exec lite_engine q_insert_version [SText ns, SInt v, SText name, SText now] db = (None, db')"
  then show "lite_versions db' = insert (ns, v) (lite_versions db)"
    by (auto simp: lite_engine_def statement_of run_stmt_def insert_version_def lite_versions_def split: option.splits if_splits)
next
  fix ns db rows
  assume "se_query lite_engine q_select_versions [SText ns] db = Inr (rows, None)"
  then obtain vs where vs: "lc_versions (li_content db) = Some vs"
    and rows: "rows = map (\<lambda>(_, v). [SInt v]) (filter (\<lambda>(n, _). n = ns) vs)"
    by (auto simp: lite_engine_def statement_of run_query_def select_versions_def split: option.splits)
  show "\<exists>vs. rows = map (\<lambda>v. [SInt v]) vs \<and> set vs = {v. (ns, v) \<in> lite_versions db}"
    by (rule exI [of _ "map snd (filter (\<lambda>(n, _). n = ns) vs)"]) (auto simp: rows vs lite_versions_def image_iff)
qed (auto simp: lite_engine_def lite_versions_def)

theorem migrations_run_once_witness:
  "Migrator_Run lite_engine (\<lambda>_. 0) (cost_migrator lite_engine) new_lite =
     (None, snd (Migrator_Run lite_engine (\<lambda>_. 0) (cost_migrator lite_engine) new_lite)) \<and>
   (''cost'', 1) \<in> lite_versions (snd (Migrator_Run lite_engine (\<lambda>_. 0) (cost_migrator lite_engine) new_lite))"
proof -
  have ok: "fst (Migrator_Run lite_engine (\<lambda>_. 0) (cost_migrator lite_engine) new_lite) = None" by code_simp
  then have r: "Migrator_Run lite_engine (\<lambda>_. 0) (cost_migrator lite_engine) new_lite =
     (None, snd (Migrator_Run lite_engine (\<lambda>_. 0) (cost_migrator lite_engine) new_lite))" by (metis prod.collapse)
  from migrations_run_once [OF lite_migrations.version_table_axioms _ r]
  have "(''cost'', 1) \<in> lite_versions (snd (Migrator_Run lite_engine (\<lambda>_. 0) (cost_migrator lite_engine) new_lite))"
    by (simp add: cost_migrator_def)
  then show ?thesis using r by simp
qed

section \<open>The audit trail\<close>

text \<open>C10: what the audit store records it returns. After a list of events has been recorded on an empty table, a
  successful read with any limit gives the newest of them first, at most the clamped limit, each equal to the event
  recorded up to its database id and the default tenant.\<close>

theorem audit_round_trip:
  assumes table: "audit_table eng rows_of" and "rows_of db = []" and ok: "list_all event_ok es"
    and rec: "record_all eng es db = (None, db')" and read: "Recent eng terr limit db' = Inr evs"
  shows "\<exists>is. length is = length es \<and> evs = take (nat (clamp_limit limit)) (rev (map2 stored is es))"
proof -
  obtain "is" where l: "length is = length es"
    and rows: "rows_of db' = map (\<lambda>(i, e). SInt i # event_args e) (zip is es)"
    using audit_table.record_all_rows [OF table rec] assms(2) by auto
  define n where "n = nat (clamp_limit limit)"
  obtain rs where q: "se_query eng q_recent_events [SInt (clamp_limit limit)] db' = Inr (rs, None)"
    and r: "read_events eng terr rs [] = Inr evs"
    using read by (auto simp: Recent_def split: sum.splits option.splits)
  have len: "length (take n (rev is)) = length (take n (rev es))" using l by simp
  have "rs = map (\<lambda>(i, e). SInt i # event_args e) (zip (take n (rev is)) (take n (rev es)))"
    using audit_table.recent_ok [OF table q] rows l by (simp add: n_def rev_map take_map zip_rev flip: take_zip)
  moreover have "list_all event_ok (take n (rev es))" using ok by (auto simp: list_all_iff dest: in_set_takeD)
  ultimately have "evs = map2 stored (take n (rev is)) (take n (rev es))"
    using read_events_stored [OF _ len, of eng terr "[]"] r by simp
  then have "evs = take n (rev (map2 stored is es))" using l by (simp add: rev_map take_map zip_rev flip: take_zip)
  then show ?thesis using l n_def by blast
qed

definition sample_event :: "string \<Rightarrow> int \<Rightarrow> Event" where
  "sample_event tenant status =
     \<lparr>ev_ID = 0, ev_Timestamp = 1500000000, ev_RequestID = ''r'', ev_TenantID = tenant, ev_Route = ''/v1/chat/completions'',
      ev_Provider = ''openai'', ev_Model = ''gpt-4o'', ev_Status = status, ev_PromptTokens = 7, ev_CompletionTokens = 3,
      ev_CostUSD = Fin 0, ev_SecurityAction = ''allow'', ev_LatencyMillis = 12\<rparr>"

definition empty_trail :: lite where
  "empty_trail = new_lite\<lparr>li_content := empty_content\<lparr>lc_events := Events []\<rparr>\<rparr>"

text \<open>Three events on an empty table, of which the last two are asked for.\<close>

theorem audit_round_trip_witness:
  "\<exists>is. length is = (3::nat) \<and>
     Recent lite_engine (\<lambda>_. []) 2
       (snd (record_all lite_engine [sample_event ''acme'' 200, sample_event [] 200, sample_event ''acme'' 429] empty_trail)) =
     Inr (take 2 (rev (map2 stored is [sample_event ''acme'' 200, sample_event [] 200, sample_event ''acme'' 429])))"
proof -
  let ?es = "[sample_event ''acme'' 200, sample_event [] 200, sample_event ''acme'' 429]"
  let ?db = "snd (record_all lite_engine ?es empty_trail)"
  have e: "lite_events empty_trail = []" by (simp add: lite_events_def empty_trail_def)
  have ok: "list_all event_ok ?es" by (simp add: event_ok_def sample_event_def seconds_per_day_def nanos_per_second_def)
  have "fst (record_all lite_engine ?es empty_trail) = None"
    by (simp add: Audit_Record_def empty_trail_def lite_engine_def statement_of run_stmt_def insert_event_def event_args_def sample_event_def)
  then have rec: "record_all lite_engine ?es empty_trail = (None, ?db)" by (metis prod.collapse)
  have "\<not> isl (Recent lite_engine (\<lambda>_. []) 2 ?db)"
    by (simp add: Recent_def clamp_limit_def Audit_Record_def empty_trail_def lite_engine_def statement_of run_stmt_def run_query_def
        insert_event_def recent_events_def event_args_def scan_event_def sample_event_def Parse_Format seconds_per_day_def
        nanos_per_second_def)
  then obtain evs where read: "Recent lite_engine (\<lambda>_. []) 2 ?db = Inr evs" by (cases "Recent lite_engine (\<lambda>_. []) 2 ?db") auto
  show ?thesis using audit_round_trip [OF lite_audit.audit_table_axioms e ok rec read] read
    by (simp add: clamp_limit_def eval_nat_numeral)
qed

end
