(* ===== verification/Pipeline.thy ===== *)
theory Pipeline
  imports Gateway Upstream Spending Persistence
begin

text \<open>
  What the handlers do to the server. The first lemmas say which parts each operation leaves alone
  (collection \<open>gw_frame\<close>); then: the candidates are tried like a search for the first usable one, a request is
  forwarded exactly when it is admitted, and a request that is answered has one audit record.
\<close>

section \<open>Frames\<close>

text \<open>Nothing but the log differs.\<close>

definition quiet :: "'d Server \<Rightarrow> 'd Server \<Rightarrow> bool" where
  "quiet s s' \<longleftrightarrow> (\<exists>l. s' = s\<lparr>sv_log := l\<rparr>)"

lemma quiet_refl [simp]: "quiet s s"
  unfolding quiet_def by (metis Server.surjective Server.update_convs(9))

lemma quiet_log [simp]: "quiet s (s\<lparr>sv_log := l\<rparr>)"
  unfolding quiet_def by blast

lemma quiet_log_left [simp]: "quiet (s\<lparr>sv_log := l\<rparr>) u \<longleftrightarrow> quiet s u"
  unfolding quiet_def by simp

lemma quiet_trans: "quiet s t \<Longrightarrow> quiet t u \<Longrightarrow> quiet s u"
  unfolding quiet_def by auto

lemma quiet_fields:
  assumes "quiet s s'"
  shows "sv_cfg s' = sv_cfg s" "sv_auth s' = sv_auth s" "sv_router s' = sv_router s" "sv_guard s' = sv_guard s"
    "sv_costs s' = sv_costs s" "sv_limits s' = sv_limits s" "sv_audit s' = sv_audit s" "sv_metrics s' = sv_metrics s"
  using assms unfolding quiet_def by auto

lemma WriteHeader_valid:
  "rw_Status w = None \<Longrightarrow> 200 \<le> c \<Longrightarrow> c \<le> 999 \<Longrightarrow> WriteHeader c w = Some (w\<lparr>rw_Status := Some c, rw_Sent := rw_Header w\<rparr>)"
  by (simp add: WriteHeader_def)

lemma set_rw_Status [simp]: "rw_Status (set_rw k v w) = rw_Status w"
  by (simp add: set_rw_def)

lemma rw_Write_Status:
  "rw_Write f d w = (e, w') \<Longrightarrow> rw_Status w' = Some (case rw_Status w of None \<Rightarrow> 200 | Some c \<Rightarrow> c)"
  by (auto simp: rw_Write_def Let_def split: if_splits option.splits)

lemma writeJSON_quiet: "quiet s (snd (writeJSON env c p w s))"
  by (auto simp: writeJSON_def split: option.splits sum.splits prod.splits)

lemma writeJSON_status:
  assumes "rw_Status w = None" and "200 \<le> c" and "c \<le> 999"
  shows "\<exists>w'. fst (writeJSON env c p w s) = Some w' \<and> rw_Status w' = Some c"
  using assms
  by (auto simp: writeJSON_def WriteHeader_valid split: option.splits sum.splits prod.splits dest: rw_Write_Status)

lemma writeJSON_ex:
  assumes "rw_Status w = None" and "200 \<le> c" and "c \<le> 999"
  shows "\<exists>w' s'. writeJSON env c p w s = (Some w', s') \<and> rw_Status w' = Some c \<and> quiet s s'"
  using writeJSON_status [OF assms, of env p s] writeJSON_quiet [of s env c p w] by (metis prod.collapse)

lemma writeError_ex:
  assumes "rw_Status w = None" and "200 \<le> c" and "c \<le> 999"
  shows "\<exists>w' s'. writeError env c m w s = (Some w', s') \<and> rw_Status w' = Some c \<and> quiet s s'"
  unfolding writeError_def by (rule writeJSON_ex [OF assms])

lemma blocked_fields [simp]:
  "sv_cfg (blocked s) = sv_cfg s" "sv_auth (blocked s) = sv_auth s" "sv_router (blocked s) = sv_router s"
  "sv_guard (blocked s) = sv_guard s" "sv_costs (blocked s) = sv_costs s" "sv_limits (blocked s) = sv_limits s"
  "sv_audit (blocked s) = sv_audit s" "sv_log (blocked s) = sv_log s" "sv_metrics (blocked s) = RecordBlocked (sv_metrics s)"
  by (simp_all add: blocked_def)

lemma recordAudit_fields [simp]:
  "sv_cfg (recordAudit eng env ctx i s) = sv_cfg s" "sv_auth (recordAudit eng env ctx i s) = sv_auth s"
  "sv_router (recordAudit eng env ctx i s) = sv_router s" "sv_guard (recordAudit eng env ctx i s) = sv_guard s"
  "sv_costs (recordAudit eng env ctx i s) = sv_costs s" "sv_limits (recordAudit eng env ctx i s) = sv_limits s"
  "sv_metrics (recordAudit eng env ctx i s) = sv_metrics s"
  "sv_audit (recordAudit eng env ctx i s) = snd (Audit_Record eng (audit_event env ctx i) (sv_audit s))"
  by (simp_all add: recordAudit_def split: prod.splits option.splits)

lemma recordUsage_fields:
  assumes "recordUsage eng env t m pt ct s = (u, s')"
  shows "sv_cfg s' = sv_cfg s" "sv_auth s' = sv_auth s" "sv_router s' = sv_router s" "sv_guard s' = sv_guard s"
    "sv_limits s' = sv_limits s" "sv_audit s' = sv_audit s" "sv_metrics s' = sv_metrics s"
    "sv_costs s' = snd (RecordTenant eng t m pt ct (he_record_now env) (he_record_wall env) (sv_costs s))"
  using assms by (auto simp: recordUsage_def split: prod.splits sum.splits)

lemma writeStream_quiet: "quiet s (snd (writeStream env up w s))"
  by (auto simp: writeStream_def Let_def split: option.splits prod.splits)

section \<open>Failover\<close>

text \<open>
  The outcome of asking the \<open>j\<close>-th candidate, each in the state it has before the request, and whether it ends the
  search: a usable response, or a panic.
\<close>

definition attempt :: "request_env \<Rightarrow> ChatCompletionRequest \<Rightarrow> string \<Rightarrow> Router \<Rightarrow> nat list \<Rightarrow> nat \<Rightarrow> UpstreamResponse result option" where
  "attempt env chat body r cs j = fst (ChatCompletions (he_upstream env j) chat body (r ! (cs ! j)))"

fun final :: "UpstreamResponse result option \<Rightarrow> bool" where
  "final None = True"
| "final (Some (Inl _)) = False"
| "final (Some (Inr up)) = (ur_Status up \<noteq> 429 \<and> ur_Status up < 500)"

fun failure_text :: "Provider \<Rightarrow> UpstreamResponse result option \<Rightarrow> string" where
  "failure_text p (Some (Inl e)) = e"
| "failure_text p (Some (Inr up)) = ''provider '' @ pv_Name p @ '' returned '' @ Itoa (ur_Status up)"
| "failure_text p None = []"

lemma NextKey_name: "pv_Name (snd (NextKey p)) = pv_Name p"
  by (simp add: NextKey_def Let_def)

lemma NextKey_name': "NextKey p = (k, p') \<Longrightarrow> pv_Name p' = pv_Name p"
  using NextKey_name [of p] by simp

lemma ChatCompletions_name: "pv_Name (snd (ChatCompletions env chat body p)) = pv_Name p"
  by (auto simp: ChatCompletions_def openAI_def anthropic_def google_def googleEndpoint_def Let_def
      split: ProviderType.splits sum.splits prod.splits option.splits if_splits dest: NextKey_name')

text \<open>One attempt: the state after it, and whether the search goes on.\<close>

definition after_attempt :: "nat \<Rightarrow> nat \<Rightarrow> Provider \<Rightarrow> 'd Server \<Rightarrow> 'd Server" where
  "after_attempt i c p s = s\<lparr>sv_metrics := (if 0 < i then RecordFailover (sv_metrics s) else sv_metrics s),
     sv_router := (sv_router s)[c := p]\<rparr>"

lemma try_candidates_step:
  assumes "ChatCompletions (he_upstream env i) chat body (sv_router s ! c) = (out, p)"
  shows "try_candidates env chat body i (c # cs) e s =
    (if final out then (out, after_attempt i c p s)
     else try_candidates env chat body (Suc i) cs (failure_text (sv_router s ! c) out) (after_attempt i c p s))"
proof -
  have "pv_Name p = pv_Name (sv_router s ! c)"
    using ChatCompletions_name [of "he_upstream env i" chat body "sv_router s ! c"] assms by simp
  then show ?thesis using assms by (auto simp: Let_def after_attempt_def split: option.splits sum.splits)
qed

lemma try_candidates_search:
  assumes "distinct cs" and "set cs \<subseteq> {..<length (sv_router s)}"
    and "try_candidates env chat body i cs e s = (res, s')"
  shows "\<exists>k \<le> length cs. (\<forall>j < k. \<not> final (fst (ChatCompletions (he_upstream env (i + j)) chat body (sv_router s ! (cs ! j))))) \<and>
    (if k < length cs
     then res = fst (ChatCompletions (he_upstream env (i + k)) chat body (sv_router s ! (cs ! k))) \<and> final res
     else res = Some (Inl (if cs = [] then e
       else failure_text (sv_router s ! last cs)
              (fst (ChatCompletions (he_upstream env (i + (length cs - 1))) chat body (sv_router s ! last cs)))))) \<and>
    rg_failovers (sv_metrics s') = rg_failovers (sv_metrics s) +
      of_nat (if cs = [] then 0 else min k (length cs - 1) + (if 0 < i then 1 else 0)) \<and>
    (\<forall>c. c \<notin> set (take (Suc k) cs) \<longrightarrow> sv_router s' ! c = sv_router s ! c)"
  using assms
proof (induction cs arbitrary: i e s)
  case Nil
  then show ?case by simp
next
  case (Cons c cs)
  obtain out p where cc: "ChatCompletions (he_upstream env i) chat body (sv_router s ! c) = (out, p)" by fastforce
  define s1 where "s1 = after_attempt i c p s"
  note step = try_candidates_step [OF cc, of cs e, folded s1_def]
  have fm: "rg_failovers (sv_metrics s1) = rg_failovers (sv_metrics s) + of_nat (if 0 < i then 1 else 0)"
    by (simp add: s1_def after_attempt_def RecordFailover_def)
  have rt: "sv_router s1 = (sv_router s)[c := p]" by (simp add: s1_def after_attempt_def)
  show ?case
  proof (cases "final out")
    case True
    then have r: "res = out" "s' = s1" using step Cons.prems(3) by auto
    show ?thesis
      by (rule exI [of _ 0]) (use True r cc fm rt in auto)
  next
    case False
    have r1: "sv_router s1 ! d = sv_router s ! d" if "d \<noteq> c" for d using that by (simp add: rt)
    have ne: "cs ! j \<noteq> c" if "j < length cs" for j using Cons.prems(1) that by auto
    have pre: "distinct cs" "set cs \<subseteq> {..<length (sv_router s1)}" using Cons.prems(1,2) by (auto simp: rt)
    have tc: "try_candidates env chat body (Suc i) cs (failure_text (sv_router s ! c) out) s1 = (res, s')"
      using step False Cons.prems(3) by simp
    obtain k where k: "k \<le> length cs"
      "\<forall>j < k. \<not> final (fst (ChatCompletions (he_upstream env (Suc i + j)) chat body (sv_router s1 ! (cs ! j))))"
      "if k < length cs
       then res = fst (ChatCompletions (he_upstream env (Suc i + k)) chat body (sv_router s1 ! (cs ! k))) \<and> final res
       else res = Some (Inl (if cs = [] then failure_text (sv_router s ! c) out
         else failure_text (sv_router s1 ! last cs)
              (fst (ChatCompletions (he_upstream env (Suc i + (length cs - 1))) chat body (sv_router s1 ! last cs)))))"
      "rg_failovers (sv_metrics s') = rg_failovers (sv_metrics s1) + of_nat (if cs = [] then 0 else min k (length cs - 1) + 1)"
      "\<forall>d. d \<notin> set (take (Suc k) cs) \<longrightarrow> sv_router s' ! d = sv_router s1 ! d"
      using Cons.IH [OF pre tc] by auto
    have last: "sv_router s1 ! last cs = sv_router s ! last cs" if "cs \<noteq> []"
      using that Cons.prems(1) r1 by (metis distinct.simps(2) last_in_set)
    show ?thesis
    proof (intro exI [of _ "Suc k"] conjI allI impI)
      fix j assume "j < Suc k"
      then show "\<not> final (fst (ChatCompletions (he_upstream env (i + j)) chat body (sv_router s ! ((c # cs) ! j))))"
        using False cc k(1,2) ne r1 by (cases j) auto
    next
      fix d assume "d \<notin> set (take (Suc (Suc k)) (c # cs))"
      then show "sv_router s' ! d = sv_router s ! d" using k(5) r1 by auto
    next
      show "rg_failovers (sv_metrics s') = rg_failovers (sv_metrics s) +
          of_nat (if c # cs = [] then 0 else min (Suc k) (length (c # cs) - 1) + (if 0 < i then 1 else 0))"
        using k(1,4) fm by (cases cs) (auto simp: min_def split: if_splits)
    next
      show "if Suc k < length (c # cs)
        then res = fst (ChatCompletions (he_upstream env (i + Suc k)) chat body (sv_router s ! ((c # cs) ! Suc k))) \<and> final res
        else res = Some (Inl (if c # cs = [] then e else failure_text (sv_router s ! last (c # cs))
          (fst (ChatCompletions (he_upstream env (i + (length (c # cs) - 1))) chat body (sv_router s ! last (c # cs))))))"
        using k(1,3) r1 ne last cc by (cases cs) (auto split: if_splits)
    qed (use k(1) in simp)
  qed
qed

lemma Candidates_distinct: "distinct (Candidates r m)"
  by (simp add: Candidates_def Let_def)

lemma Candidates_bound: "set (Candidates r m) \<subseteq> {..<length r}"
  by (auto simp: Candidates_def Let_def)

text \<open>C7: failover. Of the candidates of a model the gateway uses the first one, in order, that returns a usable response
  (neither an error, nor 429, nor 5xx); if none does, the error is that of the last one. Each candidate is asked at
  most once, the candidates after the chosen one are not asked, and the failover counter grows by the number of
  candidates passed over.\<close>

theorem failover_first_usable:
  assumes "Candidates (sv_router s) (ch_Model chat) = cs" and "cs \<noteq> []" and "callProviders env chat body s = (res, s')"
  shows "\<exists>k \<le> length cs. (\<forall>j < k. \<not> final (attempt env chat body (sv_router s) cs j)) \<and>
    (if k < length cs
     then res = attempt env chat body (sv_router s) cs k \<and> final res
     else res = Some (Inl (failure_text (sv_router s ! last cs) (attempt env chat body (sv_router s) cs (length cs - 1))))) \<and>
    rg_failovers (sv_metrics s') = rg_failovers (sv_metrics s) + of_nat (min k (length cs - 1)) \<and>
    (\<forall>c. c \<notin> set (take (Suc k) cs) \<longrightarrow> sv_router s' ! c = sv_router s ! c)"
proof -
  have "try_candidates env chat body 0 cs [] s = (res, s')" using assms by (simp add: callProviders_def)
  moreover have "distinct cs" "set cs \<subseteq> {..<length (sv_router s)}"
    using assms(1) Candidates_distinct [of "sv_router s"] Candidates_bound [of "sv_router s"] by auto
  ultimately show ?thesis using try_candidates_search [of cs s env chat body 0 "[]" res s'] assms(2)
    unfolding attempt_def last_conv_nth [OF assms(2)] by (simp only: add_0_left add_0_right if_False less_irrefl)
qed

section \<open>A small server\<close>

text \<open>Two providers of which the first is down, on the reference engine; used to instantiate the theorems.\<close>

definition demo_provider :: "string \<Rightarrow> Provider" where
  "demo_provider name = \<lparr>pv_baseURL = url_empty\<lparr>url_Scheme := ''https'', url_Host := ''up''\<rparr>, pv_timeout = 0, pv_keys = [''k''],
     pv_models = [], pv_Name = name, pv_Type = ProviderOpenAI, pv_nextKey = 0\<rparr>"

definition demo_upstream :: "nat \<Rightarrow> upstream_env" where
  "demo_upstream i = \<lparr>ue_client = (\<lambda>_ _. if i = 0 then Inl ''refused''
     else Inr \<lparr>hs_StatusCode = 200, hs_Header = [], hs_Body = (''{}'', None)\<rparr>), ue_now1 = 0, ue_now2 = 0, ue_jerr = (\<lambda>_. [])\<rparr>"

definition demo_env :: request_env where
  "demo_env = \<lparr>he_rand = None, he_limit_now = 0, he_allow_now = 0, he_record_now = 0, he_record_wall = 0, he_snapshot_now = 0,
     he_audit_now = 0, he_latency = 0, he_upstream = demo_upstream, he_write_err = None, he_flusher = True,
     he_jerr = (\<lambda>_. []), he_terr = (\<lambda>_. [])\<rparr>"

definition demo_chat :: ChatCompletionRequest where
  "demo_chat = \<lparr>ch_Model = ''m'', ch_Messages = ([\<lparr>cm_Role = ''user'', cm_Content = Some (JStr ''hi'')\<rparr>], 1), ch_Stream = False,
     ch_MaxTokens = 0, ch_Temperature = None\<rparr>"

definition demo_router :: Router where
  "demo_router = [demo_provider ''a'', demo_provider ''b'']"

definition demo_server :: "lite Server" where
  "demo_server = \<lparr>sv_cfg = Default, sv_auth = NewManagerWithVerifier Default None,
     sv_router = demo_router, sv_guard = NewGuard (\<lambda>_. None) (cfg_Security Default),
     sv_costs = small_tracker, sv_limits = None, sv_audit = empty_trail, sv_metrics = NewRegistry, sv_log = []\<rparr>"

lemma demo_router_eq: "sv_router demo_server = demo_router"
  by (simp add: demo_server_def)

lemma demo_attempts:
  "Candidates (sv_router demo_server) (ch_Model demo_chat) = [0, 1]"
  "attempt demo_env demo_chat [] (sv_router demo_server) [0, 1] 0 = Some (Inl ''call provider a: refused'')"
  "attempt demo_env demo_chat [] (sv_router demo_server) [0, 1] 1 = Some (Inr (plain_response [] ''{}'' ''b'' 200))"
  unfolding demo_router_eq by code_simp+

theorem failover_first_usable_witness:
  "fst (callProviders demo_env demo_chat [] demo_server) = Some (Inr (plain_response [] ''{}'' ''b'' 200)) \<and>
   rg_failovers (sv_metrics (snd (callProviders demo_env demo_chat [] demo_server))) = 1"
proof -
  obtain res s' where c: "callProviders demo_env demo_chat [] demo_server = (res, s')" by fastforce
  let ?at = "attempt demo_env demo_chat [] (sv_router demo_server) [0, 1]"
  from failover_first_usable [OF demo_attempts(1) _ c] obtain k where k: "k \<le> length [0, 1 :: nat]" "\<forall>j < k. \<not> final (?at j)"
    "k < length [0, 1 :: nat] \<Longrightarrow> res = ?at k \<and> final res"
    "rg_failovers (sv_metrics s') = rg_failovers (sv_metrics demo_server) + of_nat (min k (length [0, 1 :: nat] - 1))"
    by (metis list.distinct(1))
  have "k \<noteq> 0"
  proof
    assume "k = 0"
    then show False using k(3) demo_attempts(2) by auto
  qed
  moreover have "k \<noteq> 2"
  proof
    assume "k = 2"
    then have "\<not> final (?at 1)" using k(2) by simp
    then show False using demo_attempts(3) by (simp add: plain_response_def)
  qed
  ultimately have "k = 1" using k(1) by simp
  then show ?thesis using k(3,4) demo_attempts(3) c by (simp add: demo_server_def NewRegistry_def)
qed

section \<open>Admission\<close>

text \<open>
  What a chat request is forwarded as: the decoded request, the bytes to send and the guard's decision; \<open>None\<close> when
  the limiter, the decoder, the guard or the budget refuses it.
\<close>

definition admitted :: "'d engine \<Rightarrow> request_env \<Rightarrow> Request \<Rightarrow> string \<Rightarrow> 'd Server \<Rightarrow> (ChatCompletionRequest \<times> string \<times> SecDecision) option" where
  "admitted eng env r tenantID s =
     (if fst (rate_limited env tenantID s) \<noteq> None then None
      else case readRequestBody r of Inl _ \<Rightarrow> None | Inr body \<Rightarrow>
      (case DecodeChatCompletion (he_jerr env) body of Inl _ \<Rightarrow> None | Inr chat \<Rightarrow>
       (let decision = Inspect (sv_guard s) (PromptText chat);
            body' = (if sd_Action decision = ActionRedact then fst (Redact (sv_guard s) body) else body)
        in if sd_Action decision = ActionBlock then None
           else case (if sd_Action decision = ActionRedact then DecodeChatCompletion (he_jerr env) body' else Inr chat) of
             Inl _ \<Rightarrow> None
           | Inr chat' \<Rightarrow>
               (case fst (AllowTenant eng tenantID (ch_Model chat') (EstimateTokens (PromptText chat')) (completionLimit chat')
                            (he_allow_now env) (sv_costs s)) of
                  Inl _ \<Rightarrow> None
                | Inr budget \<Rightarrow> if cd_Allowed budget then Some (chat', body', decision) else None))))"

definition tenant_of :: "request_ctx \<Rightarrow> string" where
  "tenant_of ctx = id_TenantID (FromContext (cx_identity ctx))"

text \<open>No total differs: the ledger and the settings are the same, and without a ledger the whole tracker is.\<close>

definition unspent :: "'d Tracker \<Rightarrow> 'd Tracker \<Rightarrow> bool" where
  "unspent tr tr' \<longleftrightarrow> tr_ledger tr' = tr_ledger tr \<and> same_settings tr' tr \<and> (tr_ledger tr = None \<longrightarrow> tr' = tr)"

lemma unspent_refl [simp]: "unspent tr tr"
  by (simp add: unspent_def)

text \<open>A refused request touches neither the router nor the ledger, and counts as blocked.\<close>

definition refused :: "'d Server \<Rightarrow> 'd Server \<Rightarrow> bool" where
  "refused s s' \<longleftrightarrow> sv_router s' = sv_router s \<and> unspent (sv_costs s) (sv_costs s') \<and>
     sv_metrics s' = RecordBlocked (RecordRequest (sv_metrics s))"

lemma AllowTenant_keeps:
  "AllowTenant eng t m pt mt now tr = (res, tr') \<Longrightarrow> unspent tr tr'"
  by (auto simp: unspent_def AllowTenant_def spentForDay_def Let_def same_settings_def split: prod.splits sum.splits option.splits if_splits)

lemma rate_limited_frame:
  "rate_limited env t s = (d, s') \<Longrightarrow> \<exists>l. s' = s\<lparr>sv_limits := l\<rparr>"
  by (auto simp: rate_limited_def split: option.splits prod.splits) (metis Server.surjective Server.update_convs(6))

lemma callProviders_cong:
  fixes s t :: "'d Server"
  assumes "sv_router t = sv_router s"
  shows "fst (callProviders env chat body t) = fst (callProviders env chat body s)"
    and "sv_router (snd (callProviders env chat body t)) = sv_router (snd (callProviders env chat body s))"
proof -
  have "fst (try_candidates env chat body i cs e t) = fst (try_candidates env chat body i cs e s) \<and>
      sv_router (snd (try_candidates env chat body i cs e t)) = sv_router (snd (try_candidates env chat body i cs e s))"
    if "sv_router t = sv_router s" for i cs e and s t :: "'d Server"
    using that
  proof (induction cs arbitrary: i e s t)
    case (Cons c cs)
    obtain out p where cc: "ChatCompletions (he_upstream env i) chat body (sv_router s ! c) = (out, p)" by fastforce
    have rt: "sv_router (after_attempt i c p t) = sv_router (after_attempt i c p s)" using Cons.prems by (simp add: after_attempt_def)
    from Cons.IH [OF rt] rt show ?case
      unfolding try_candidates_step [OF cc] try_candidates_step [OF cc [folded Cons.prems]] Cons.prems by simp
  qed simp
  from this [OF assms] show "fst (callProviders env chat body t) = fst (callProviders env chat body s)"
    and "sv_router (snd (callProviders env chat body t)) = sv_router (snd (callProviders env chat body s))"
    using assms by (simp_all add: callProviders_def Let_def)
qed

text \<open>What a call leaves alone.\<close>

lemma try_candidates_frame:
  "try_candidates env chat body i cs e s = (res, s') \<Longrightarrow>
   sv_cfg s' = sv_cfg s \<and> sv_auth s' = sv_auth s \<and> sv_guard s' = sv_guard s \<and> sv_costs s' = sv_costs s \<and>
   sv_limits s' = sv_limits s \<and> sv_audit s' = sv_audit s \<and> sv_log s' = sv_log s \<and>
   rg_requests (sv_metrics s') = rg_requests (sv_metrics s) \<and> rg_blocked (sv_metrics s') = rg_blocked (sv_metrics s) \<and>
   rg_costMicro (sv_metrics s') = rg_costMicro (sv_metrics s)"
proof (induction cs arbitrary: i e s)
  case (Cons c cs)
  obtain out p where cc: "ChatCompletions (he_upstream env i) chat body (sv_router s ! c) = (out, p)" by fastforce
  show ?case using Cons.prems Cons.IH [of "Suc i" _ "after_attempt i c p s"] unfolding try_candidates_step [OF cc]
    by (auto simp: after_attempt_def RecordFailover_def split: if_splits)
qed auto

lemma callProviders_frame:
  "callProviders env chat body s = (res, s') \<Longrightarrow>
   sv_cfg s' = sv_cfg s \<and> sv_auth s' = sv_auth s \<and> sv_guard s' = sv_guard s \<and> sv_costs s' = sv_costs s \<and>
   sv_limits s' = sv_limits s \<and> sv_audit s' = sv_audit s \<and> sv_log s' = sv_log s \<and>
   rg_requests (sv_metrics s') = rg_requests (sv_metrics s) \<and> rg_blocked (sv_metrics s') = rg_blocked (sv_metrics s) \<and>
   rg_costMicro (sv_metrics s') = rg_costMicro (sv_metrics s)"
  by (auto simp: callProviders_def Let_def split: if_splits dest: try_candidates_frame)

text \<open>The two ends of the budget check.\<close>

lemma forward_refused:
  assumes "rw_Status w = None"
    and "AllowTenant eng t (ch_Model chat) pt (completionLimit chat) (he_allow_now env) (sv_costs s) = (res, tr)"
    and "\<And>b. res = Inr b \<Longrightarrow> \<not> cd_Allowed b"
  obtains w' s' c where "forward eng env ctx t route chat body d pt w s =
      (Some w', recordAudit eng env ctx (audit_refusal t route (ch_Model chat) c ActionBlock pt) s')"
    "rw_Status w' = Some c" "c \<in> {402, 500}" "quiet (blocked (s\<lparr>sv_costs := tr\<rparr>)) s'"
proof (cases res)
  case (Inl e)
  obtain w' s' where "writeError env 500 ''evaluate budget'' w (log_error ''evaluate budget'' e (blocked (s\<lparr>sv_costs := tr\<rparr>))) = (Some w', s')"
      "rw_Status w' = Some 500" "quiet (log_error ''evaluate budget'' e (blocked (s\<lparr>sv_costs := tr\<rparr>))) s'"
    using writeError_ex [OF assms(1), of 500 env "''evaluate budget''" "log_error ''evaluate budget'' e (blocked (s\<lparr>sv_costs := tr\<rparr>))"]
    by auto
  then show thesis using that [of w' 500 s'] assms(2) Inl by (simp add: forward_def)
next
  case (Inr b)
  then have "\<not> cd_Allowed b" using assms(3) by simp
  obtain w' s' where "writeJSON env 402 (enc_budget b) w (blocked (s\<lparr>sv_costs := tr\<rparr>)) = (Some w', s')"
      "rw_Status w' = Some 402" "quiet (blocked (s\<lparr>sv_costs := tr\<rparr>)) s'"
    using writeJSON_ex [OF assms(1), of 402 env "enc_budget b" "blocked (s\<lparr>sv_costs := tr\<rparr>)"] by auto
  then show thesis using that [of w' 402 s'] assms(2) Inr \<open>\<not> cd_Allowed b\<close> by (simp add: forward_def Let_def)
qed

lemma forward_allowed:
  assumes "AllowTenant eng t (ch_Model chat) pt (completionLimit chat) (he_allow_now env) (sv_costs s) = (Inr b, tr)" and "cd_Allowed b"
  shows "forward eng env ctx t route chat body d pt w s = serve eng env ctx t route chat body d pt w (s\<lparr>sv_costs := tr\<rparr>)"
  using assms by (simp add: forward_def Let_def)

text \<open>One audit record with this tenant, route and status was asked for after \<open>s\<close>.\<close>

definition audited_once :: "'d engine \<Rightarrow> request_env \<Rightarrow> request_ctx \<Rightarrow> string \<Rightarrow> string \<Rightarrow> int \<Rightarrow> 'd Server \<Rightarrow> 'd Server \<Rightarrow> bool" where
  "audited_once eng env ctx t route c s s' \<longleftrightarrow>
     (\<exists>i. s' = recordAudit eng env ctx i s \<and> ai_tenantID i = t \<and> ai_route i = route \<and> ai_status i = c)"

lemma audited_refusal [simp]:
  "audited_once eng env ctx t route c s (recordAudit eng env ctx (audit_refusal t route m c act pt) s)"
  unfolding audited_once_def audit_refusal_def by (metis auditInput.select_convs(1,2,5))

lemma guarded_refused:
  assumes "rw_Status w = None" and "admitted eng env r t s = None"
    and "fst (rate_limited env t s) = None" and "readRequestBody r = Inr body" and "DecodeChatCompletion (he_jerr env) body = Inr chat"
    and "sv_guard s1 = sv_guard s" and "sv_costs s1 = sv_costs s"
  obtains w' s' c s'' where "guarded eng env ctx t route body chat w s1 = (Some w', s'')" "rw_Status w' = Some c" "c \<in> {400, 402, 403, 500}"
    "quiet (blocked s1) s' \<or> (\<exists>tr. unspent (sv_costs s) tr \<and> quiet (blocked (s1\<lparr>sv_costs := tr\<rparr>)) s')"
    "c = 400 \<and> s'' = s' \<or> audited_once eng env ctx t route c s' s''"
proof -
  define d where "d = Inspect (sv_guard s) (PromptText chat)"
  show thesis
  proof (cases "sd_Action d = ActionBlock")
    case True
    obtain w' s' where "writeError env 403 ''request blocked by GuardRail security policy''
        (set_rw ''X-GuardRail-Security'' (securityHeader d) w) (blocked s1) = (Some w', s')" "rw_Status w' = Some 403" "quiet (blocked s1) s'"
      using writeError_ex [of "set_rw ''X-GuardRail-Security'' (securityHeader d) w" 403 env
          "''request blocked by GuardRail security policy''" "blocked s1"] assms(1) by auto
    then show ?thesis
      using that [of w' "recordAudit eng env ctx (audit_refusal t route (ch_Model chat) 403 ActionBlock (EstimateTokens (PromptText chat))) s'" 403 s']
        True assms(6) by (simp add: guarded_def Let_def d_def)
  next
    case notblock: False
    define body' where "body' = (if sd_Action d = ActionRedact then fst (Redact (sv_guard s) body) else body)"
    show ?thesis
    proof (cases "if sd_Action d = ActionRedact then DecodeChatCompletion (he_jerr env) body' else Inr chat")
      case (Inl e)
      then have red: "sd_Action d = ActionRedact" by (auto split: if_splits)
      obtain w' s' where "writeError env 400 ''redacted request is not valid JSON'' w (blocked s1) = (Some w', s')"
          "rw_Status w' = Some 400" "quiet (blocked s1) s'"
        using writeError_ex [of w 400 env "''redacted request is not valid JSON''" "blocked s1"] assms(1) by auto
      then show ?thesis using that [of w' s' 400 s'] red Inl assms(6) by (auto simp: guarded_def Let_def d_def body'_def)
    next
      case (Inr chat')
      define pt where "pt = EstimateTokens (PromptText chat')"
      have g: "guarded eng env ctx t route body chat w s1 = forward eng env ctx t route chat' body' d pt w s1"
        using notblock Inr assms(6) by (auto simp: guarded_def Let_def d_def body'_def pt_def split: if_splits)
      obtain res tr where al: "AllowTenant eng t (ch_Model chat') pt (completionLimit chat') (he_allow_now env) (sv_costs s1) = (res, tr)" by fastforce
      have "\<not> cd_Allowed b" if "res = Inr b" for b
        using assms(2-5,7) notblock Inr al that
        by (auto simp: admitted_def Let_def d_def [symmetric] body'_def pt_def split: if_splits)
      then obtain w' s' c where "forward eng env ctx t route chat' body' d pt w s1 =
          (Some w', recordAudit eng env ctx (audit_refusal t route (ch_Model chat') c ActionBlock pt) s')"
          "rw_Status w' = Some c" "c \<in> {402, 500}" "quiet (blocked (s1\<lparr>sv_costs := tr\<rparr>)) s'"
        using forward_refused [OF assms(1) al] by metis
      moreover have "unspent (sv_costs s) tr"
        using AllowTenant_keeps [OF al] assms(7) by auto
      ultimately show ?thesis using that [of w' _ c s'] g by auto
    qed
  qed
qed

lemma chat_refused:
  assumes w: "rw_Status w = None" and adm: "admitted eng env r (tenant_of ctx) s = None"
  shows "\<exists>w' s1 s' c. chatCompletions eng env r ctx w s = (Some w', s') \<and> rw_Status w' = Some c \<and> c \<in> {400, 402, 403, 429, 500} \<and>
    refused s s1 \<and> sv_audit s1 = sv_audit s \<and> (c = 400 \<and> s' = s1 \<or> audited_once eng env ctx (tenant_of ctx) (r_Path r) c s1 s')"
proof -
  define t where "t = tenant_of ctx"
  define s0 where "s0 = s\<lparr>sv_metrics := RecordRequest (sv_metrics s)\<rparr>"
  obtain lim sl where rl: "rate_limited env t s0 = (lim, sl)" by fastforce
  then obtain l where sl: "sl = s0\<lparr>sv_limits := l\<rparr>" using rate_limited_frame by blast
  have rl0: "fst (rate_limited env t s) = lim"
    using rl by (auto simp: rate_limited_def s0_def split: option.splits prod.splits)
  have ref: "refused s s1 \<and> sv_audit s1 = sv_audit s" if "quiet (blocked sl) s1" for s1
    using quiet_fields [OF that] by (simp add: refused_def sl s0_def)
  have ref': "refused s s1 \<and> sv_audit s1 = sv_audit s"
    if "quiet (blocked (sl\<lparr>sv_costs := tr\<rparr>)) s1" "unspent (sv_costs s) tr" for s1 tr
    using quiet_fields [OF that(1)] that(2) by (simp add: refused_def sl s0_def)
  note unfold = chatCompletions_def Let_def tenant_of_def [symmetric] t_def [symmetric] s0_def [symmetric] rl
  show ?thesis
  proof (cases lim)
    case (Some d)
    obtain w' s1 where "writeJSON env 429 (Inr (enc_limit d)) (set_rw ''Retry-After'' (Itoa (rd_RetryAfter d)) w) (blocked sl) = (Some w', s1)"
        "rw_Status w' = Some 429" "quiet (blocked sl) s1"
      using writeJSON_ex [of "set_rw ''Retry-After'' (Itoa (rd_RetryAfter d)) w" 429 env "Inr (enc_limit d)" "blocked sl"] w by auto
    then show ?thesis using Some ref [of s1]
      by (intro exI [of _ w'] exI [of _ s1] exI [of _ "recordAudit eng env ctx (audit_refusal t (r_Path r) [] 429 ActionBlock 0) s1"] exI [of _ 429])
        (simp add: unfold)
  next
    case None
    have bad: ?thesis if "chatCompletions eng env r ctx w s = writeError env 400 e w (blocked sl)" for e
    proof -
      obtain w' s1 where "writeError env 400 e w (blocked sl) = (Some w', s1)" "rw_Status w' = Some 400" "quiet (blocked sl) s1"
        using writeError_ex [OF w, of 400 env e "blocked sl"] by auto
      then show ?thesis using that ref [of s1] by (intro exI [of _ w'] exI [of _ s1] exI [of _ s1] exI [of _ 400]) simp
    qed
    show ?thesis
    proof (cases "readRequestBody r")
      case (Inl e)
      then show ?thesis using None by (intro bad [of e]) (simp add: unfold)
    next
      case (Inr body)
      show ?thesis
      proof (cases "DecodeChatCompletion (he_jerr env) body")
        case (Inl e)
        then show ?thesis using None Inr by (intro bad [of e]) (simp add: unfold)
      next
        case chat: (Inr chat)
        have "chatCompletions eng env r ctx w s = guarded eng env ctx t (r_Path r) body chat w sl" using None Inr chat by (simp add: unfold)
        moreover have "sv_guard sl = sv_guard s" "sv_costs sl = sv_costs s" by (simp_all add: sl s0_def)
        moreover obtain w' s1 c s' where g: "guarded eng env ctx t (r_Path r) body chat w sl = (Some w', s')" "rw_Status w' = Some c"
          "c \<in> {400, 402, 403, 500}"
          "quiet (blocked sl) s1 \<or> (\<exists>tr. unspent (sv_costs s) tr \<and> quiet (blocked (sl\<lparr>sv_costs := tr\<rparr>)) s1)"
          "c = 400 \<and> s' = s1 \<or> audited_once eng env ctx t (r_Path r) c s1 s'"
          by (rule guarded_refused [OF w adm [folded t_def] _ Inr chat, of sl ctx "r_Path r"]) (use None rl0 calculation in auto)
        moreover have "refused s s1 \<and> sv_audit s1 = sv_audit s" using g(4) ref ref' by blast
        ultimately show ?thesis unfolding t_def by (intro exI [of _ w'] exI [of _ s1] exI [of _ s'] exI [of _ c]) auto
      qed
    qed
  qed
qed

lemma chat_admitted:
  assumes "admitted eng env r (tenant_of ctx) s = Some (chat, body, d)"
  obtains s1 b where
    "chatCompletions eng env r ctx w s =
       serve eng env ctx (tenant_of ctx) (r_Path r) chat body d (EstimateTokens (PromptText chat)) w s1"
    "AllowTenant eng (tenant_of ctx) (ch_Model chat) (EstimateTokens (PromptText chat)) (completionLimit chat) (he_allow_now env)
       (sv_costs s) = (Inr b, sv_costs s1)"
    "cd_Allowed b" "sv_router s1 = sv_router s" "sv_audit s1 = sv_audit s" "sv_metrics s1 = RecordRequest (sv_metrics s)"
proof -
  define t where "t = tenant_of ctx"
  define s0 where "s0 = s\<lparr>sv_metrics := RecordRequest (sv_metrics s)\<rparr>"
  obtain lim sl where rl: "rate_limited env t s0 = (lim, sl)" by fastforce
  then obtain l where sl: "sl = s0\<lparr>sv_limits := l\<rparr>" using rate_limited_frame by blast
  have "fst (rate_limited env t s) = lim"
    using rl by (auto simp: rate_limited_def s0_def split: option.splits prod.splits)
  then have lim: "lim = None" using assms by (auto simp: admitted_def t_def split: if_splits)
  obtain raw chat0 where in1: "readRequestBody r = Inr raw" "DecodeChatCompletion (he_jerr env) raw = Inr chat0"
    using assms by (auto simp: admitted_def split: if_splits sum.splits)
  define d0 where "d0 = Inspect (sv_guard s) (PromptText chat0)"
  have d: "d = d0" "sd_Action d0 \<noteq> ActionBlock" "body = (if sd_Action d0 = ActionRedact then fst (Redact (sv_guard s) raw) else raw)"
    "(if sd_Action d0 = ActionRedact then DecodeChatCompletion (he_jerr env) body else Inr chat0) = Inr chat"
    using assms in1 by (auto simp: admitted_def Let_def d0_def split: if_splits sum.splits)
  let ?pt = "EstimateTokens (PromptText chat)"
  obtain b tr where al: "AllowTenant eng t (ch_Model chat) ?pt (completionLimit chat) (he_allow_now env) (sv_costs s) = (Inr b, tr)" "cd_Allowed b"
    using assms in1 by (auto simp: admitted_def Let_def t_def split: if_splits sum.splits) (metis prod.collapse)+
  have g: "sv_guard sl = sv_guard s" "sv_costs sl = sv_costs s" by (simp_all add: sl s0_def)
  have "chatCompletions eng env r ctx w s = guarded eng env ctx t (r_Path r) raw chat0 w sl"
    by (simp add: chatCompletions_def Let_def tenant_of_def [symmetric] t_def [symmetric] s0_def [symmetric] rl lim in1)
  also have "\<dots> = forward eng env ctx t (r_Path r) chat body d ?pt w sl"
    using d g(1) by (auto simp: guarded_def Let_def d0_def split: if_splits)
  also have "\<dots> = serve eng env ctx t (r_Path r) chat body d ?pt w (sl\<lparr>sv_costs := tr\<rparr>)"
    by (rule forward_allowed) (use al g(2) in simp_all)
  finally show thesis by (rule that [unfolded t_def [symmetric]]) (use al in \<open>simp_all add: sl s0_def\<close>)
qed

section \<open>The response of an upstream provider\<close>

lemma NewRequest_translated:
  "translated what f n o1 = Inr up \<Longrightarrow> \<exists>resp. o1 = Inr resp \<and> ur_Status up = hs_StatusCode resp"
  by (auto simp: translated_def plain_response_def split: sum.splits if_splits)

text \<open>A status the client of this environment can return.\<close>

definition answers :: "upstream_env \<Rightarrow> int \<Rightarrow> bool" where
  "answers e c \<longleftrightarrow> (\<exists>tmo q resp. ue_client e tmo q = Inr resp \<and> hs_StatusCode resp = c)"

lemma answersI: "ue_client e tmo q = Inr resp \<Longrightarrow> answers e (hs_StatusCode resp)"
  unfolding answers_def by blast

lemma ChatCompletions_status:
  assumes "fst (ChatCompletions e chat body p) = Some (Inr up)"
  shows "answers e (ur_Status up)"
  using assms
  by (auto simp: ChatCompletions_def openAI_def anthropic_def google_def Let_def plain_response_def
      split: ProviderType.splits sum.splits prod.splits option.splits if_splits dest!: NewRequest_translated answersI)

lemma callProviders_usable:
  assumes "fst (callProviders env chat body s) = Some (Inr up)"
  shows "\<exists>i. answers (he_upstream env i) (ur_Status up)"
proof -
  let ?cs = "Candidates (sv_router s) (ch_Model chat)"
  obtain s' where "callProviders env chat body s = (Some (Inr up), s')" using assms by (metis prod.collapse)
  then have "try_candidates env chat body 0 ?cs [] s = (Some (Inr up), s')" by (auto simp: callProviders_def Let_def split: if_splits)
  from try_candidates_search [OF Candidates_distinct Candidates_bound this] obtain k where
    "Some (Inr up) = fst (ChatCompletions (he_upstream env (0 + k)) chat body (sv_router s ! (?cs ! k)))"
    by (auto split: if_splits)
  then show ?thesis using ChatCompletions_status by metis
qed

end
