(* ===== verification/Accounting.thy ===== *)
theory Accounting
  imports Pipeline Ratelimit
begin

text \<open>
  What a chat request costs. A request that is admitted and answered is recorded once in the ledger and once in the
  audit trail, under the tenant it was authenticated as; a request that is refused is recorded in neither the
  ledger nor the router. From this the daily budgets follow for the handler as a whole.
\<close>

section \<open>Answered requests\<close>

text \<open>
  A status that can be sent on. The client of net/http returns no informational response but 101; three-digit
  numbers below 100, which HTTP does not define, would make \<open>WriteHeader\<close> panic.
\<close>

definition sendable :: "int \<Rightarrow> bool" where
  "sendable c \<longleftrightarrow> c = 101 \<or> 200 \<le> c \<and> c \<le> 999"

definition http_upstreams :: "request_env \<Rightarrow> bool" where
  "http_upstreams env \<longleftrightarrow> (\<forall>i c. answers (he_upstream env i) c \<longrightarrow> sendable c)"

lemma WriteHeader_sendable:
  "rw_Status w = None \<Longrightarrow> sendable c \<Longrightarrow> WriteHeader c w = Some (w\<lparr>rw_Status := Some c, rw_Sent := rw_Header w\<rparr>)"
  by (auto simp: WriteHeader_def sendable_def)

lemma writeStream_ex:
  assumes "rw_Status w = None" and "sendable (ur_Status up)"
  shows "\<exists>w' s'. writeStream env up w s = (Some w', s') \<and> rw_Status w' = Some (ur_Status up) \<and> quiet s s'"
proof -
  have "\<exists>w'. fst (writeStream env up w s) = Some w' \<and> rw_Status w' = Some (ur_Status up)"
    using assms by (auto simp: writeStream_def Let_def WriteHeader_sendable split: option.splits prod.splits dest: rw_Write_Status)
  then show ?thesis using writeStream_quiet [of s env up w] by (metis prod.collapse)
qed

definition charged_tokens :: "UpstreamResponse \<Rightarrow> int" where
  "charged_tokens up = (if ur_Streaming up then 0 else CompletionTokensFromOpenAI (ur_Body up))"

lemma deliver_settles:
  assumes "rw_Status w = None" and "sendable (ur_Status up)"
  shows "\<exists>w' s'. deliver eng env ctx t route chat up d pt w s =
      (Some w', settle eng env ctx t route chat up (sd_Action d) pt (charged_tokens up) s') \<and>
    rw_Status w' = Some (ur_Status up) \<and> quiet s s'"
proof (cases "ur_Streaming up")
  case True
  then show ?thesis
    using writeStream_ex [of "set_rw ''X-GuardRail-Security'' (securityHeader d) w" up env s] assms
    by (auto simp: deliver_def Let_def charged_tokens_def)
next
  case False
  define w0 where "w0 = set_rw ''X-GuardRail-Security'' (securityHeader d) w"
  define w1 where "w1 = w0\<lparr>rw_Header := copyHeaders (rw_Header w0) (ur_Header up), rw_Status := Some (ur_Status up),
    rw_Sent := copyHeaders (rw_Header w0) (ur_Header up)\<rparr>"
  obtain werr w2 where wr: "rw_Write (he_write_err env) (ur_Body up) w1 = (werr, w2)" by fastforce
  have st: "rw_Status w2 = Some (ur_Status up)" using rw_Write_Status [OF wr] by (simp add: w1_def)
  have "WriteHeader (ur_Status up) (w0\<lparr>rw_Header := copyHeaders (rw_Header w0) (ur_Header up)\<rparr>) = Some w1"
    using WriteHeader_sendable [of "w0\<lparr>rw_Header := copyHeaders (rw_Header w0) (ur_Header up)\<rparr>" "ur_Status up"] assms
    by (simp add: w0_def w1_def)
  then have "deliver eng env ctx t route chat up d pt w s = (Some w2, settle eng env ctx t route chat up (sd_Action d) pt
      (CompletionTokensFromOpenAI (ur_Body up)) (case werr of None \<Rightarrow> s | Some e \<Rightarrow> log_error ''write provider response'' e s))"
    using False wr by (simp add: deliver_def Let_def w0_def [symmetric])
  moreover have "quiet s (case werr of None \<Rightarrow> s | Some e \<Rightarrow> log_error ''write provider response'' e s)"
    by (cases werr) simp_all
  ultimately show ?thesis using False st unfolding charged_tokens_def by auto
qed

lemma settle_audited:
  assumes "s' = settle eng env ctx t route chat up act pt ct s"
  shows "\<exists>s1. audited_once eng env ctx t route (ur_Status up) s1 s' \<and> sv_audit s1 = sv_audit s \<and> sv_router s1 = sv_router s \<and>
    sv_costs s1 = snd (RecordTenant eng t (ch_Model chat) pt ct (he_record_now env) (he_record_wall env) (sv_costs s)) \<and>
    (\<exists>u. sv_metrics s1 = RecordCost u (sv_metrics s))"
proof -
  obtain u s0 where ru: "recordUsage eng env t (ch_Model chat) pt ct s = (u, s0)" by fastforce
  note f = recordUsage_fields [OF ru]
  show ?thesis
    by (rule exI [of _ "s0\<lparr>sv_metrics := RecordCost (us_CostUSD u) (sv_metrics s0)\<rparr>"])
      (use assms ru f in \<open>auto simp: settle_def Let_def audited_once_def\<close>)
qed

lemma audited_once_fields:
  assumes "audited_once eng env ctx t route c s1 s'"
  shows "sv_router s' = sv_router s1" "sv_costs s' = sv_costs s1" "sv_metrics s' = sv_metrics s1" "sv_guard s' = sv_guard s1"
    "sv_limits s' = sv_limits s1" "sv_cfg s' = sv_cfg s1" "sv_auth s' = sv_auth s1"
  using assms unfolding audited_once_def by auto

lemma serve_answered:
  assumes w: "rw_Status w = None" and up: "http_upstreams env"
    and "serve eng env ctx t route chat body d pt w s = (out, s')"
  shows "case fst (callProviders env chat body s) of
      None \<Rightarrow> out = None \<and> s' = snd (callProviders env chat body s)
    | Some res \<Rightarrow>
        (\<exists>w' s1 c. out = Some w' \<and> rw_Status w' = Some c \<and> audited_once eng env ctx t route c s1 s' \<and> sv_audit s1 = sv_audit s \<and>
           sv_router s1 = sv_router (snd (callProviders env chat body s)) \<and>
           rg_requests (sv_metrics s1) = rg_requests (sv_metrics s) \<and> rg_blocked (sv_metrics s1) = rg_blocked (sv_metrics s) \<and>
           (case res of
              Inl e \<Rightarrow> c = 502 \<and> sv_costs s1 = sv_costs s
            | Inr up \<Rightarrow> c = ur_Status up \<and>
                sv_costs s1 = snd (RecordTenant eng t (ch_Model chat) pt (charged_tokens up) (he_record_now env) (he_record_wall env) (sv_costs s))))"
proof -
  obtain res s0 where cp: "callProviders env chat body s = (res, s0)" by fastforce
  note fr = callProviders_frame [OF cp]
  consider (panic) "res = None" | (failed) e where "res = Some (Inl e)" | (ok) up where "res = Some (Inr up)"
    by (metis option.exhaust sum.exhaust)
  then show ?thesis
  proof cases
    case panic
    then show ?thesis using assms(3) cp by (simp add: serve_def)
  next
    case failed
    obtain w' s1 where "writeError env 502 e w (log_error ''all providers failed'' e s0) = (Some w', s1)" "rw_Status w' = Some 502"
      and q: "quiet (log_error ''all providers failed'' e s0) s1"
      using writeError_ex [OF w, of 502 env e "log_error ''all providers failed'' e s0"] by auto
    then show ?thesis using assms(3) cp failed fr quiet_fields [OF q]
      by (auto simp: serve_def intro!: exI [of _ s1])
  next
    case ok
    have "sendable (ur_Status up)"
      using callProviders_usable [of env chat body s up] cp ok assms(2) unfolding http_upstreams_def by auto
    from deliver_settles [OF w this, of eng env ctx t route chat d pt s0] obtain w' s2 where
      d: "deliver eng env ctx t route chat up d pt w s0 = (Some w', settle eng env ctx t route chat up (sd_Action d) pt (charged_tokens up) s2)"
      "rw_Status w' = Some (ur_Status up)" and q: "quiet s0 s2" by blast
    have s': "s' = settle eng env ctx t route chat up (sd_Action d) pt (charged_tokens up) s2" and out: "out = Some w'"
      using assms(3) cp ok d by (simp_all add: serve_def)
    obtain s1 u where "audited_once eng env ctx t route (ur_Status up) s1 s'" "sv_audit s1 = sv_audit s2" "sv_router s1 = sv_router s2"
      "sv_costs s1 = snd (RecordTenant eng t (ch_Model chat) pt (charged_tokens up) (he_record_now env) (he_record_wall env) (sv_costs s2))"
      "sv_metrics s1 = RecordCost u (sv_metrics s2)"
      using settle_audited [OF s'] by blast
    then show ?thesis using cp ok out d(2) fr quiet_fields [OF q]
      by (auto simp: RecordCost_def intro!: exI [of _ s1])
  qed
qed

text \<open>The handler on an admitted request.\<close>

definition checked_costs :: "'d engine \<Rightarrow> request_env \<Rightarrow> string \<Rightarrow> ChatCompletionRequest \<Rightarrow> 'd Tracker \<Rightarrow> 'd Tracker" where
  "checked_costs eng env t chat tr =
     snd (AllowTenant eng t (ch_Model chat) (EstimateTokens (PromptText chat)) (completionLimit chat) (he_allow_now env) tr)"

lemma chat_served:
  assumes "rw_Status w = None" and "http_upstreams env" and adm: "admitted eng env r (tenant_of ctx) s = Some (chat, body, d)"
    and "chatCompletions eng env r ctx w s = (out, s')"
  shows "rg_requests (sv_metrics s') = rg_requests (sv_metrics s) + 1 \<and> rg_blocked (sv_metrics s') = rg_blocked (sv_metrics s) \<and>
    sv_router s' = sv_router (snd (callProviders env chat body s)) \<and>
    (case fst (callProviders env chat body s) of
      None \<Rightarrow> out = None \<and> sv_audit s' = sv_audit s \<and> sv_costs s' = checked_costs eng env (tenant_of ctx) chat (sv_costs s)
    | Some res \<Rightarrow>
        (\<exists>w' s1 c. out = Some w' \<and> rw_Status w' = Some c \<and> audited_once eng env ctx (tenant_of ctx) (r_Path r) c s1 s' \<and>
           sv_audit s1 = sv_audit s \<and>
           (case res of
              Inl e \<Rightarrow> c = 502 \<and> sv_costs s' = checked_costs eng env (tenant_of ctx) chat (sv_costs s)
            | Inr up \<Rightarrow> c = ur_Status up \<and>
                sv_costs s' = snd (RecordTenant eng (tenant_of ctx) (ch_Model chat) (EstimateTokens (PromptText chat)) (charged_tokens up)
                  (he_record_now env) (he_record_wall env) (checked_costs eng env (tenant_of ctx) chat (sv_costs s))))))"
proof -
  let ?pt = "EstimateTokens (PromptText chat)"
  from chat_admitted [OF adm] obtain s1 b where
    c: "chatCompletions eng env r ctx w s = serve eng env ctx (tenant_of ctx) (r_Path r) chat body d ?pt w s1"
    and s1: "sv_router s1 = sv_router s" "sv_metrics s1 = RecordRequest (sv_metrics s)" "sv_audit s1 = sv_audit s"
    and al: "AllowTenant eng (tenant_of ctx) (ch_Model chat) ?pt (completionLimit chat) (he_allow_now env) (sv_costs s) = (Inr b, sv_costs s1)"
    by blast
  have cc: "sv_costs s1 = checked_costs eng env (tenant_of ctx) chat (sv_costs s)" by (simp add: checked_costs_def al)
  note cp = callProviders_cong [OF s1(1), of env chat body]
  have sv: "serve eng env ctx (tenant_of ctx) (r_Path r) chat body d ?pt w s1 = (out, s')" using assms(4) c by simp
  note sa = serve_answered [OF assms(1,2) sv, unfolded cp]
  note fr = callProviders_frame [OF surjective_pairing, of env chat body s1]
  show ?thesis
  proof (cases "fst (callProviders env chat body s)")
    case None
    then show ?thesis using sa s1 cc fr cp(2) by (simp add: RecordRequest_def)
  next
    case (Some res)
    then obtain w' s2 c where "out = Some w'" "rw_Status w' = Some c" and au: "audited_once eng env ctx (tenant_of ctx) (r_Path r) c s2 s'"
      and "sv_router s2 = sv_router (snd (callProviders env chat body s))" "sv_audit s2 = sv_audit s1"
      "rg_requests (sv_metrics s2) = rg_requests (sv_metrics s1)" "rg_blocked (sv_metrics s2) = rg_blocked (sv_metrics s1)"
      "case res of Inl e \<Rightarrow> c = 502 \<and> sv_costs s2 = sv_costs s1 | Inr up \<Rightarrow> c = ur_Status up \<and>
         sv_costs s2 = snd (RecordTenant eng (tenant_of ctx) (ch_Model chat) ?pt (charged_tokens up) (he_record_now env) (he_record_wall env) (sv_costs s1))"
      using sa by auto
    then show ?thesis using Some s1 cc audited_once_fields [OF au]
      by (cases res) (auto simp: RecordRequest_def)
  qed
qed

text \<open>C1: admission is exact. The handler of chat requests calls a provider for precisely those requests that pass the
  rate limiter, the decoder, the guard and the budget, and it calls with the bytes that these stages agreed on. Any
  other request is answered with 400, 402, 403, 429 or 500 and touches no provider, no key counter and no total of the
  ledger; it is counted as blocked. An admitted request is not counted as blocked, it leaves the router as the calls of the
  providers left it, and it is answered with 502 if they all failed, otherwise with the status of the provider.\<close>

theorem chat_admission:
  assumes "rw_Status w = None" and "http_upstreams env" and "chatCompletions eng env r ctx w s = (out, s')"
  shows "case admitted eng env r (tenant_of ctx) s of
      None \<Rightarrow> refused s s' \<and> (\<exists>w' c. out = Some w' \<and> rw_Status w' = Some c \<and> c \<in> {400, 402, 403, 429, 500})
    | Some (chat, body, d) \<Rightarrow>
        rg_blocked (sv_metrics s') = rg_blocked (sv_metrics s) \<and> rg_requests (sv_metrics s') = rg_requests (sv_metrics s) + 1 \<and>
        sv_router s' = sv_router (snd (callProviders env chat body s)) \<and>
        (case fst (callProviders env chat body s) of
           None \<Rightarrow> out = None
         | Some (Inl e) \<Rightarrow> (\<exists>w'. out = Some w' \<and> rw_Status w' = Some 502)
         | Some (Inr up) \<Rightarrow> (\<exists>w'. out = Some w' \<and> rw_Status w' = Some (ur_Status up)))"
proof (cases "admitted eng env r (tenant_of ctx) s")
  case None
  from chat_refused [OF assms(1) None] obtain w' s1 c where
    "out = Some w'" "rw_Status w' = Some c" "c \<in> {400, 402, 403, 429, 500}" and r: "refused s s1"
    and a: "c = 400 \<and> s' = s1 \<or> audited_once eng env ctx (tenant_of ctx) (r_Path r) c s1 s'"
    using assms(3) by auto
  moreover have "refused s s'" using a r audited_once_fields [of eng env ctx "tenant_of ctx" "r_Path r" c s1 s']
    by (auto simp: refused_def)
  ultimately show ?thesis using None by simp
next
  case (Some a)
  obtain chat body d where "a = (chat, body, d)" by (cases a)
  then show ?thesis using chat_served [OF assms(1,2) _ assms(3)] Some by (fastforce split: option.splits sum.splits)
qed

lemma audited_event:
  assumes "audited_once eng env ctx t route c s1 s'" and "c \<noteq> 0"
  shows "\<exists>ev. sv_audit s' = snd (Audit_Record eng ev (sv_audit s1)) \<and> ev_Status ev = c \<and> ev_TenantID ev = t \<and>
    ev_Route ev = route \<and> ev_RequestID ev = requestID ctx"
proof -
  obtain i where i: "s' = recordAudit eng env ctx i s1" "ai_tenantID i = t" "ai_route i = route" "ai_status i = c"
    using assms(1) unfolding audited_once_def by blast
  show ?thesis by (rule exI [of _ "audit_event env ctx i"]) (use i assms(2) in \<open>simp add: audit_event_def\<close>)
qed

lemma usable_sendable:
  "http_upstreams env \<Longrightarrow> fst (callProviders env chat body s) = Some (Inr up) \<Longrightarrow> sendable (ur_Status up)"
  using callProviders_usable unfolding http_upstreams_def by blast

lemma sendable_nonzero: "sendable c \<Longrightarrow> c \<noteq> 0"
  by (auto simp: sendable_def)

lemma checked_costs_unspent: "unspent tr (checked_costs eng env t chat tr)"
  unfolding checked_costs_def by (rule AllowTenant_keeps [OF surjective_pairing])

lemma checked_costs_ledger: "tr_ledger (checked_costs eng env t chat tr) = tr_ledger tr"
  using checked_costs_unspent [of tr eng env t chat] by (simp add: unspent_def)

text \<open>C5: accounting. A chat request that is answered leaves exactly one record in the audit trail, with the status it was
  answered with, the tenant it was authenticated as, its route and its request id; only requests refused with 400,
  which could not be read or decoded, leave none. The ledger is asked to add spend only for a request that a provider answered,
  once, under the same tenant and the model of the forwarded request, with the prompt estimate and the completion
  tokens of the answer (none for a stream).\<close>

theorem chat_accounted:
  assumes "rw_Status w = None" and "http_upstreams env" and "chatCompletions eng env r ctx w s = (Some w', s')"
  shows "\<exists>c. rw_Status w' = Some c \<and>
    (c = 400 \<and> admitted eng env r (tenant_of ctx) s = None \<and> sv_audit s' = sv_audit s \<or>
     (\<exists>ev. sv_audit s' = snd (Audit_Record eng ev (sv_audit s)) \<and> ev_Status ev = c \<and> ev_TenantID ev = tenant_of ctx \<and>
        ev_Route ev = r_Path r \<and> ev_RequestID ev = requestID ctx)) \<and>
    (tr_ledger (sv_costs s') = tr_ledger (sv_costs s) \<or>
     (\<exists>chat body d up. admitted eng env r (tenant_of ctx) s = Some (chat, body, d) \<and> fst (callProviders env chat body s) = Some (Inr up) \<and>
        sv_costs s' = snd (RecordTenant eng (tenant_of ctx) (ch_Model chat) (EstimateTokens (PromptText chat)) (charged_tokens up)
          (he_record_now env) (he_record_wall env) (checked_costs eng env (tenant_of ctx) chat (sv_costs s)))))"
proof (cases "admitted eng env r (tenant_of ctx) s")
  case None
  from chat_refused [OF assms(1) None] obtain s1 c where
    st: "rw_Status w' = Some c" "c \<in> {400, 402, 403, 429, 500}" and r: "refused s s1" "sv_audit s1 = sv_audit s"
    and a: "c = 400 \<and> s' = s1 \<or> audited_once eng env ctx (tenant_of ctx) (r_Path r) c s1 s'"
    using assms(3) by auto
  have l: "tr_ledger (sv_costs s') = tr_ledger (sv_costs s)"
    using a r audited_once_fields(2) [of eng env ctx "tenant_of ctx" "r_Path r" c s1 s'] by (auto simp: refused_def unspent_def)
  have "c \<noteq> 0" using st(2) by auto
  then show ?thesis using a st(1) None r(2) l audited_event [of eng env ctx "tenant_of ctx" "r_Path r" c s1 s']
    by (intro exI [of _ c]) auto
next
  case (Some a)
  obtain chat body d where a: "a = (chat, body, d)" by (cases a)
  note sv = chat_served [OF assms(1,2) Some [unfolded a] assms(3)]
  then obtain res s1 c where res: "fst (callProviders env chat body s) = Some res" and st: "rw_Status w' = Some c"
    and au: "audited_once eng env ctx (tenant_of ctx) (r_Path r) c s1 s'" "sv_audit s1 = sv_audit s"
    and cost: "case res of
              Inl e \<Rightarrow> c = 502 \<and> sv_costs s' = checked_costs eng env (tenant_of ctx) chat (sv_costs s)
            | Inr up \<Rightarrow> c = ur_Status up \<and>
                sv_costs s' = snd (RecordTenant eng (tenant_of ctx) (ch_Model chat) (EstimateTokens (PromptText chat)) (charged_tokens up)
                  (he_record_now env) (he_record_wall env) (checked_costs eng env (tenant_of ctx) chat (sv_costs s)))"
    by (auto split: option.splits)
  have "c \<noteq> 0"
  proof (cases res)
    case (Inr up)
    then have "sendable (ur_Status up)" using usable_sendable [OF assms(2), of chat body s up] res by simp
    then show ?thesis using cost Inr sendable_nonzero [of c] by simp
  qed (use cost in simp)
  from audited_event [OF au(1) this] st cost res Some a au(2) show ?thesis
    by (intro exI [of _ c]) (cases res; simp add: checked_costs_ledger)
qed

section \<open>An example\<close>

text \<open>The small server with authentication and the modes of the guard switched off, and a request with one message.\<close>

definition open_guard :: Guard where
  "open_guard = NewGuard (\<lambda>_. None) \<lparr>sec_PromptInjectionMode = ''off'', sec_PIIMode = ''off'', sec_ExtraPIIPatterns = []\<rparr>"

definition chat_server :: "lite Server" where
  "chat_server = demo_server\<lparr>sv_cfg := Default\<lparr>cfg_Auth := (cfg_Auth Default)\<lparr>ac_Enabled := False\<rparr>\<rparr>, sv_guard := open_guard\<rparr>"

definition quoted :: "string \<Rightarrow> string" where
  "quoted s = [CHR 0x22] @ s @ [CHR 0x22]"

definition chat_body :: string where
  "chat_body = ''{'' @ quoted ''model'' @ '':'' @ quoted ''m'' @ '','' @ quoted ''max_tokens'' @ '':1,'' @ quoted ''messages'' @
     '':[{'' @ quoted ''content'' @ '':'' @ quoted ''hi'' @ ''}]}''"

definition chat_request :: Request where
  "chat_request = \<lparr>r_Method = ''POST'', r_Path = ''/v1/chat/completions'', r_Query = [], r_Header = [], r_Body = chat_body, r_BodyErr = None\<rparr>"

definition chat_ctx :: request_ctx where
  "chat_ctx = \<lparr>cx_identity = None, cx_requestID = Some ''r1''\<rparr>"

definition chat_decoded :: ChatCompletionRequest where
  "chat_decoded = \<lparr>ch_Model = ''m'', ch_Messages = ([\<lparr>cm_Role = [], cm_Content = Some (JStr ''hi'')\<rparr>], 1), ch_Stream = False,
     ch_MaxTokens = 1, ch_Temperature = None\<rparr>"

lemma open_guard_allows: "sd_Action (Inspect open_guard p) = ActionAllow"
proof -
  have "normalizeMode ''off'' m = ''off''" for m
  proof -
    have "ToLower (TrimSpace ''off'') = ''off''" by code_simp
    then show ?thesis by (simp add: normalizeMode_def)
  qed
  then have "g_promptMode open_guard = ''off''" "g_piiMode open_guard = ''off''" by (simp_all add: open_guard_def NewGuard_def)
  then show ?thesis unfolding Inspect_action actionFor_eq by (simp add: actionFromMode_def strongest_def)
qed

lemma chat_request_body: "readRequestBody chat_request = Inr chat_body"
  by (simp add: readRequestBody_def chat_request_def chat_body_def quoted_def maxRequestBytes_def)

lemma chat_request_facts:
  "DecodeChatCompletion (\<lambda>_. []) chat_body = Inr chat_decoded"
  "EstimateTokens (PromptText chat_decoded) = 1" "tenant_of chat_ctx = ''default''" "completionLimit chat_decoded = 1"
  by code_simp+

lemma chat_allowed: "map_sum id cd_Allowed (fst (AllowTenant lite_engine ''default'' ''m'' 1 1 0 small_tracker)) = Inr True"
  by code_simp

lemma chat_request_admitted:
  "\<exists>d. admitted lite_engine demo_env chat_request (tenant_of chat_ctx) chat_server = Some (chat_decoded, chat_body, d)"
proof -
  obtain b where b: "fst (AllowTenant lite_engine ''default'' ''m'' 1 1 0 small_tracker) = Inr b" "cd_Allowed b"
    using chat_allowed by (cases "fst (AllowTenant lite_engine ''default'' ''m'' 1 1 0 small_tracker)") auto
  have s: "sv_guard chat_server = open_guard" "sv_costs chat_server = small_tracker" "sv_limits chat_server = None"
    "he_jerr demo_env = (\<lambda>_. [])" "he_allow_now demo_env = 0" "ch_Model chat_decoded = ''m''"
    by (simp_all add: chat_server_def demo_server_def demo_env_def chat_decoded_def)
  show ?thesis
    unfolding admitted_def Let_def rate_limited_def s chat_request_body sum.case chat_request_facts(1) open_guard_allows
    using b by (simp add: chat_request_facts s)
qed

lemma demo_http: "http_upstreams demo_env"
  by (auto simp: http_upstreams_def answers_def demo_env_def demo_upstream_def sendable_def split: if_splits)

lemma chat_calls:
  "Candidates demo_router ''m'' = [0, 1]"
  "fst (ChatCompletions (demo_upstream 0) chat_decoded chat_body (demo_provider ''a'')) = Some (Inl ''call provider a: refused'')"
  "fst (ChatCompletions (demo_upstream 1) chat_decoded chat_body (demo_provider ''b'')) = Some (Inr (plain_response [] ''{}'' ''b'' 200))"
  by code_simp+

lemma chat_request_answer:
  "fst (callProviders demo_env chat_decoded chat_body chat_server) = Some (Inr (plain_response [] ''{}'' ''b'' 200))"
proof -
  have r: "sv_router chat_server = demo_router" "ch_Model chat_decoded = ''m''" "he_upstream demo_env = demo_upstream"
    by (simp_all add: chat_server_def demo_server_def chat_decoded_def demo_env_def)
  obtain p where a: "ChatCompletions (he_upstream demo_env 0) chat_decoded chat_body (sv_router chat_server ! 0) = (Some (Inl ''call provider a: refused''), p)"
    using chat_calls(2) unfolding r by (auto simp: demo_router_def prod_eq_iff)
  obtain q where b: "ChatCompletions (he_upstream demo_env (Suc 0)) chat_decoded chat_body (sv_router (after_attempt 0 0 p chat_server) ! 1) =
      (Some (Inr (plain_response [] ''{}'' ''b'' 200)), q)"
    using chat_calls(3) unfolding r by (auto simp: after_attempt_def r demo_router_def prod_eq_iff)
  show ?thesis
    unfolding callProviders_def Let_def r chat_calls(1) try_candidates_step [OF a] using try_candidates_step [OF b]
    by (simp add: plain_response_def)
qed

theorem chat_admission_witness:
  "\<exists>w. fst (chatCompletions lite_engine demo_env chat_request chat_ctx new_response chat_server) = Some w \<and> rw_Status w = Some 200 \<and>
     rg_requests (sv_metrics (snd (chatCompletions lite_engine demo_env chat_request chat_ctx new_response chat_server))) = 1"
proof -
  obtain out s' where c: "chatCompletions lite_engine demo_env chat_request chat_ctx new_response chat_server = (out, s')" by fastforce
  obtain d where a: "admitted lite_engine demo_env chat_request (tenant_of chat_ctx) chat_server = Some (chat_decoded, chat_body, d)"
    using chat_request_admitted by blast
  have n: "rw_Status new_response = None" "rg_requests (sv_metrics chat_server) = 0"
    by (simp_all add: new_response_def chat_server_def demo_server_def NewRegistry_def)
  show ?thesis using chat_admission [OF n(1) demo_http c] unfolding a c using n(2) chat_request_answer
    by (auto simp: plain_response_def)
qed

theorem chat_accounted_witness:
  "\<exists>w ev. fst (chatCompletions lite_engine demo_env chat_request chat_ctx new_response chat_server) = Some w \<and> rw_Status w = Some 200 \<and>
     sv_audit (snd (chatCompletions lite_engine demo_env chat_request chat_ctx new_response chat_server)) =
       snd (Audit_Record lite_engine ev empty_trail) \<and>
     ev_Status ev = 200 \<and> ev_TenantID ev = ''default'' \<and> ev_RequestID ev = ''r1''"
proof -
  obtain out s' where c: "chatCompletions lite_engine demo_env chat_request chat_ctx new_response chat_server = (out, s')" by fastforce
  obtain d where a: "admitted lite_engine demo_env chat_request (tenant_of chat_ctx) chat_server = Some (chat_decoded, chat_body, d)"
    using chat_request_admitted by blast
  have rid: "requestID chat_ctx = ''r1''" by (simp add: requestID_def chat_ctx_def)
  have n: "rw_Status new_response = None" "sv_audit chat_server = empty_trail"
    by (simp_all add: new_response_def chat_server_def demo_server_def)
  obtain w where w: "out = Some w" "rw_Status w = Some 200"
    using chat_served [OF n(1) demo_http a c] chat_request_answer by (auto simp: plain_response_def)
  from chat_accounted [OF n(1) demo_http c [unfolded w(1)]] show ?thesis
    unfolding c w(1) using w(2) a n(2) chat_request_facts(3) by (fastforce simp: rid)
qed

end
