(* ===== verification/Gate.thy ===== *)
theory Gate
  imports Accounting
begin

text \<open>
  The gateway as a whole, \<open>ServeHTTP\<close>: request ids, authentication, the multiplexer and the handlers. A request whose
  path needs a key and that presents none is answered without looking at anything but the configuration and the
  keys; of the handlers only that of chat requests changes the state of the server; and a request keeps the daily
  budgets if its day, its prices and the length of its completion are those that were checked.
\<close>

section \<open>Routes\<close>

lemma patterns_methods: "\<forall>p \<in> set patterns. fst p \<in> {''GET'', ''POST''}"
  by (simp add: patterns_def)

lemma less_5_cases: "i < 5 \<Longrightarrow> i = 0 \<or> i = 1 \<or> i = 2 \<or> i = 3 \<or> i = (4 :: nat)"
  by arith

lemma routed:
  assumes "mux_route patterns q = Handler i" and "escapes_ok (rq_Path q)"
  obtains "i = 0" "r_Path (request_of q) = ''/healthz''"
    | "i = 1" "r_Path (request_of q) = ''/metrics''"
    | "i = 2" "r_Path (request_of q) = ''/v1/admin/costs''"
    | "i = 3" "r_Path (request_of q) = ''/v1/admin/audit''"
    | "i = 4" "r_Path (request_of q) = ''/v1/chat/completions''"
proof -
  have "i < 5" "r_Path (request_of q) = CHR ''/'' # Join (snd (patterns ! i)) ''/''"
    using mux_path [OF assms patterns_methods] by (auto simp: patterns_def)
  then show thesis using that less_5_cases [of i] by (auto simp: patterns_def)
qed

lemma routed_kind:
  assumes "mux_route patterns q = Handler i" and "escapes_ok (rq_Path q)"
  shows "isPublicRoute (request_of q) \<and> i = 0 \<or> isAdminRoute (request_of q) \<and> i \<in> {1, 2, 3} \<or> isProxyRoute (request_of q) \<and> i = 4"
  using assms
  by (cases rule: routed) (simp_all add: isPublicRoute_def isAdminRoute_def isProxyRoute_def HasPrefix_iff)

text \<open>The identity under which a request passes the authentication; \<open>None\<close> if it does not.\<close>

definition gate :: "'d Server \<Rightarrow> Request \<Rightarrow> ctx option" where
  "gate s r =
     (let proven = \<lambda>a. case a of Inr (Some identity) \<Rightarrow> Some (WithIdentity None identity) | _ \<Rightarrow> None
      in if \<not> ac_Enabled (cfg_Auth (sv_cfg s)) \<or> isPublicRoute r then Some None
         else if isProxyRoute r then proven (AuthenticateProxy (sv_auth s) r)
         else if isAdminRoute r then proven (AuthenticateAdmin (sv_auth s) r)
         else Some None)"

definition tagged :: "request_env \<Rightarrow> Request \<Rightarrow> string" where
  "tagged env r = (let hid = Header_Get (r_Header r) ''X-Request-ID'' in if hid = [] then newRequestID env else hid)"

lemma ServeHTTP_gate:
  "ServeHTTP eng env q s =
     (let r = request_of q; w = set_rw ''X-Request-ID'' (tagged env r) new_response in
      case gate s r of
        None \<Rightarrow> writeUnauthorized env w
          (case (if isProxyRoute r then AuthenticateProxy (sv_auth s) r else AuthenticateAdmin (sv_auth s) r) of
             Inl e \<Rightarrow> log_error (if isProxyRoute r then ''authenticate proxy request'' else ''authenticate admin request'') e s
           | Inr _ \<Rightarrow> s)
      | Some identity \<Rightarrow> mux_ServeHTTP eng env q r \<lparr>cx_identity = identity, cx_requestID = Some (tagged env r)\<rparr> w s)"
  by (auto simp: ServeHTTP_def withRequestID_def withAuth_def gate_def tagged_def Let_def split: sum.splits option.splits)

lemma writeJSON_reply: "fst (writeJSON env c p w s) = fst (writeJSON env c p w t)"
  by (auto simp: writeJSON_def split: option.splits sum.splits prod.splits)

lemma writeUnauthorized_reply: "fst (writeUnauthorized env w s) = fst (writeUnauthorized env w t)"
  unfolding writeUnauthorized_def writeError_def by (rule writeJSON_reply)

lemma writeUnauthorized_ex:
  assumes "rw_Status w = None"
  shows "\<exists>w' s'. writeUnauthorized env w s = (Some w', s') \<and> rw_Status w' = Some 401 \<and> quiet s s'"
  unfolding writeUnauthorized_def by (rule writeError_ex) (simp_all add: assms)

lemma rw_Write_keeps: "rw_Status w = Some c \<Longrightarrow> rw_Status (snd (rw_Write f d w)) = Some c"
  by (auto simp: rw_Write_def Let_def)

lemma http_Error_status:
  "rw_Status w = None \<Longrightarrow> 200 \<le> c \<Longrightarrow> c \<le> 999 \<Longrightarrow> \<exists>w'. http_Error m c w = Some w' \<and> rw_Status w' = Some c"
  by (simp add: http_Error_def WriteHeader_valid rw_Write_keeps)

lemma http_Redirect_status:
  "rw_Status w = None \<Longrightarrow> \<exists>w'. http_Redirect m t w = Some w' \<and> rw_Status w' = Some 301"
  by (simp add: http_Redirect_def WriteHeader_valid Let_def rw_Write_keeps)

text \<open>What the multiplexer answers itself.\<close>

lemma mux_own_reply:
  assumes "rw_Status w = None" and "\<nexists>i. mux_route patterns q = Handler i"
  shows "\<exists>w' c. (\<forall>r ctx s. mux_ServeHTTP eng env q r ctx w s = (Some w', s)) \<and> rw_Status w' = Some c \<and> c \<in> {301, 404, 405}"
proof (cases "mux_route patterns q")
  case (Redirect t)
  then show ?thesis using http_Redirect_status [OF assms(1), of "rq_Method q" t] by (auto simp: mux_ServeHTTP_def)
next
  case (MethodNotAllowed ms)
  then show ?thesis
    using http_Error_status [of "set_rw ''Allow'' (Join ms '', '') w" 405 "''Method Not Allowed''"] assms(1) by (auto simp: mux_ServeHTTP_def)
next
  case NotFound
  then show ?thesis using http_Error_status [OF assms(1), of 404 "''404 page not found''"] by (auto simp: mux_ServeHTTP_def)
qed (use assms(2) in blast)

text \<open>C4: the authentication gate. With authentication enabled, a request for anything but the health check that proves
  neither a proxy nor an admin identity changes nothing but the log; it is answered with 401 if its path is that of the
  proxy or an admin route, and otherwise with a redirect, 404 or 405; and the answer depends on the
  configuration and the keys alone: two servers that agree on them answer the same, whatever their spend, audit trail,
  metrics and limits are.\<close>

theorem auth_gate:
  assumes "ac_Enabled (cfg_Auth (sv_cfg s))" and "escapes_ok (rq_Path q)" and "\<not> isPublicRoute (request_of q)"
    and "\<And>i. AuthenticateProxy (sv_auth s) (request_of q) \<noteq> Inr (Some i)"
    and "\<And>i. AuthenticateAdmin (sv_auth s) (request_of q) \<noteq> Inr (Some i)"
    and "sv_cfg t = sv_cfg s" and "sv_auth t = sv_auth s"
  shows "quiet s (snd (ServeHTTP eng env q s)) \<and> fst (ServeHTTP eng env q t) = fst (ServeHTTP eng env q s) \<and>
    (\<exists>w c. fst (ServeHTTP eng env q s) = Some w \<and> rw_Status w = Some c \<and>
       (if isProxyRoute (request_of q) \<or> isAdminRoute (request_of q) then c = 401 else c \<in> {301, 404, 405}))"
proof -
  define r where "r = request_of q"
  define w where "w = set_rw ''X-Request-ID'' (tagged env r) new_response"
  have w: "rw_Status w = None" by (simp add: w_def new_response_def)
  have tg: "gate t r = gate s r" unfolding gate_def assms(6,7) ..
  show ?thesis
  proof (cases "isProxyRoute r \<or> isAdminRoute r")
    case True
    then have g: "gate s r = None" using assms(1,3,4,5) unfolding r_def [symmetric]
      by (auto simp: gate_def Let_def split: sum.splits option.splits)
    obtain s0 t0 where s0: "ServeHTTP eng env q s = writeUnauthorized env w s0" "quiet s s0"
      and t0: "ServeHTTP eng env q t = writeUnauthorized env w t0"
      unfolding ServeHTTP_gate Let_def r_def [symmetric] w_def [symmetric] tg g by (auto split: sum.splits)
    moreover obtain w' s' where "writeUnauthorized env w s0 = (Some w', s')" "rw_Status w' = Some 401" "quiet s0 s'"
      using writeUnauthorized_ex [OF w] by blast
    ultimately show ?thesis using writeUnauthorized_reply [of env w t0 s0] True quiet_trans [of s s0 s'] unfolding r_def by simp
  next
    case False
    have g: "gate s r = Some None" using False by (simp add: gate_def Let_def)
    have "\<nexists>i. mux_route patterns q = Handler i" using routed_kind [OF _ assms(2)] assms(3) False unfolding r_def by blast
    from mux_own_reply [OF w this] obtain w' c where "\<forall>r ctx (s :: 'a Server). mux_ServeHTTP eng env q r ctx w s = (Some w', s)"
      "rw_Status w' = Some c" "c \<in> {301, 404, 405}" by blast
    then show ?thesis using False unfolding r_def [symmetric] ServeHTTP_gate Let_def w_def [symmetric] tg g by simp
  qed
qed

section \<open>The handlers\<close>

text \<open>Everything but the log and what the tracker has read from the ledger is the same.\<close>

definition untouched :: "'d Server \<Rightarrow> 'd Server \<Rightarrow> bool" where
  "untouched s s' \<longleftrightarrow> unspent (sv_costs s) (sv_costs s') \<and> sv_cfg s' = sv_cfg s \<and> sv_auth s' = sv_auth s \<and> sv_router s' = sv_router s \<and>
     sv_guard s' = sv_guard s \<and> sv_limits s' = sv_limits s \<and> sv_audit s' = sv_audit s \<and> sv_metrics s' = sv_metrics s"

lemma quiet_untouched: "quiet s s' \<Longrightarrow> untouched s s'"
  by (simp add: untouched_def quiet_fields)

lemma SnapshotTenant_keeps: "SnapshotTenant eng t now tr = (res, tr') \<Longrightarrow> unspent tr tr'"
  by (auto simp: unspent_def SnapshotTenant_def spentForDay_def Let_def same_settings_def split: prod.splits sum.splits option.splits if_splits)

lemma costsHandler_untouched: "untouched s (snd (costsHandler eng env r ctx w s))"
proof -
  obtain res tr where sn: "SnapshotTenant eng (if Query_Get r ''tenant_id'' = [] then DefaultTenantID else Query_Get r ''tenant_id'')
      (he_snapshot_now env) (sv_costs s) = (res, tr)" by fastforce
  then have "\<exists>c p. snd (costsHandler eng env r ctx w s) = snd (writeJSON env c p w (s\<lparr>sv_costs := tr\<rparr>))"
    by (cases res) (auto simp: costsHandler_def Let_def writeError_def)
  then obtain c p where "snd (costsHandler eng env r ctx w s) = snd (writeJSON env c p w (s\<lparr>sv_costs := tr\<rparr>))" by blast
  then show ?thesis
    using quiet_untouched [OF writeJSON_quiet, of "s\<lparr>sv_costs := tr\<rparr>" env c p w] SnapshotTenant_keeps [OF sn]
    by (auto simp: untouched_def unspent_def same_settings_def)
qed

lemma auditHandler_untouched: "untouched s (snd (auditHandler eng env r ctx w s))"
  unfolding auditHandler_def Let_def writeError_def
  by (auto intro!: quiet_untouched writeJSON_quiet split: option.splits sum.splits)

lemma plain_handlers_untouched:
  "untouched s (snd (healthz env r ctx w s))" "untouched s (snd (metricsHandler env r ctx w s))"
  unfolding healthz_def metricsHandler_def
  by (auto intro!: quiet_untouched writeJSON_quiet split: option.splits)

lemma ServeHTTP_effect:
  assumes "ServeHTTP eng env q s = (out, s')" and "escapes_ok (rq_Path q)"
  obtains (chat) w identity where "rw_Status w = None" "isProxyRoute (request_of q)" "gate s (request_of q) = Some identity"
      "chatCompletions eng env (request_of q) \<lparr>cx_identity = identity, cx_requestID = Some (tagged env (request_of q))\<rparr> w s = (out, s')"
    | (other) "untouched s s'"
proof -
  define r where "r = request_of q"
  define w where "w = set_rw ''X-Request-ID'' (tagged env r) new_response"
  have w: "rw_Status w = None" by (simp add: w_def new_response_def)
  note sv = assms(1) [unfolded ServeHTTP_gate Let_def, folded r_def, folded w_def]
  show thesis
  proof (cases "gate s r")
    case None
    then obtain s0 where s0: "writeUnauthorized env w s0 = (out, s')" "quiet s s0"
      using sv by (cases "if isProxyRoute r then AuthenticateProxy (sv_auth s) r else AuthenticateAdmin (sv_auth s) r") auto
    then have "quiet s0 s'" using writeUnauthorized_ex [OF w, of env s0] by auto
    then show ?thesis using s0(2) by (intro other quiet_untouched) (rule quiet_trans)
  next
    case (Some identity)
    then have m: "mux_ServeHTTP eng env q r \<lparr>cx_identity = identity, cx_requestID = Some (tagged env r)\<rparr> w s = (out, s')" using sv by simp
    show ?thesis
    proof (cases "\<exists>i. mux_route patterns q = Handler i")
      case False
      then have "s' = s" using mux_own_reply [OF w, of q eng env] m by fastforce
      then show ?thesis by (intro other quiet_untouched) simp
    next
      case True
      then obtain i where i: "mux_route patterns q = Handler i" by blast
      from routed_kind [OF i assms(2)] consider "i = 0" | "i = 1" | "i = 2" | "i = 3" | "isProxyRoute r" "i = 4" unfolding r_def by auto
      then show ?thesis
      proof cases
        case 5
        then show ?thesis using m i Some by (intro chat [OF w]) (auto simp: mux_ServeHTTP_def handlers_def r_def)
      qed (use m i plain_handlers_untouched costsHandler_untouched auditHandler_untouched in
          \<open>auto simp: mux_ServeHTTP_def handlers_def intro!: other dest!: arg_cong [where f = snd]\<close>)
    qed
  qed
qed

section \<open>Budgets\<close>

lemma unspent_within: "unspent tr tr' \<Longrightarrow> within_budget table tr \<Longrightarrow> within_budget table tr'"
proof -
  assume u: "unspent tr tr'" and b: "within_budget table tr"
  have "budgetForTenant tr' t = budgetForTenant tr t" for t using u same_settings_budget by (auto simp: unspent_def)
  moreover have "tracker_total table tr' = tracker_total table tr"
    using u by (auto simp: unspent_def tracker_total_def fun_eq_iff split: option.splits)
  ultimately show ?thesis using b by (simp add: within_budget_def)
qed

lemma unspent_pricer: "unspent tr tr' \<Longrightarrow> tr_pricer tr' = tr_pricer tr"
  by (simp add: unspent_def same_settings_def)

lemma decoded_max_tokens:
  assumes "DecodeChatCompletion jerr body = Inr chat"
  shows "in_int64 (ch_MaxTokens chat)"
proof -
  have "keeps (\<lambda>r. in_int64 (ch_MaxTokens r)) dec_request"
    unfolding dec_request_def by (rule keeps_struct) (auto intro: keeps_field [OF keeps_int] keeps_other)
  then show ?thesis using assms keepsD [of "\<lambda>r. in_int64 (ch_MaxTokens r)" dec_request zero_request]
    by (auto simp: DecodeChatCompletion_def json_Unmarshal_def zero_request_def in_int64_def split: option.splits if_splits)
qed

lemma admitted_decoded:
  "admitted eng env r t s = Some (chat, body, d) \<Longrightarrow> DecodeChatCompletion (he_jerr env) body = Inr chat"
  by (auto simp: admitted_def Let_def split: if_splits sum.splits)

lemma charged_tokens_nonneg: "0 \<le> charged_tokens up"
  using EstimateTokens_nonneg by (auto simp: charged_tokens_def CompletionTokensFromOpenAI_def split: option.splits)

lemma EstimateTokens_int64:
  assumes "int (length s) < 2 ^ 63"
  shows "in_int64 (EstimateTokens s)"
proof -
  have "EstimateTokens s \<le> int (length s)"
  proof (cases "rune_count s = 0")
    case False
    then have "(int (rune_count s) + 3) div 4 \<le> int (rune_count s)" by presburger
    then show ?thesis using rune_count_le [of s] False by (simp add: EstimateTokens_def Let_def go_div_nonneg)
  qed (simp add: EstimateTokens_def)
  then show ?thesis using assms EstimateTokens_nonneg [of s] unfolding in_int64_def by linarith
qed

text \<open>
  What a request must satisfy for the estimate to cover it: the day does not change between check and record, and the
  completion that is charged is not longer than the limit the check assumed. (No string in
  memory has as many bytes as the bound on the prompt.)
\<close>

definition fair_chat :: "'d engine \<Rightarrow> request_env \<Rightarrow> Request \<Rightarrow> string \<Rightarrow> 'd Server \<Rightarrow> bool" where
  "fair_chat eng env r t s \<longleftrightarrow>
     (case admitted eng env r t s of
        None \<Rightarrow> True
      | Some (chat, body, d) \<Rightarrow>
          Format_day (he_allow_now env) = Format_day (he_record_now env) \<and> int (length (PromptText chat)) < 2 ^ 63 \<and>
          (case fst (callProviders env chat body s) of Some (Inr up) \<Rightarrow> charged_tokens up \<le> completionLimit chat | _ \<Rightarrow> True))"

text \<open>What a request does to the tracker after the check, whatever the provider's status is and whether or not the handler panics.\<close>

lemma settle_costs:
  "sv_costs (settle eng env ctx t route chat up a pt ct s) =
     snd (RecordTenant eng t (ch_Model chat) pt ct (he_record_now env) (he_record_wall env) (sv_costs s))"
  by (auto simp: settle_def recordUsage_def recordAudit_def Let_def split: prod.split sum.split option.split)

lemma writeStream_costs: "sv_costs (snd (writeStream env up w s)) = sv_costs s"
  by (auto simp: writeStream_def Let_def split: option.split prod.split)

lemma deliver_costs:
  assumes "deliver eng env ctx t route chat up d pt w s = (out, s')"
  shows "sv_costs s' \<in> {sv_costs s,
    snd (RecordTenant eng t (ch_Model chat) pt (charged_tokens up) (he_record_now env) (he_record_wall env) (sv_costs s))}"
proof (cases "ur_Streaming up")
  case True
  then show ?thesis
    using assms writeStream_costs [of env up "set_rw ''X-GuardRail-Security'' (securityHeader d) w" s]
    by (auto simp: deliver_def settle_costs charged_tokens_def Let_def split: prod.splits option.splits)
next
  case False
  then show ?thesis using assms
    by (auto simp: deliver_def settle_costs charged_tokens_def Let_def split: prod.splits option.splits)
qed

lemma serve_costs:
  assumes w: "rw_Status w = None" and sv: "serve eng env ctx t route chat body d pt w s = (out, s')"
  shows "sv_costs s' = sv_costs s \<or> (\<exists>up. fst (callProviders env chat body s) = Some (Inr up) \<and>
    sv_costs s' = snd (RecordTenant eng t (ch_Model chat) pt (charged_tokens up) (he_record_now env) (he_record_wall env) (sv_costs s)))"
proof -
  obtain res s0 where cp: "callProviders env chat body s = (res, s0)" by fastforce
  have c: "sv_costs s0 = sv_costs s" using callProviders_frame [OF cp] by simp
  consider (panic) "res = None" | (failed) e where "res = Some (Inl e)" | (ok) up where "res = Some (Inr up)"
    by (metis option.exhaust sum.exhaust)
  then show ?thesis
  proof cases
    case failed
    obtain w' s1 where "writeError env 502 e w (log_error ''all providers failed'' e s0) = (Some w', s1)"
      and q: "quiet (log_error ''all providers failed'' e s0) s1"
      using writeError_ex [OF w, of 502 env e "log_error ''all providers failed'' e s0"] by auto
    then show ?thesis using sv cp failed c quiet_fields [OF q]
      by (auto simp: serve_def recordAudit_def split: prod.splits option.splits)
  next
    case ok
    then have "deliver eng env ctx t route chat up d pt w s0 = (out, s')" using sv cp by (simp add: serve_def)
    from deliver_costs [OF this] show ?thesis using cp ok c by auto
  qed (use sv cp c in \<open>simp add: serve_def\<close>)
qed

lemma chat_within:
  assumes L: "spend_table eng table" and w: "rw_Status w = None"
    and fair: "fair_chat eng env r (tenant_of ctx) s"
    and c: "chatCompletions eng env r ctx w s = (out, s')"
    and I: "within_budget table (sv_costs s)" "pricer_ok (tr_pricer (sv_costs s))"
  shows "within_budget table (sv_costs s') \<and> pricer_ok (tr_pricer (sv_costs s'))"
proof (cases "admitted eng env r (tenant_of ctx) s")
  case None
  obtain s1 c' where "refused s s1" "s' = s1 \<or> audited_once eng env ctx (tenant_of ctx) (r_Path r) c' s1 s'"
    using chat_refused [OF w None] c by auto
  then have "unspent (sv_costs s) (sv_costs s')"
    using audited_once_fields(2) [of eng env ctx "tenant_of ctx" "r_Path r" c' s1 s'] by (auto simp: refused_def)
  then show ?thesis using unspent_within [OF _ I(1)] unspent_pricer I(2) by metis
next
  case (Some a)
  obtain chat body d where a: "a = (chat, body, d)" by (cases a)
  let ?t = "tenant_of ctx" and ?pt = "EstimateTokens (PromptText chat)"
  from chat_admitted [OF Some [unfolded a]] obtain s1 b where
    sv: "chatCompletions eng env r ctx w s = serve eng env ctx ?t (r_Path r) chat body d ?pt w s1" and rt: "sv_router s1 = sv_router s"
    and al: "AllowTenant eng ?t (ch_Model chat) ?pt (completionLimit chat) (he_allow_now env) (sv_costs s) = (Inr b, sv_costs s1)"
    and b: "cd_Allowed b"
    by blast
  have un: "unspent (sv_costs s) (sv_costs s1)" using AllowTenant_keeps [OF al] .
  from serve_costs [OF w sv [symmetric, unfolded c]] callProviders_cong [OF rt, of env chat body]
  consider "sv_costs s' = sv_costs s1"
    | up where "fst (callProviders env chat body s) = Some (Inr up)"
        "sv_costs s' = snd (RecordTenant eng ?t (ch_Model chat) ?pt (charged_tokens up) (he_record_now env) (he_record_wall env) (sv_costs s1))"
    by auto
  then show ?thesis
  proof cases
    case 1
    then show ?thesis using unspent_within [OF un I(1)] unspent_pricer [OF un] I(2) by simp
  next
    case (2 up)
    define q where "q = \<lparr>sq_tenant = ?t, sq_model = ch_Model chat, sq_prompt = ?pt, sq_max = completionLimit chat,
      sq_completion = charged_tokens up, sq_check_now = he_allow_now env, sq_record_now = he_record_now env, sq_wall = he_record_wall env\<rparr>"
    have f: "Format_day (he_allow_now env) = Format_day (he_record_now env)" "int (length (PromptText chat)) < 2 ^ 63" "charged_tokens up \<le> completionLimit chat"
      using fair Some a 2(1) by (simp_all add: fair_chat_def)
    have "sv_costs s' = serial_request eng q (sv_costs s)"
      using 2(2) b by (simp add: serial_request_def check_request_def record_request_def q_def al)
    moreover have "req_ok q"
      using f decoded_max_tokens [OF admitted_decoded [OF Some [unfolded a]]] EstimateTokens_nonneg charged_tokens_nonneg EstimateTokens_int64
      by (simp add: req_ok_def q_def completionLimit_def in_int64_def)
    ultimately show ?thesis using serial_request_within [OF L I(2) _ I(1)] I by (auto simp: same_settings_def)
  qed
qed

definition fair_request :: "'d engine \<Rightarrow> request_env \<Rightarrow> RawRequest \<Rightarrow> 'd Server \<Rightarrow> bool" where
  "fair_request eng env q s \<longleftrightarrow>
     (case gate s (request_of q) of
        None \<Rightarrow> True
      | Some identity \<Rightarrow> fair_chat eng env (request_of q) (id_TenantID (FromContext identity)) s)"

lemma request_within:
  assumes "spend_table eng table" and "escapes_ok (rq_Path q)" and "fair_request eng env q s" and "ServeHTTP eng env q s = (out, s')"
    and "within_budget table (sv_costs s)" and "pricer_ok (tr_pricer (sv_costs s))"
  shows "within_budget table (sv_costs s') \<and> pricer_ok (tr_pricer (sv_costs s'))"
  using assms(4,2)
proof (cases rule: ServeHTTP_effect)
  case (chat w identity)
  then show ?thesis
    using chat_within [OF assms(1) chat(1) _ chat(4) assms(5,6)] assms(3) by (simp add: fair_request_def tenant_of_def)
next
  case other
  then have u: "unspent (sv_costs s) (sv_costs s')" by (simp add: untouched_def)
  show ?thesis using unspent_within [OF u] unspent_pricer [OF u] assms(5,6) by simp
qed

section \<open>Examples\<close>

definition chat_raw :: RawRequest where
  "chat_raw = \<lparr>rq_Method = ''POST'', rq_Path = ''/v1/chat/completions'', rq_RawQuery = [], rq_Header = [], rq_Body = chat_body, rq_BodyErr = None\<rparr>"

lemma chat_raw_request: "request_of chat_raw = chat_request"
proof -
  have "unescape False ''/v1/chat/completions'' = ''/v1/chat/completions''" "url_Query (url_empty\<lparr>url_RawQuery := []\<rparr>) = []" by code_simp+
  then show ?thesis by (simp add: request_of_def chat_raw_def chat_request_def)
qed

lemma chat_raw_fair: "fair_request lite_engine demo_env chat_raw chat_server"
proof -
  have "gate chat_server chat_request = Some None"
    by (simp add: gate_def Let_def chat_server_def demo_server_def Default_def)
  moreover have "charged_tokens (plain_response [] ''{}'' ''b'' 200) \<le> 1" by code_simp
  moreover have "PromptText chat_decoded = ''hi''" by code_simp
  moreover have "Format_day (he_allow_now demo_env) = Format_day (he_record_now demo_env)" by (simp add: demo_env_def)
  moreover have "id_TenantID (FromContext None) = tenant_of chat_ctx" by (simp add: tenant_of_def chat_ctx_def)
  ultimately show ?thesis
    using chat_request_admitted chat_request_answer chat_request_facts(4)
    by (auto simp: fair_request_def chat_raw_request fair_chat_def)
qed

definition metrics_raw :: RawRequest where
  "metrics_raw = chat_raw\<lparr>rq_Method := ''GET'', rq_Path := ''/metrics''\<rparr>"

theorem auth_gate_witness:
  "\<exists>w. fst (ServeHTTP lite_engine demo_env metrics_raw demo_server) = Some w \<and> rw_Status w = Some 401 \<and>
     quiet demo_server (snd (ServeHTTP lite_engine demo_env metrics_raw demo_server))"
proof -
  have p: "r_Path (request_of metrics_raw) = ''/metrics''"
  proof -
    have "unescape False ''/metrics'' = ''/metrics''" by code_simp
    then show ?thesis by (simp add: request_of_def metrics_raw_def)
  qed
  have esc: "escapes_ok (rq_Path metrics_raw)" by code_simp
  have route: "\<not> isPublicRoute (request_of metrics_raw)" "isAdminRoute (request_of metrics_raw)"
    by (simp_all add: isPublicRoute_def isAdminRoute_def p)
  have en: "ac_Enabled (cfg_Auth (sv_cfg demo_server))" by (simp add: demo_server_def Default_def)
  have au: "sv_auth demo_server = NewManagerWithVerifier Default None" by (simp add: demo_server_def)
  have "AuthenticateProxy (sv_auth demo_server) (request_of metrics_raw) = Inr None"
    "AuthenticateAdmin (sv_auth demo_server) (request_of metrics_raw) = Inr None"
    unfolding au by code_simp+
  with auth_gate [OF en esc route(1), of demo_server lite_engine demo_env] show ?thesis using route(2) by auto
qed

end
