(* ===== verification/Redaction.thy ===== *)
theory Redaction
  imports Gate
begin

text \<open>
  What leaves the gateway when the guard redacts. The bytes sent to providers that take the request as it is are the
  output of \<open>Redact\<close>, so they contain no e-mail address and no OpenAI key. The guard inspects the decoded prompt
  while it redacts the encoded body, so a character written as a JSON escape is seen by the one and not by the other.
\<close>

section \<open>Requests to providers\<close>

lemma set_header_Body [simp]: "hq_Body (set_header k v q) = hq_Body q"
  by (simp add: set_header_def)

lemma NewRequest_Body: "NewRequest m u b = Inr q \<Longrightarrow> hq_Body q = b"
  by (auto simp: NewRequest_def split: sum.splits)

lemma openAI_cong:
  assumes "\<And>tmo q. hq_Body q = body \<Longrightarrow> c1 tmo q = c2 tmo q"
  shows "openAI c1 chat body p = openAI c2 chat body p"
proof (cases "NewRequest ''POST'' (Endpoint p ''/chat/completions'') body")
  case (Inr q)
  then have "hq_Body q = body" by (rule NewRequest_Body)
  then show ?thesis using Inr assms by (simp add: openAI_def Let_def split: prod.split option.split)
qed (simp add: openAI_def)

definition takes_body :: "Provider \<Rightarrow> bool" where
  "takes_body p \<longleftrightarrow> pv_Type p \<in> {ProviderOpenAI, ProviderOpenAICompatible}"

lemma ChatCompletions_cong:
  assumes "takes_body p" and "\<And>tmo q. hq_Body q = body \<Longrightarrow> ue_client e1 tmo q = ue_client e2 tmo q"
  shows "ChatCompletions e1 chat body p = ChatCompletions e2 chat body p"
  using openAI_cong [of body "ue_client e1" "ue_client e2"] assms by (auto simp: ChatCompletions_def takes_body_def)

lemma try_candidates_cong:
  assumes "\<And>i tmo q. hq_Body q = body \<Longrightarrow> ue_client (he_upstream e1 i) tmo q = ue_client (he_upstream e2 i) tmo q"
    and "distinct cs" and "\<And>c. c \<in> set cs \<Longrightarrow> takes_body (sv_router s ! c)"
  shows "try_candidates e1 chat body i cs e s = try_candidates e2 chat body i cs e s"
  using assms(2,3)
proof (induction cs arbitrary: i e s)
  case (Cons c cs)
  obtain out p where c1: "ChatCompletions (he_upstream e1 i) chat body (sv_router s ! c) = (out, p)" by fastforce
  have c2: "ChatCompletions (he_upstream e2 i) chat body (sv_router s ! c) = (out, p)"
    using c1 ChatCompletions_cong [of "sv_router s ! c" body "he_upstream e1 i" "he_upstream e2 i" chat] Cons.prems(2) assms(1) by simp
  have "takes_body (sv_router (after_attempt i c p s) ! d)" if "d \<in> set cs" for d
  proof -
    have "d \<noteq> c" using Cons.prems(1) that by auto
    then show ?thesis using Cons.prems(2) that by (simp add: after_attempt_def)
  qed
  with Cons.IH Cons.prems(1) show ?case unfolding try_candidates_step [OF c1] try_candidates_step [OF c2] by simp
qed simp

text \<open>A text with a part that has the shape of an e-mail address or of an OpenAI key.\<close>

definition leaks :: "string \<Rightarrow> bool" where
  "leaks b \<longleftrightarrow> (\<exists>u. sublist u b \<and> (email_shape u \<or> key_shape u))"

lemma Redact_no_leak: "\<not> leaks (fst (Redact (NewGuard compile cfg) body))"
  using Redact_clean [of compile cfg body] unfolding leaks_def clean_def words_email words_openai_key by blast

lemma admitted_redacted:
  "admitted eng env r t s = Some (chat, body, d) \<Longrightarrow> sd_Action d = ActionRedact \<Longrightarrow> \<exists>raw. body = fst (Redact (sv_guard s) raw)"
  by (auto simp: admitted_def Let_def split: if_splits sum.splits)

text \<open>C6: redacted bytes are what is sent. When a request is admitted with the action redact and its candidates take the
  body as it is, then no byte sequence with an e-mail address or an OpenAI key reaches a provider, in any of
  the attempts: a transport that treated every such body in some other way, by refusing or altering it or by
  keeping a copy, would make no difference to the calls.\<close>

theorem redacted_bytes_sent:
  assumes "sv_guard s = NewGuard compile cfg" and "admitted eng env r t s = Some (chat, body, d)" and "sd_Action d = ActionRedact"
    and "\<And>c. c \<in> set (Candidates (sv_router s) (ch_Model chat)) \<Longrightarrow> takes_body (sv_router s ! c)"
    and "\<And>i tmo q. \<not> leaks (hq_Body q) \<Longrightarrow> ue_client (he_upstream env' i) tmo q = ue_client (he_upstream env i) tmo q"
  shows "callProviders env' chat body s = callProviders env chat body s"
proof -
  have "\<not> leaks body" using admitted_redacted [OF assms(2,3)] Redact_no_leak assms(1) by auto
  then have "try_candidates env' chat body 0 cs [] s = try_candidates env chat body 0 cs [] s"
    if "cs = Candidates (sv_router s) (ch_Model chat)" for cs
    using that assms(4,5) Candidates_distinct [of "sv_router s"] by (intro try_candidates_cong) auto
  then show ?thesis by (simp add: callProviders_def Let_def)
qed

section \<open>Texts without a match\<close>

text \<open>A necessary condition for a match that is easy to evaluate: which characters it is made of, and its length.\<close>

fun made_of :: "(char \<Rightarrow> bool) \<Rightarrow> re \<Rightarrow> bool" where
  "made_of C Eps \<longleftrightarrow> True"
| "made_of C (Cls rs) \<longleftrightarrow> (\<forall>c. in_cls rs c \<longrightarrow> C c)"
| "made_of C (Seq a b) \<longleftrightarrow> made_of C a \<and> made_of C b"
| "made_of C (Alt a b) \<longleftrightarrow> made_of C a \<and> made_of C b"
| "made_of C (Star g r) \<longleftrightarrow> made_of C r"
| "made_of C (Look f) \<longleftrightarrow> True"

fun minlen :: "re \<Rightarrow> nat" where
  "minlen Eps = 0"
| "minlen (Cls rs) = 1"
| "minlen (Seq a b) = minlen a + minlen b"
| "minlen (Alt a b) = min (minlen a) (minlen b)"
| "minlen (Star g r) = 0"
| "minlen (Look f) = 0"

fun has_run :: "(char \<Rightarrow> bool) \<Rightarrow> nat \<Rightarrow> string \<Rightarrow> bool" where
  "has_run C n [] \<longleftrightarrow> n = 0"
| "has_run C n (c # s) \<longleftrightarrow> n \<le> length (takeWhile C (c # s)) \<or> has_run C n s"

lemma has_runI: "list_all C u \<Longrightarrow> n \<le> length u \<Longrightarrow> has_run C n (v @ u @ t)"
proof (induction v)
  case Nil
  then have "n \<le> length (takeWhile C (u @ t))" by (simp add: takeWhile_append2 list_all_iff)
  then show ?case using Nil by (cases "u @ t") auto
qed simp

lemma FindAllString_none:
  assumes "\<And>p u t v. s = v @ u @ t \<Longrightarrow> \<not> Mt r p u t"
  shows "FindAllString r s = []"
proof -
  have "doExecute r s 0 = None"
    using find_from_Some [of r "last_of None []" s 0] assms unfolding doExecute_def by (cases "find_from r (last_of None []) s 0") auto
  then show ?thesis by (simp add: FindAllString_def all_matches.simps [of r s 0])
qed

lemma Mt_seqs_last: "Mt (seqs (rs @ [r])) p u t \<Longrightarrow> \<exists>v w p'. u = v @ w \<and> Mt r p' w t"
proof (induction rs arbitrary: p u)
  case Nil
  then have "Mt r p u t" by (auto simp: seqs_def elim!: Mt_SeqE Mt_EpsE)
  then show ?case by (metis append_Nil)
next
  case (Cons a rs)
  then have "Mt (Seq a (seqs (rs @ [r]))) p u t" by (simp add: seqs_def)
  then show ?case
    by (rule Mt_SeqE) (use Cons.IH in \<open>metis append.assoc\<close>)
qed

lemma made_of_exactly [simp]: "made_of C (exactly n r) \<longleftrightarrow> n = 0 \<or> made_of C r"
  by (induction n) auto

lemma made_of_up_to [simp]: "made_of C (up_to n r) \<longleftrightarrow> n = 0 \<or> made_of C r"
  by (induction n) (auto simp: opt_def)

lemma minlen_exactly [simp]: "minlen (exactly n r) = n * minlen r"
  by (induction n) auto

lemma Mt_made_of: "Mt r p u t \<Longrightarrow> made_of C r \<Longrightarrow> list_all C u \<and> minlen r \<le> length u"
  by (induction rule: Mt.induct) auto

text \<open>A card number is made of digits, spaces and dashes; an API key ends in a run of key characters.\<close>

definition card_char :: "char \<Rightarrow> bool" where
  "card_char = in_cls [(0x30, 0x39), (0x20, 0x20), (0x2D, 0x2D)]"

definition api_key_char :: "char \<Rightarrow> bool" where
  "api_key_char = in_cls (key_chars @ [(0x80, 0xFF)])"

lemma no_credit_card:
  assumes "\<not> has_run card_char 13 s"
  shows "FindAllString credit_card_re s = []"
proof (rule FindAllString_none)
  fix p u t v assume s: "s = v @ u @ t"
  have "made_of card_char credit_card_re" "13 \<le> minlen credit_card_re"
    by (auto simp: credit_card_re_def seqs_def word_boundary_def repeat_def digit_def card_char_def in_cls_def)
  then show "\<not> Mt credit_card_re p u t" using Mt_made_of has_runI [of card_char u 13 v t] assms s by fastforce
qed

lemma no_api_key:
  assumes "\<not> has_run api_key_char 16 s"
  shows "FindAllString generic_api_key_re s = []"
proof (rule FindAllString_none)
  fix p u t v assume s: "s = v @ u @ t"
  let ?r = "at_least 16 (alts [Cls key_chars, kelvin, long_s])"
  have c: "made_of api_key_char ?r" "16 \<le> minlen ?r"
    by (auto simp: at_least_def kelvin_def long_s_def lit_def seqs_def api_key_char_def in_cls_def between_def byte_def)
  show "\<not> Mt generic_api_key_re p u t"
  proof
    assume "Mt generic_api_key_re p u t"
    then obtain x y p' where xy: "u = x @ y" "Mt ?r p' y t"
      using Mt_seqs_last [of "[word_boundary,
       alts [seqs [lit_i ''api'', opt (Cls [(0x5F, 0x5F), (0x2D, 0x2D)]), lit_i ''key''], lit_i ''token'', lit_i ''secret''],
       Star True space, Cls [(0x3A, 0x3A), (0x3D, 0x3D)], Star True space, opt (Cls [(0x22, 0x22), (0x27, 0x27)])]" ?r p u t]
      by (auto simp: generic_api_key_re_def)
    then show False using Mt_made_of [OF xy(2) c(1)] has_runI [of api_key_char y 16 "v @ x" t] c(2) assms s by simp
  qed
qed

section \<open>Examples\<close>

definition redact_guard :: Guard where
  "redact_guard = NewGuard (\<lambda>_. None) \<lparr>sec_PromptInjectionMode = ''off'', sec_PIIMode = ''redact'', sec_ExtraPIIPatterns = []\<rparr>"

text \<open>A request whose message is \<open>text\<close>, as it stands in the JSON.\<close>

definition body_with :: "string \<Rightarrow> string" where
  "body_with text = ''{'' @ quoted ''model'' @ '':'' @ quoted ''m'' @ '','' @ quoted ''messages'' @
     '':[{'' @ quoted ''content'' @ '':'' @ quoted text @ ''}]}''"

definition decoded_with :: "string \<Rightarrow> ChatCompletionRequest" where
  "decoded_with text = chat_decoded\<lparr>ch_MaxTokens := 0, ch_Messages := ([\<lparr>cm_Role = [], cm_Content = Some (JStr text)\<rparr>], 1)\<rparr>"

lemma redact_guard_modes: "g_promptMode redact_guard = ''off''" "g_piiMode redact_guard = ''redact''" "g_pii redact_guard = piiRules"
proof -
  have "ToLower (TrimSpace ''off'') = ''off''" "ToLower (TrimSpace ''redact'') = ''redact''" by code_simp+
  then show "g_promptMode redact_guard = ''off''" "g_piiMode redact_guard = ''redact''" "g_pii redact_guard = piiRules"
    by (simp_all add: redact_guard_def NewGuard_def normalizeMode_def)
qed

lemma pii_silent:
  assumes "\<not> has_run card_char 13 s" and "\<not> has_run api_key_char 16 s"
  shows "redact_rules (tl piiRules) s fs = (s, fs)"
proof -
  have "FindAllString openai_key_re s = []"
  proof (rule FindAllString_none)
    fix p u t v assume s: "s = v @ u @ t"
    have c: "made_of api_key_char (at_least 20 (Cls key_chars))" "20 \<le> minlen (at_least 20 (Cls key_chars))"
      by (auto simp: at_least_def api_key_char_def in_cls_def)
    show "\<not> Mt openai_key_re p u t"
    proof
      assume "Mt openai_key_re p u t"
      then obtain x y p' where xy: "u = x @ y" "Mt (at_least 20 (Cls key_chars)) p' y t"
        using Mt_seqs_last [of "[lit ''sk-'']" "at_least 20 (Cls key_chars)" p u t] by (auto simp: openai_key_re_def)
      then show False using Mt_made_of [OF xy(2) c(1)] has_runI [of api_key_char y 16 "v @ x" t] c(2) assms(2) s by simp
    qed
  qed
  then show ?thesis using no_credit_card [OF assms(1)] no_api_key [OF assms(2)] by (simp add: piiRules_def FindAllString_Nil)
qed

text \<open>Redaction of a request: an e-mail address that is written out, and one that is written with an escape.\<close>

definition escaped_at :: string where
  "escaped_at = ''a'' @ [CHR 0x5C] @ ''u0040b.co''"

lemma Redact_email:
  assumes "ReplaceAllString email_re body ''[REDACTED_EMAIL]'' = out"
    and "\<not> has_run card_char 13 out" and "\<not> has_run api_key_char 16 out"
  shows "fst (Redact redact_guard body) = out"
proof -
  have "ToUpper ''email'' = ''EMAIL''" by code_simp
  then have "fst (Redact redact_guard body) = fst (redact_rules (tl piiRules) out
      (map (\<lambda>match. \<lparr>fi_Kind = ''pii'', fi_Rule = ''email'', fi_Match = match\<rparr>) (FindAllString email_re body)))"
    using assms(1) by (simp add: Redact_def redact_guard_modes piiRules_def)
  then show ?thesis using pii_silent [OF assms(2,3)] by simp
qed

lemma redacted_plain: "fst (Redact redact_guard (body_with ''a@b.co'')) = body_with ''[REDACTED_EMAIL]''"
  by (rule Redact_email; code_simp)

lemma redacted_escaped: "fst (Redact redact_guard (body_with escaped_at)) = body_with escaped_at"
  by (rule Redact_email; code_simp)

lemma decoded_plain: "DecodeChatCompletion (\<lambda>_. []) (body_with ''a@b.co'') = Inr (decoded_with ''a@b.co'')"
  by code_simp

lemma decoded_redacted: "DecodeChatCompletion (\<lambda>_. []) (body_with ''[REDACTED_EMAIL]'') = Inr (decoded_with ''[REDACTED_EMAIL]'')"
  by code_simp

lemma decoded_escaped: "DecodeChatCompletion (\<lambda>_. []) (body_with escaped_at) = Inr (decoded_with ''a@b.co'')"
  by code_simp

lemma prompt_plain: "PromptText (decoded_with ''a@b.co'') = ''a@b.co''"
  by code_simp

lemma inspect_example: "sd_Action (Inspect redact_guard ''a@b.co'') = ActionRedact"
proof -
  have "FindString email_re ''a@b.co'' \<noteq> []" by code_simp
  then have "list_ex (\<lambda>f. fi_Kind f = ''pii'') (sd_Findings (Inspect redact_guard ''a@b.co''))"
    by (simp add: Inspect_def Let_def redact_guard_modes piiRules_def)
  then show ?thesis unfolding Inspect_action actionFor_eq by (simp add: redact_guard_modes actionFromMode_def strongest_def)
qed

text \<open>A server without budgets that redacts.\<close>

definition free_tracker :: "lite Tracker" where
  "free_tracker = NewTracker \<lparr>cc_DailyBudgetUSD = Fin 0, cc_PerRequestBudgetUSD = Fin 0\<rparr>"

definition redact_server :: "lite Server" where
  "redact_server = chat_server\<lparr>sv_guard := redact_guard, sv_costs := free_tracker\<rparr>"

definition redact_request :: "string \<Rightarrow> Request" where
  "redact_request text = chat_request\<lparr>r_Body := body_with text\<rparr>"

lemma free_tracker_allows:
  "\<exists>b. fst (AllowTenant lite_engine t m pt mt now free_tracker) = Inr b \<and> cd_Allowed b"
  by (simp add: AllowTenant_def spentForDay_def budgetForTenant_def free_tracker_def NewTracker_def NewTrackerWithLedger_def
      NewTrackerWithOptions_def tenantBudgets_def Let_def f64_lt_iff split: option.split)

lemma redact_admitted:
  assumes "length x < 100" and "DecodeChatCompletion (\<lambda>_. []) (body_with x) = Inr (decoded_with ''a@b.co'')"
    and "fst (Redact redact_guard (body_with x)) = body_with y"
    and "DecodeChatCompletion (\<lambda>_. []) (body_with y) = Inr (decoded_with z)"
  shows "\<exists>d. admitted lite_engine demo_env (redact_request x) ''default'' redact_server = Some (decoded_with z, body_with y, d) \<and>
    sd_Action d = ActionRedact"
proof -
  have rb: "readRequestBody (redact_request x) = Inr (body_with x)"
    using assms(1) by (simp add: readRequestBody_def redact_request_def chat_request_def body_with_def quoted_def maxRequestBytes_def)
  have s: "sv_guard redact_server = redact_guard" "sv_costs redact_server = free_tracker" "sv_limits redact_server = None"
    "he_jerr demo_env = (\<lambda>_. [])"
    by (simp_all add: redact_server_def chat_server_def demo_server_def demo_env_def)
  obtain b where "fst (AllowTenant lite_engine ''default'' (ch_Model (decoded_with z)) (EstimateTokens (PromptText (decoded_with z)))
      (completionLimit (decoded_with z)) (he_allow_now demo_env) free_tracker) = Inr b" "cd_Allowed b"
    using free_tracker_allows by blast
  then show ?thesis
    unfolding admitted_def Let_def rate_limited_def s rb sum.case assms(2) prompt_plain inspect_example
    by (simp add: assms(3,4) inspect_example)
qed

text \<open>C36: redaction can be evaded. A message that writes the at sign of an e-mail address as a JSON escape is inspected as an
  e-mail address, the decision is to redact, and yet the request is forwarded byte for byte: the forwarded
  body decodes to the same message with the address in it.\<close>

theorem redaction_evaded:
  "\<exists>d. admitted lite_engine demo_env (redact_request escaped_at) ''default'' redact_server =
       Some (decoded_with ''a@b.co'', r_Body (redact_request escaped_at), d) \<and>
     sd_Action d = ActionRedact \<and> email_shape (PromptText (decoded_with ''a@b.co''))"
proof -
  have "email_shape ''a@b.co''" unfolding email_shape_def
    by (intro exI [of _ "''a''"] exI [of _ "''b''"] exI [of _ "''co''"]) code_simp
  moreover have "length escaped_at < 100" by code_simp
  ultimately show ?thesis
    using redact_admitted [OF _ decoded_escaped redacted_escaped decoded_escaped]
    by (simp add: prompt_plain redact_request_def)
qed

text \<open>A transport that answers differently when it is handed an address.\<close>

definition spying_env :: request_env where
  "spying_env = demo_env\<lparr>he_upstream := \<lambda>i. (demo_upstream i)\<lparr>ue_client := \<lambda>tmo q.
     if leaks (hq_Body q) then Inl ''leaked'' else ue_client (demo_upstream i) tmo q\<rparr>\<rparr>"

theorem redacted_bytes_sent_witness:
  "\<exists>d. admitted lite_engine demo_env (redact_request ''a@b.co'') ''default'' redact_server =
      Some (decoded_with ''[REDACTED_EMAIL]'', body_with ''[REDACTED_EMAIL]'', d) \<and>
    callProviders spying_env (decoded_with ''[REDACTED_EMAIL]'') (body_with ''[REDACTED_EMAIL]'') redact_server =
      callProviders demo_env (decoded_with ''[REDACTED_EMAIL]'') (body_with ''[REDACTED_EMAIL]'') redact_server"
proof -
  have "length ''a@b.co'' < 100" by simp
  from redact_admitted [OF this decoded_plain redacted_plain decoded_redacted] obtain d where
    d: "admitted lite_engine demo_env (redact_request ''a@b.co'') ''default'' redact_server =
      Some (decoded_with ''[REDACTED_EMAIL]'', body_with ''[REDACTED_EMAIL]'', d)" "sd_Action d = ActionRedact" by blast
  have g: "sv_guard redact_server = NewGuard (\<lambda>_. None) \<lparr>sec_PromptInjectionMode = ''off'', sec_PIIMode = ''redact'', sec_ExtraPIIPatterns = []\<rparr>"
    by (simp add: redact_server_def redact_guard_def)
  have "takes_body (sv_router redact_server ! c)" if "c \<in> set (Candidates (sv_router redact_server) m)" for c m
  proof -
    have "sv_router redact_server = demo_router" by (simp add: redact_server_def chat_server_def demo_server_def)
    then show ?thesis using that Candidates_bound [of demo_router m]
      by (auto simp: demo_router_def takes_body_def demo_provider_def less_Suc_eq nth_Cons')
  qed
  then have "callProviders spying_env (decoded_with ''[REDACTED_EMAIL]'') (body_with ''[REDACTED_EMAIL]'') redact_server =
      callProviders demo_env (decoded_with ''[REDACTED_EMAIL]'') (body_with ''[REDACTED_EMAIL]'') redact_server"
    by (intro redacted_bytes_sent [OF g d]) (auto simp: spying_env_def demo_env_def)
  then show ?thesis using d by blast
qed

end
