(* ===== verification/Run.thy ===== *)
theory Run
  imports Redaction
begin

text \<open>
  The program: \<open>internal/cmd/run.go\<close>, \<open>Server.Run\<close> of \<open>internal/gateway/server.go\<close> and \<open>cmd/guardrail/main.go\<close>.
  \<open>Execute\<close> parses the flags, loads the configuration, opens the two stores, builds the components and serves until the
  context is cancelled or the listener fails. What happens meanwhile is a list of activities: requests, and ticks of the
  goroutine that refreshes the price table. The operating system, the database, the YAML decoder, the OIDC library
  and the network are arguments.

  The theorems: the budgets hold while the server runs, price refreshes between requests included; when a start succeeds; and
  which settings apply to a tenant.
\<close>

section \<open>Package flag\<close>

text \<open>One string flag, \<open>config\<close>; the value is that of its last occurrence.\<close>

definition flag_name :: "string \<Rightarrow> string \<times> string option" where
  "flag_name name =
     (let n = takeWhile (\<lambda>c. c \<noteq> CHR ''='') (tl name)
      in if n = tl name then (name, None) else (hd name # n, Some (drop (Suc (length n)) (tl name))))"

fun flag_Parse :: "string list \<Rightarrow> string \<Rightarrow> string result" where
  "flag_Parse [] v = Inr v"
| "flag_Parse (s # rest) v =
     (if length s < 2 \<or> hd s \<noteq> CHR ''-'' then Inr v
      else if s = ''--'' then Inr v
      else
        let name = (if s ! 1 = CHR ''-'' then drop 2 s else drop 1 s)
        in if name = [] \<or> hd name = CHR ''-'' \<or> hd name = CHR ''='' then Inl (''bad flag syntax: '' @ s)
           else case flag_name name of
             (n, value) \<Rightarrow>
               if n \<noteq> ''config''
               then Inl (if n = ''help'' \<or> n = ''h'' then ''flag: help requested'' else ''flag provided but not defined: -'' @ n)
               else (case value of
                       Some x \<Rightarrow> flag_Parse rest x
                     | None \<Rightarrow>
                         (case rest of
                            [] \<Rightarrow> Inl (''flag needs an argument: -'' @ n)
                          | x # rest' \<Rightarrow> flag_Parse rest' x)))"

section \<open>Logger (run.go)\<close>

text \<open>
  \<open>Level.UnmarshalText\<close> of log/slog: a name in any case and an optional offset. \<open>strings.ToUpper\<close> maps two code points
  beyond ASCII to letters, U+0131 and U+017F.
\<close>

fun upper_name :: "string \<Rightarrow> string" where
  "upper_name [] = []"
| "upper_name (c # cs) =
     (if byte c = 0xC4 \<and> prefix [CHR 0xB1] cs then CHR ''I'' # upper_name (drop 1 cs)
      else if byte c = 0xC5 \<and> prefix [CHR 0xBF] cs then CHR ''S'' # upper_name (drop 1 cs)
      else upper c # upper_name cs)"

definition parse_level :: "string \<Rightarrow> int option" where
  "parse_level s =
     (let name = takeWhile (\<lambda>c. c \<noteq> CHR ''+'' \<and> c \<noteq> CHR ''-'') s;
          suffix = drop (length name) s
      in case (if suffix = [] then Some 0 else Atoi suffix) of
           None \<Rightarrow> None
         | Some offset \<Rightarrow>
             map_option (\<lambda>l. wrap64 (l + offset))
               (map_of [(''DEBUG'', -4), (''INFO'', 0), (''WARN'', 4), (''ERROR'', 8)] (upper_name name)))"

text \<open>The least level that is written.\<close>

definition newLogger :: "string \<Rightarrow> int" where
  "newLogger level = (case parse_level level of None \<Rightarrow> 0 | Some l \<Rightarrow> l)"

section \<open>Serving (server.go)\<close>

datatype activity =
    Request request_env RawRequest
  | PriceTick "string \<Rightarrow> feed_response result"

text \<open>A tick of the refreshing goroutine, which runs where there is a URL and an interval.\<close>

definition refresh_prices :: "(string \<Rightarrow> string) \<Rightarrow> (string \<Rightarrow> feed_response result) \<Rightarrow> 'd Server \<Rightarrow> 'd Server" where
  "refresh_prices jerr get s =
     (case tr_pricer (sv_costs s) of
        StaticPricer \<Rightarrow> s
      | TablePricer p \<Rightarrow>
          if pt_url p = [] \<or> prc_RefreshInterval (cfg_Pricing (sv_cfg s)) \<le> 0 then s
          else (case PriceTable_Refresh jerr get p of
                  (e, p') \<Rightarrow>
                    let s = s\<lparr>sv_costs := (sv_costs s)\<lparr>tr_pricer := TablePricer p'\<rparr>\<rparr>
                    in case e of None \<Rightarrow> s | Some e \<Rightarrow> log_error ''refresh pricing table'' e s))"

fun act :: "'d engine \<Rightarrow> (string \<Rightarrow> string) \<Rightarrow> activity \<Rightarrow> 'd Server \<Rightarrow> 'd Server" where
  "act eng jerr (Request env q) s = snd (ServeHTTP eng env q s)"
| "act eng jerr (PriceTick get) s = refresh_prices jerr get s"

text \<open>What ends the service: the context, with the error of the shutdown if there is one, or the listener.\<close>

datatype run_end = ContextDone "string option" | ListenerClosed "string option"

fun run_error :: "run_end \<Rightarrow> string option" where
  "run_error (ContextDone None) = None"
| "run_error (ContextDone (Some e)) = Some (''shutdown http server: '' @ e)"
| "run_error (ListenerClosed None) = None"
| "run_error (ListenerClosed (Some e)) = Some (''listen: '' @ e)"

definition Server_Run :: "'d engine \<Rightarrow> (string \<Rightarrow> string) \<Rightarrow> activity list \<Rightarrow> run_end \<Rightarrow> 'd Server \<Rightarrow> string option \<times> 'd Server" where
  "Server_Run eng jerr acts fin s = (run_error fin, fold (act eng jerr) acts s)"

section \<open>Execute (run.go)\<close>

record ('d, 'c) system =
  os_getenv :: "string \<Rightarrow> string"
  os_ReadFile :: "string \<Rightarrow> string option + string"
  os_yaml :: "string \<Rightarrow> Config \<Rightarrow> Config result"
  os_engine :: "'d engine"
  os_clock :: "int \<Rightarrow> time"
  os_db :: 'd
  os_NewProvider :: "string \<Rightarrow> (string \<Rightarrow> 'c IDTokenVerifier) result"
  os_Claims :: "'c \<Rightarrow> (string \<times> any) list result"
  os_compile :: "string \<Rightarrow> re option"
  os_get :: "string \<Rightarrow> feed_response result"
  os_jerr :: "string \<Rightarrow> string"

text \<open>How \<open>Execute\<close> ends: its error, the logger's level, and the database, or the server that has it if it got that far.\<close>

record 'd outcome =
  oc_err :: "string option"
  oc_level :: "int option"
  oc_server :: "'d Server option"
  oc_db :: "'d option"

definition stopped :: "string \<Rightarrow> int option \<Rightarrow> 'd \<Rightarrow> 'd outcome" where
  "stopped e level db = \<lparr>oc_err = Some e, oc_level = level, oc_server = None, oc_db = Some db\<rparr>"

text \<open>The server over its components; \<open>db\<close> is the database after both stores are opened, \<open>warning\<close> the error of the first refresh.\<close>

definition start_server :: "(string \<Rightarrow> re option) \<Rightarrow> Config \<Rightarrow> Manager \<Rightarrow> Router \<Rightarrow> PriceTable \<Rightarrow> string option \<Rightarrow> 'd \<Rightarrow> 'd Server" where
  "start_server compile cfg auth router priceTable warning db =
     (let s = Server_New
        \<lparr>dp_Config = cfg, dp_Auth = Some auth, dp_Router = router, dp_Guard = NewGuard compile (cfg_Security cfg),
         dp_Costs = NewTrackerWithOptions (cfg_Cost cfg) (cfg_Tenants cfg) (Some db) (Some (TablePricer priceTable)),
         dp_Limits = Some (Limiter_New (cfg_RateLimit cfg) (cfg_Tenants cfg)), dp_Audit = db, dp_Metrics = NewRegistry\<rparr>
      in case warning of None \<Rightarrow> s | Some e \<Rightarrow> log_error ''refresh pricing table'' e s)"

definition startup :: "('d, 'c) system \<Rightarrow> string list \<Rightarrow> 'd outcome + int \<times> 'd Server" where
  "startup os args =
     (case flag_Parse args [] of
        Inl e \<Rightarrow> Inl (stopped (''parse flags: '' @ e) None (os_db os))
      | Inr configPath \<Rightarrow>
     (case Load (os_getenv os) (os_ReadFile os) (os_yaml os) configPath of
        Inl e \<Rightarrow> Inl (stopped (''load config: '' @ e) None (os_db os))
      | Inr cfg \<Rightarrow>
     (let level = newLogger (sc_LogLevel (cfg_Server cfg));
          dsn = auc_SQLiteDSN (cfg_Audit cfg);
          eng = os_engine os
      in case Audit_Open eng (os_clock os) dsn (os_db os) of
        (Some e, db) \<Rightarrow> Inl (stopped (''open audit store: '' @ e) (Some level) db)
      | (None, db) \<Rightarrow>
     (case OpenSQLiteLedger eng (os_clock os) dsn db of
        (Some e, db) \<Rightarrow> Inl (stopped (''open cost ledger: '' @ e) (Some level) (Store_Close eng db))
      | (None, db) \<Rightarrow>
     (case NewManager (os_NewProvider os) (os_Claims os) cfg of
        Inl e \<Rightarrow> Inl (stopped (''build auth manager: '' @ e) (Some level) (Store_Close eng (SQLiteLedger_Close eng db)))
      | Inr auth \<Rightarrow>
     (case PriceTable_Refresh (os_jerr os) (os_get os) (NewPriceTable (cfg_Pricing cfg)) of
        (warning, priceTable) \<Rightarrow>
     (case NewRouter (cfg_Providers cfg) (rel_ProviderTimeout (cfg_Reliability cfg)) of
        Inl e \<Rightarrow> Inl (stopped (''build provider router: '' @ e) (Some level) (Store_Close eng (SQLiteLedger_Close eng db)))
      | Inr router \<Rightarrow> Inr (level, start_server (os_compile os) cfg auth router priceTable warning db))))))))"

definition close_stores :: "'d engine \<Rightarrow> 'd Server \<Rightarrow> 'd Server" where
  "close_stores eng s = s\<lparr>sv_audit := Store_Close eng (sv_audit s),
     sv_costs := (sv_costs s)\<lparr>tr_ledger := map_option (SQLiteLedger_Close eng) (tr_ledger (sv_costs s))\<rparr>\<rparr>"

definition Execute :: "('d, 'c) system \<Rightarrow> activity list \<Rightarrow> run_end \<Rightarrow> string list \<Rightarrow> 'd outcome" where
  "Execute os acts fin args =
     (case startup os args of
        Inl out \<Rightarrow> out
      | Inr (level, s) \<Rightarrow>
          (case Server_Run (os_engine os) (os_jerr os) acts fin s of
             (err, s) \<Rightarrow>
               \<lparr>oc_err = map_option (\<lambda>e. ''run server: '' @ e) err, oc_level = Some level,
                oc_server = Some (close_stores (os_engine os) s), oc_db = None\<rparr>))"

text \<open>\<open>main\<close>: the exit status.\<close>

definition main :: "('d, 'c) system \<Rightarrow> activity list \<Rightarrow> run_end \<Rightarrow> string list \<Rightarrow> int" where
  "main os acts fin args = (case oc_err (Execute os acts fin args) of None \<Rightarrow> 0 | Some _ \<Rightarrow> 1)"

section \<open>Budgets of a running server\<close>

text \<open>The states a server goes through: requests one after the other, each of which \<open>ok\<close> allows, and between them refreshes of the
  price table that install no negative price.\<close>

inductive gateway_run :: "'d engine \<Rightarrow> (request_env \<Rightarrow> RawRequest \<Rightarrow> 'd Server \<Rightarrow> bool) \<Rightarrow> 'd Server \<Rightarrow> 'd Server \<Rightarrow> bool"
  for eng :: "'d engine" and ok :: "request_env \<Rightarrow> RawRequest \<Rightarrow> 'd Server \<Rightarrow> bool" and s0 :: "'d Server"
where
  start: "gateway_run eng ok s0 s0"
| request: "gateway_run eng ok s0 s \<Longrightarrow> escapes_ok (rq_Path q) \<Longrightarrow> ok env q s \<Longrightarrow> ServeHTTP eng env q s = (out, s') \<Longrightarrow>
    gateway_run eng ok s0 s'"
| prices: "gateway_run eng ok s0 s \<Longrightarrow> refresh_prices jerr get s = s' \<Longrightarrow> pricer_ok (tr_pricer (sv_costs s')) \<Longrightarrow>
    gateway_run eng ok s0 s'"

lemma refresh_prices_within:
  assumes "within_budget table (sv_costs s)"
  shows "within_budget table (sv_costs (refresh_prices jerr get s))"
proof -
  have "\<exists>pr. sv_costs (refresh_prices jerr get s) = (sv_costs s)\<lparr>tr_pricer := pr\<rparr>"
    by (auto simp: refresh_prices_def Let_def split: Pricer.split prod.split option.split) (metis Tracker.surjective Tracker.update_convs(5))+
  then obtain pr where pr: "sv_costs (refresh_prices jerr get s) = (sv_costs s)\<lparr>tr_pricer := pr\<rparr>" by blast
  have "budgetForTenant ((sv_costs s)\<lparr>tr_pricer := pr\<rparr>) t = budgetForTenant (sv_costs s) t" for t
    by (simp add: budgetForTenant_def split: option.split)
  moreover have "tracker_total table ((sv_costs s)\<lparr>tr_pricer := pr\<rparr>) = tracker_total table (sv_costs s)"
    by (simp add: tracker_total_def fun_eq_iff split: option.split)
  ultimately show ?thesis using assms by (simp add: pr within_budget_def)
qed

text \<open>C2: the gateway keeps the daily budgets. If every total is within its tenant's daily budget, this remains so after
  any sequence of requests to the gateway, whatever their paths, keys and bodies are, whatever the providers answer and
  whichever calls of the database fail, and however the price table is refreshed between requests. The provisos: requests are
  served one after the other and prices do not change while one is served; the clock of a request that is charged does
  not pass midnight between the check and the record; no price is negative; and no charged completion is longer than the limit its
  request asked for.\<close>

theorem gateway_budget_kept:
  assumes "spend_table eng table" and "pricer_ok (tr_pricer (sv_costs s0))" and "within_budget table (sv_costs s0)"
    and "gateway_run eng (fair_request eng) s0 s"
  shows "within_budget table (sv_costs s)"
proof -
  from assms(4) have "within_budget table (sv_costs s) \<and> pricer_ok (tr_pricer (sv_costs s))"
  proof induction
    case start
    then show ?case using assms by simp
  next
    case (request s q env out s')
    then show ?case using request_within [OF assms(1) request.hyps(2-4)] by simp
  next
    case (prices s jerr get s')
    then show ?case using refresh_prices_within [of table s jerr get] by simp
  qed
  then show ?thesis ..
qed

theorem gateway_budget_kept_witness:
  "within_budget lite_spend (sv_costs (snd (ServeHTTP lite_engine demo_env chat_raw chat_server)))"
proof -
  have "gateway_run lite_engine (fair_request lite_engine) chat_server (snd (ServeHTTP lite_engine demo_env chat_raw chat_server))"
  proof (rule gateway_run.request)
    show "gateway_run lite_engine (fair_request lite_engine) chat_server chat_server" by (rule gateway_run.start)
    show "escapes_ok (rq_Path chat_raw)" by code_simp
    show "fair_request lite_engine demo_env chat_raw chat_server" by (rule chat_raw_fair)
  qed (rule surjective_pairing)
  moreover have "sv_costs chat_server = small_tracker" by (simp add: chat_server_def demo_server_def)
  moreover have "tr_pricer small_tracker = StaticPricer" "tr_ledger small_tracker = None" "tr_spendByDay small_tracker = Map.empty"
    by (simp_all add: small_tracker_def NewTracker_def NewTrackerWithLedger_def NewTrackerWithOptions_def Let_def)
  ultimately show ?thesis
    using gateway_budget_kept [OF lite_ledger.spend_table_axioms, of chat_server] within_budget_fresh [of small_tracker lite_spend] by simp
qed

section \<open>Starting up\<close>

lemma NewRouter_valid:
  assumes "list_all provider_ok ps"
  shows "\<exists>r. NewRouter ps timeout = Inr r \<and> map pv_Name r = map pc_Name ps \<and>
    (\<forall>p \<in> set r. known_provider (pv_Type p) \<and> url_Scheme (pv_baseURL p) \<noteq> [] \<and> url_Host (pv_baseURL p) \<noteq> [] \<and> pv_nextKey p = 0)"
  using assms
proof (induction ps)
  case (Cons p ps)
  then obtain u where "url_Parse (pc_BaseURL p) = Inr u" "url_Scheme u \<noteq> []" "url_Host u \<noteq> []" "known_provider (pc_Type p)"
    by (auto simp: provider_ok_def absolute_url_def split: sum.splits)
  then show ?case using Cons by auto
qed simp

text \<open>A configuration that \<open>Load\<close> accepts builds a router: there is a provider for every configured one, in order, each of a
  type the adapters support, with an absolute URL and its key counter at zero.\<close>

lemma loaded_config_routes:
  assumes "Load getenv ReadFile decode path = Inr cfg"
  shows "\<exists>r. NewRouter (cfg_Providers cfg) (rel_ProviderTimeout (cfg_Reliability cfg)) = Inr r \<and> r \<noteq> [] \<and>
    map pv_Name r = map pc_Name (cfg_Providers cfg) \<and>
    (\<forall>p \<in> set r. known_provider (pv_Type p) \<and> url_Scheme (pv_baseURL p) \<noteq> [] \<and> url_Host (pv_baseURL p) \<noteq> [] \<and> pv_nextKey p = 0)"
proof -
  have "config_ok cfg" using assms by (auto simp: Load_def Let_def Validate_iff [symmetric] split: sum.splits if_splits)
  then have "list_all provider_ok (cfg_Providers cfg)" "cfg_Providers cfg \<noteq> []" by (auto simp: config_ok_def)
  then show ?thesis using NewRouter_valid by (metis list.map_disc_iff)
qed

lemma start_server_fields:
  "sv_auth (start_server compile cfg auth router table warning db) = auth"
  "sv_costs (start_server compile cfg auth router table warning db) =
     NewTrackerWithOptions (cfg_Cost cfg) (cfg_Tenants cfg) (Some db) (Some (TablePricer table))"
  "sv_limits (start_server compile cfg auth router table warning db) = Some (Limiter_New (cfg_RateLimit cfg) (cfg_Tenants cfg))"
  "sv_cfg (start_server compile cfg auth router table warning db) = cfg"
  "sv_router (start_server compile cfg auth router table warning db) = router"
  by (simp_all add: start_server_def Server_New_def Let_def split: option.split)

text \<open>C20: when a start succeeds. The program reaches the point of serving exactly when its flags parse, the configuration loads, both
  stores open on the same database, one after the other, and the authentication manager is built: nothing else stops it. In
  particular neither a price feed that cannot be fetched nor the provider URLs do, for the configuration was
  validated. The server then runs on that configuration, with a provider for every configured one.\<close>

theorem startup_exact:
  "(\<exists>level s. startup os args = Inr (level, s) \<and> sv_cfg s = cfg \<and> map pv_Name (sv_router s) = map pc_Name (cfg_Providers cfg) \<and>
      list_all known_provider (map pv_Type (sv_router s))) \<longleftrightarrow>
   (\<exists>path db db'. flag_Parse args [] = Inr path \<and> Load (os_getenv os) (os_ReadFile os) (os_yaml os) path = Inr cfg \<and>
      Audit_Open (os_engine os) (os_clock os) (auc_SQLiteDSN (cfg_Audit cfg)) (os_db os) = (None, db) \<and>
      OpenSQLiteLedger (os_engine os) (os_clock os) (auc_SQLiteDSN (cfg_Audit cfg)) db = (None, db') \<and>
      (\<exists>auth. NewManager (os_NewProvider os) (os_Claims os) cfg = Inr auth))" (is "?started \<longleftrightarrow> ?ready")
proof
  assume ?started
  then show ?ready
    by (auto simp: startup_def Let_def start_server_fields
        split: sum.splits prod.splits option.splits if_splits)
next
  assume ?ready
  then obtain path db db' where r: "flag_Parse args [] = Inr path" "Load (os_getenv os) (os_ReadFile os) (os_yaml os) path = Inr cfg"
    "Audit_Open (os_engine os) (os_clock os) (auc_SQLiteDSN (cfg_Audit cfg)) (os_db os) = (None, db)"
    "OpenSQLiteLedger (os_engine os) (os_clock os) (auc_SQLiteDSN (cfg_Audit cfg)) db = (None, db')"
    and "\<exists>auth. NewManager (os_NewProvider os) (os_Claims os) cfg = Inr auth" by blast
  moreover obtain router where "NewRouter (cfg_Providers cfg) (rel_ProviderTimeout (cfg_Reliability cfg)) = Inr router"
    "map pv_Name router = map pc_Name (cfg_Providers cfg)" "list_all known_provider (map pv_Type router)"
    using loaded_config_routes [OF r(2)] by (auto simp: list_all_iff)
  moreover obtain warning table where "PriceTable_Refresh (os_jerr os) (os_get os) (NewPriceTable (cfg_Pricing cfg)) = (warning, table)" by fastforce
  ultimately show ?started using r by (auto simp: startup_def start_server_fields)
qed

section \<open>Settings of tenants\<close>

lemma tenant_ids_distinct:
  assumes "tenants_ok ts" and "\<forall>t \<in> set ts. TrimSpace (tc_ID t) = tc_ID t"
  shows "distinct (map tc_ID ts)" and "\<forall>t \<in> set ts. tc_ID t \<noteq> []"
proof -
  have m: "map (\<lambda>t. TrimSpace (tc_ID t)) ts = map tc_ID ts" using assms(2) by simp
  show "distinct (map tc_ID ts)" using assms(1) unfolding tenants_ok_def m ..
  show "\<forall>t \<in> set ts. tc_ID t \<noteq> []" using assms by (auto simp: tenants_ok_def list_all_iff)
qed

lemma tenantBudgets_at:
  assumes "distinct (map tc_ID ts)" and "t \<in> set ts"
  shows "tenantBudgets cfg ts (tc_ID t) = Some
    \<lparr>bu_Daily = (if f64_gt (tc_DailyBudgetUSD t) (Fin 0) then tc_DailyBudgetUSD t else cc_DailyBudgetUSD cfg),
     bu_PerReq = (if f64_gt (tc_PerRequestBudgetUSD t) (Fin 0) then tc_PerRequestBudgetUSD t else cc_PerRequestBudgetUSD cfg)\<rparr>"
  unfolding tenantBudgets_def Let_def foldl_map_upd_distinct [OF assms] by simp

text \<open>C21: the settings of a tenant apply to whoever authenticates as it. When the configured tenant ids have no blanks around
  them, an identity that the started server accepts for the proxy is that of the default tenant or of a
  configured one, and for the latter the tracker and the limiter use the budgets and limits configured for that tenant, with the
  global ones where it has none.\<close>

theorem tenant_settings_apply:
  assumes "validateTenants (cfg_Tenants cfg) = Inr ()" and "cfg_Tenants cfg \<noteq> []"
    and "\<forall>t \<in> set (cfg_Tenants cfg). TrimSpace (tc_ID t) = tc_ID t"
    and "s = start_server compile cfg (NewManagerWithVerifier cfg v) router table warning db"
    and "AuthenticateProxy (sv_auth s) r = Inr (Some i)"
  shows "id_TenantID i = DefaultTenantID \<or>
    (\<exists>t \<in> set (cfg_Tenants cfg). id_TenantID i = tc_ID t \<and>
       budgetForTenant (sv_costs s) (id_TenantID i) =
         \<lparr>bu_Daily = (if f64_gt (tc_DailyBudgetUSD t) (Fin 0) then tc_DailyBudgetUSD t else cc_DailyBudgetUSD (cfg_Cost cfg)),
          bu_PerReq = (if f64_gt (tc_PerRequestBudgetUSD t) (Fin 0) then tc_PerRequestBudgetUSD t else cc_PerRequestBudgetUSD (cfg_Cost cfg))\<rparr> \<and>
       (\<exists>l. sv_limits s = Some l \<and>
          limitForTenant l (id_TenantID i) = mergeLimit (limitFromConfig (cfg_RateLimit cfg)) (limitFromConfig (tc_RateLimit t))))"
proof (cases "id_TenantID i = DefaultTenantID")
  case False
  have ok: "tenants_ok (cfg_Tenants cfg)" using assms(1) by (simp add: validateTenants_iff)
  note ids = tenant_ids_distinct [OF ok assms(3)]
  have "\<exists>c \<in> set (cfg_Tenants cfg). TrimSpace (tc_ID c) \<noteq> []" using assms(2,3) ids(2) by (cases "cfg_Tenants cfg") auto
  then obtain t where t: "t \<in> set (cfg_Tenants cfg)" "id_TenantID i = tc_ID t"
    using proxy_identity_tenant [of cfg v r i] assms(3,4,5) False by (auto simp: start_server_fields)
  have "tenantOrDefault (tc_ID t) = tc_ID t" using ids(2) t(1) by (simp add: tenantOrDefault_def)
  then show ?thesis
    using t tenantBudgets_at [OF ids(1) t(1), of "cfg_Cost cfg"]
      foldl_map_upd_distinct [OF ids(1) t(1), of "\<lambda>t. mergeLimit (limitFromConfig (cfg_RateLimit cfg)) (limitFromConfig (tc_RateLimit t))" Map.empty]
    by (intro disjI2 bexI [of _ t])
      (simp_all add: assms(4) start_server_fields budgetForTenant_def NewTrackerWithOptions_def Limiter_New_def limitForTenant_def Let_def)
qed simp

theorem tenant_settings_apply_witness:
  "\<exists>i. AuthenticateProxy (NewManagerWithVerifier (tenant_config ''acme'' (Fin 5)) (Some verify_echo)) (req_bearer ''acme'') = Inr (Some i) \<and>
     bu_Daily (budgetForTenant (sv_costs (start_server (\<lambda>_. None) (tenant_config ''acme'' (Fin 5))
       (NewManagerWithVerifier (tenant_config ''acme'' (Fin 5)) (Some verify_echo)) [] (NewPriceTable (cfg_Pricing Default)) None empty_trail))
       (id_TenantID i)) = Fin 5"
proof -
  let ?cfg = "tenant_config ''acme'' (Fin 5)"
  let ?s = "start_server (\<lambda>_. None) ?cfg (NewManagerWithVerifier ?cfg (Some verify_echo)) [] (NewPriceTable (cfg_Pricing Default)) None empty_trail"
  have trim: "TrimSpace ''acme'' = ''acme''" by code_simp
  have ts: "cfg_Tenants ?cfg \<noteq> []" "\<forall>t \<in> set (cfg_Tenants ?cfg). TrimSpace (tc_ID t) = tc_ID t \<and> tc_ID t = ''acme'' \<and> tc_DailyBudgetUSD t = Fin 5"
    by (simp_all add: tenant_config_def trim)
  have ok: "validateTenants (cfg_Tenants ?cfg) = Inr ()"
    by (simp add: validateTenants_iff tenants_ok_def tenant_config_def trim rate_limit_ok_def)
  obtain i where i: "AuthenticateProxy (NewManagerWithVerifier ?cfg (Some verify_echo)) (req_bearer ''acme'') = Inr (Some i)" "id_TenantID i = ''acme''"
    using verify_echo_run [of "''acme''" "''acme''" "Fin 5"] trim by simp
  have pos: "f64_gt (Fin 5) (Fin 0)" by (simp add: f64_lt_iff)
  have all: "\<forall>t \<in> set (cfg_Tenants ?cfg). TrimSpace (tc_ID t) = tc_ID t" using ts(2) by blast
  have au: "AuthenticateProxy (sv_auth ?s) (req_bearer ''acme'') = Inr (Some i)" using i(1) by (simp add: start_server_fields)
  have "id_TenantID i \<noteq> DefaultTenantID" using i(2) by (simp add: DefaultTenantID_def)
  with tenant_settings_apply [OF ok ts(1) all refl au] obtain t where "t \<in> set (cfg_Tenants ?cfg)"
    "budgetForTenant (sv_costs ?s) (id_TenantID i) =
       \<lparr>bu_Daily = (if f64_gt (tc_DailyBudgetUSD t) (Fin 0) then tc_DailyBudgetUSD t else cc_DailyBudgetUSD (cfg_Cost ?cfg)),
        bu_PerReq = (if f64_gt (tc_PerRequestBudgetUSD t) (Fin 0) then tc_PerRequestBudgetUSD t else cc_PerRequestBudgetUSD (cfg_Cost ?cfg))\<rparr>"
    by blast
  then show ?thesis using ts(2) i(1) pos by auto
qed

text \<open>C38: a blank around a tenant id loses the tenant's settings. The validation accepts a tenant whose id has blanks around it, and
  whoever authenticates as it does so under the trimmed id; but the tracker and the limiter look the settings up under the id as it
  is written. So for an identity of any such tenant both use the global budgets and limits, whatever is configured for the tenant.\<close>

theorem padded_tenant_settings_lost:
  assumes "validateTenants (cfg_Tenants cfg) = Inr ()" and "t \<in> set (cfg_Tenants cfg)" and "TrimSpace (tc_ID t) \<noteq> tc_ID t"
    and "s = start_server compile cfg (NewManagerWithVerifier cfg v) router table warning db"
    and "AuthenticateProxy (sv_auth s) r = Inr (Some i)" and "id_TenantID i = TrimSpace (tc_ID t)"
  shows "budgetForTenant (sv_costs s) (id_TenantID i) =
      \<lparr>bu_Daily = cc_DailyBudgetUSD (cfg_Cost cfg), bu_PerReq = cc_PerRequestBudgetUSD (cfg_Cost cfg)\<rparr> \<and>
    (\<exists>l. sv_limits s = Some l \<and> limitForTenant l (id_TenantID i) = limitFromConfig (cfg_RateLimit cfg))"
proof -
  have ok: "tenants_ok (cfg_Tenants cfg)" using assms(1) by (simp add: validateTenants_iff)
  have "tc_ID u \<noteq> TrimSpace (tc_ID t)" if u: "u \<in> set (cfg_Tenants cfg)" for u
  proof
    assume e: "tc_ID u = TrimSpace (tc_ID t)"
    then have "TrimSpace (tc_ID u) = TrimSpace (tc_ID t)" by simp
    then have "u = t" using ok u assms(2) by (auto simp: tenants_ok_def distinct_map dest: inj_onD)
    then show False using e assms(3) by simp
  qed
  then have out: "id_TenantID i \<notin> tc_ID ` set (cfg_Tenants cfg)" using assms(6) by (metis (no_types, lifting) imageE)
  have "id_TenantID i \<noteq> []" using ok assms(2,6) by (auto simp: tenants_ok_def list_all_iff)
  then show ?thesis
    by (simp add: assms(4) start_server_fields budgetForTenant_def NewTrackerWithOptions_def tenantBudgets_def tenantOrDefault_def
        Limiter_New_def limitForTenant_def Let_def foldl_map_upd_outside [OF out])
qed

text \<open>A tenant with a blank at the end of its id and five dollars a day has the ten dollars of the default configuration.\<close>

theorem padded_tenant_settings_lost_witness:
  "validateTenants (cfg_Tenants (tenant_config ''acme '' (Fin 5))) = Inr () \<and>
   (\<exists>i. AuthenticateProxy (NewManagerWithVerifier (tenant_config ''acme '' (Fin 5)) (Some verify_echo)) (req_bearer ''acme'') = Inr (Some i) \<and>
      bu_Daily (budgetForTenant (sv_costs (start_server (\<lambda>_. None) (tenant_config ''acme '' (Fin 5))
        (NewManagerWithVerifier (tenant_config ''acme '' (Fin 5)) (Some verify_echo)) [] (NewPriceTable (cfg_Pricing Default)) None empty_trail))
        (id_TenantID i)) = Fin 10)"
proof -
  let ?cfg = "tenant_config ''acme '' (Fin 5)"
  let ?s = "start_server (\<lambda>_. None) ?cfg (NewManagerWithVerifier ?cfg (Some verify_echo)) [] (NewPriceTable (cfg_Pricing Default)) None empty_trail"
  have trim: "TrimSpace ''acme '' = ''acme''" by code_simp
  obtain t where t: "t \<in> set (cfg_Tenants ?cfg)" "tc_ID t = ''acme ''" by (auto simp: tenant_config_def)
  have ok: "validateTenants (cfg_Tenants ?cfg) = Inr ()"
    by (simp add: validateTenants_iff tenants_ok_def tenant_config_def trim rate_limit_ok_def)
  obtain i where i: "AuthenticateProxy (NewManagerWithVerifier ?cfg (Some verify_echo)) (req_bearer ''acme'') = Inr (Some i)" "id_TenantID i = ''acme''"
    using verify_echo_run [of "''acme''" "''acme ''" "Fin 5"] trim by simp
  have pad: "TrimSpace (tc_ID t) \<noteq> tc_ID t" and id: "id_TenantID i = TrimSpace (tc_ID t)" using t(2) trim i(2) by simp_all
  have au: "AuthenticateProxy (sv_auth ?s) (req_bearer ''acme'') = Inr (Some i)" using i(1) by (simp add: start_server_fields)
  have "cc_DailyBudgetUSD (cfg_Cost ?cfg) = Fin 10" by (simp add: tenant_config_def Default_def)
  then have "bu_Daily (budgetForTenant (sv_costs ?s) (id_TenantID i)) = Fin 10"
    using padded_tenant_settings_lost [OF ok t(1) pad refl au id] by simp
  then show ?thesis using ok i(1) by blast
qed

end
